(* ===== verification/Prelude.thy ===== *)
theory Prelude
  imports Complex_Main "HOL-Library.AList"
begin

text \<open>
  Shared ground of the development: the exception classes the code raises and catches
  (src/src/sentinel/utils/errors.py and the builtins), results that may be exceptions,
  Python dictionaries as association lists in insertion order, and the few string
  operations of \<^verbatim>\<open>str\<close> the components use. A Python string is an Isabelle
  \<open>string\<close> whose character of code \<open>n\<close> is the code point \<open>n\<close>, so the strings of the
  model are the ones over U+0000 to U+00FF.
\<close>

named_theorems sentinel_defs "definitions of the model that component proofs unfold"
named_theorems risk_simps "severity facts every classifier's proof uses"

section \<open>Exceptions\<close>

datatype exc_class =
    BaseException | Exception | CancelledError
  | TypeError | ValueError | ValidationError | LookupError | KeyError | ArithmeticError
  | OverflowError | OSError | TimeoutError | RuntimeError | NotImplementedError | AttributeError
  | SentinelError | ConfigurationError | PolicyError | PolicySignatureError | IdentityError
  | PipelineError | DependencyUnavailableError | TenantNotFoundError | ApprovalError
  | CryptoError | SignatureError | ToolValidationError | ToolDeniedError | HTTPException
  | UnicodeEncodeError | BinasciiError | PydanticUserError | JSONDecodeError | HTTPStatusError | ImportError
  | RecursionError

text \<open>The base class each \<^verbatim>\<open>class\<close> statement names.\<close>

fun base_class :: "exc_class \<Rightarrow> exc_class option" where
  "base_class BaseException = None"
| "base_class Exception = Some BaseException"
| "base_class CancelledError = Some BaseException"
| "base_class TypeError = Some Exception"
| "base_class ValueError = Some Exception"
| "base_class ValidationError = Some ValueError"
| "base_class LookupError = Some Exception"
| "base_class KeyError = Some LookupError"
| "base_class ArithmeticError = Some Exception"
| "base_class OverflowError = Some ArithmeticError"
| "base_class OSError = Some Exception"
| "base_class TimeoutError = Some OSError"
| "base_class RuntimeError = Some Exception"
| "base_class NotImplementedError = Some RuntimeError"
| "base_class AttributeError = Some Exception"
| "base_class SentinelError = Some Exception"
| "base_class ConfigurationError = Some SentinelError"
| "base_class PolicyError = Some SentinelError"
| "base_class PolicySignatureError = Some PolicyError"
| "base_class IdentityError = Some SentinelError"
| "base_class PipelineError = Some SentinelError"
| "base_class DependencyUnavailableError = Some PipelineError"
| "base_class TenantNotFoundError = Some SentinelError"
| "base_class ApprovalError = Some SentinelError"
| "base_class CryptoError = Some SentinelError"
| "base_class SignatureError = Some CryptoError"
| "base_class ToolValidationError = Some SentinelError"
| "base_class ToolDeniedError = Some Exception"
| "base_class HTTPException = Some Exception"
| "base_class UnicodeEncodeError = Some ValueError"
| "base_class BinasciiError = Some ValueError"
| "base_class PydanticUserError = Some RuntimeError"
| "base_class JSONDecodeError = Some ValueError"
| "base_class HTTPStatusError = Some Exception"
| "base_class ImportError = Some Exception"
| "base_class RecursionError = Some RuntimeError"

text \<open>\<open>subclass_upto n c d\<close>: \<open>d\<close> is \<open>c\<close> or a base of it at most \<open>n\<close> steps up; no chain is longer than 5.\<close>

fun subclass_upto :: "nat \<Rightarrow> exc_class \<Rightarrow> exc_class \<Rightarrow> bool" where
  "subclass_upto 0 c d \<longleftrightarrow> c = d"
| "subclass_upto (Suc n) c d \<longleftrightarrow>
     c = d \<or> (case base_class c of None \<Rightarrow> False | Some b \<Rightarrow> subclass_upto n b d)"

definition is_subclass :: "exc_class \<Rightarrow> exc_class \<Rightarrow> bool" where
  "is_subclass c d = subclass_upto 5 c d"

lemma subclass_upto_stable: "subclass_upto (5 + n) c d = subclass_upto 5 c d"
  by (cases c) (simp_all add: eval_nat_numeral)

datatype exn = Exn (exn_class: exc_class) (exn_msg: string)

text \<open>An \<^verbatim>\<open>except C\<close> clause catches the exception.\<close>

definition catches :: "exc_class \<Rightarrow> exn \<Rightarrow> bool" where
  "catches C e = is_subclass (exn_class e) C"

lemma is_subclass_simps [simp]:
  "is_subclass c c"
  "is_subclass IdentityError Exception"
  "is_subclass DependencyUnavailableError Exception"
  "\<not> is_subclass CancelledError Exception"
  "\<not> is_subclass IdentityError DependencyUnavailableError"
  "\<not> is_subclass DependencyUnavailableError IdentityError"
  "is_subclass d BaseException"
  by (auto simp: is_subclass_def eval_nat_numeral) (cases d; simp)

lemma catches_Exception_iff:
  "catches Exception e \<longleftrightarrow> exn_class e \<noteq> BaseException \<and> exn_class e \<noteq> CancelledError"
  by (cases e; cases "exn_class e") (auto simp: catches_def is_subclass_def eval_nat_numeral)

type_synonym 'a result = "exn + 'a"

definition bindR :: "'a result \<Rightarrow> ('a \<Rightarrow> 'b result) \<Rightarrow> 'b result" where
  "bindR m f = (case m of Inl e \<Rightarrow> Inl e | Inr x \<Rightarrow> f x)"

lemma bindR_simps [simp]:
  "bindR (Inl e) f = Inl e"
  "bindR (Inr x) f = f x"
  by (simp_all add: bindR_def)

lemma bindR_Inr_iff: "bindR m f = Inr y \<longleftrightarrow> (\<exists>x. m = Inr x \<and> f x = Inr y)"
  by (cases m) auto

lemma bindR_Inl_iff: "bindR m f = Inl e \<longleftrightarrow> m = Inl e \<or> (\<exists>x. m = Inr x \<and> f x = Inl e)"
  by (cases m) auto

section \<open>Dictionaries\<close>

text \<open>
  A dictionary keeps insertion order; storing under a present key keeps its place, which
  is what \<open>AList.update\<close> does. \<open>d.get(k)\<close> is \<open>map_of d k\<close>.
\<close>

type_synonym ('k, 'v) pydict = "('k \<times> 'v) list"

abbreviation dict_set :: "'k \<Rightarrow> 'v \<Rightarrow> ('k, 'v) pydict \<Rightarrow> ('k, 'v) pydict" where
  "dict_set \<equiv> AList.update"

abbreviation dict_wf :: "('k, 'v) pydict \<Rightarrow> bool" where
  "dict_wf d \<equiv> distinct (map fst d)"

lemma dict_get_set [simp]: "map_of (dict_set k v d) k' = (if k' = k then Some v else map_of d k')"
  by (simp add: update_conv')

lemma dict_wf_set: "dict_wf d \<Longrightarrow> dict_wf (dict_set k v d)"
  by (rule distinct_update)

lemma dict_values_set:
  "dict_wf d \<Longrightarrow> set (map snd (dict_set k v d)) = insert v (snd ` {p \<in> set d. fst p \<noteq> k})"
proof (induction d)
  case Nil
  then show ?case by simp
next
  case (Cons p d)
  obtain a b where p: "p = (a, b)" by (cases p)
  show ?case
  proof (cases "a = k")
    case True
    with Cons.prems p have "{q \<in> set d. fst q \<noteq> k} = set d" by force
    with True p show ?thesis by auto
  next
    case False
    from Cons p have "set (map snd (dict_set k v d)) = insert v (snd ` {q \<in> set d. fst q \<noteq> k})"
      by simp
    moreover have "{q \<in> set (p # d). fst q \<noteq> k} = insert p {q \<in> set d. fst q \<noteq> k}"
      using False p by auto
    ultimately show ?thesis using False p by (simp add: insert_commute)
  qed
qed

section \<open>Strings\<close>

fun startswith :: "string \<Rightarrow> string \<Rightarrow> bool" where
  "startswith s [] = True"
| "startswith [] (p # ps) = False"
| "startswith (c # cs) (p # ps) = (c = p \<and> startswith cs ps)"

lemma startswith_iff: "startswith s p \<longleftrightarrow> (\<exists>v. s = p @ v)"
  by (induction s p rule: startswith.induct) auto

text \<open>\<^verbatim>\<open>s.removeprefix(p)\<close>\<close>

definition removeprefix :: "string \<Rightarrow> string \<Rightarrow> string" where
  "removeprefix s p = (if startswith s p then drop (length p) s else s)"

text \<open>\<^verbatim>\<open>needle in haystack\<close>\<close>

fun contains_str :: "string \<Rightarrow> string \<Rightarrow> bool" where
  "contains_str needle [] \<longleftrightarrow> needle = []"
| "contains_str needle (c # cs) \<longleftrightarrow> startswith (c # cs) needle \<or> contains_str needle cs"

lemma contains_str_iff: "contains_str p s \<longleftrightarrow> (\<exists>u v. s = u @ p @ v)"
proof (induction s)
  case Nil
  then show ?case by auto
next
  case (Cons c cs)
  have "startswith (c # cs) p \<longleftrightarrow> (\<exists>v. c # cs = p @ v)"
    by (rule startswith_iff)
  moreover have "(\<exists>u v. c # cs = u @ p @ v) \<longleftrightarrow> (\<exists>v. c # cs = p @ v) \<or> (\<exists>u v. cs = u @ p @ v)"
    by (auto simp: Cons_eq_append_conv)
  ultimately show ?case using Cons.IH by simp
qed

text \<open>A string between single quotes, as the messages of the code have it.\<close>

definition quoted :: "string \<Rightarrow> string" where
  "quoted s = CHR 0x27 # s @ [CHR 0x27]"

text \<open>\<^verbatim>\<open>sep.join(items)\<close>\<close>

fun join :: "string \<Rightarrow> string list \<Rightarrow> string" where
  "join sep [] = []"
| "join sep [x] = x"
| "join sep (x # y # ys) = x @ sep @ join sep (y # ys)"

text \<open>\<^verbatim>\<open>s.split(c)\<close> for a separator of one character: never empty.\<close>

fun split_on :: "char \<Rightarrow> string \<Rightarrow> string list" where
  "split_on c [] = [[]]"
| "split_on c (x # xs) =
     (if x = c then [] # split_on c xs
      else (case split_on c xs of [] \<Rightarrow> [[x]] | p # ps \<Rightarrow> (x # p) # ps))"

lemma split_on_not_Nil [simp]: "split_on c s \<noteq> []"
  by (cases s) (auto split: list.splits)

lemma join_split_on: "join [c] (split_on c s) = s"
proof (induction s)
  case Nil
  then show ?case by simp
next
  case (Cons x xs)
  obtain p ps where sp: "split_on c xs = p # ps"
    using split_on_not_Nil[of c xs] by (cases "split_on c xs") auto
  show ?case using Cons.IH sp by (cases ps) auto
qed

lemma split_on_no_sep: "p \<in> set (split_on c s) \<Longrightarrow> c \<notin> set p"
  by (induction s arbitrary: p) (auto split: if_splits list.splits)

text \<open>\<^verbatim>\<open>str.isspace\<close>, \<^verbatim>\<open>str.strip\<close> and \<^verbatim>\<open>str.lower\<close> on U+0000 to U+00FF.\<close>

definition is_space :: "char \<Rightarrow> bool" where
  "is_space c = (let n = (of_char c :: nat) in
     9 \<le> n \<and> n \<le> 13 \<or> 28 \<le> n \<and> n \<le> 32 \<or> n = 133 \<or> n = 160)"

definition strip :: "string \<Rightarrow> string" where
  "strip s = rev (dropWhile is_space (rev (dropWhile is_space s)))"

definition lower_char :: "char \<Rightarrow> char" where
  "lower_char c = (let n = (of_char c :: nat) in
     if 65 \<le> n \<and> n \<le> 90 \<or> 192 \<le> n \<and> n \<le> 222 \<and> n \<noteq> 215 then char_of (n + 32) else c)"

abbreviation lower :: "string \<Rightarrow> string" where
  "lower \<equiv> map lower_char"

text \<open>\<^verbatim>\<open>str(n)\<close> for an integer; \<open>digits_of\<close> is for \<open>0 \<le> n\<close>.\<close>

function digits_of :: "int \<Rightarrow> string" where
  "digits_of n = (if n < 10 then [char_of (48 + n)] else digits_of (n div 10) @ [char_of (48 + n mod 10)])"
  by pat_completeness auto
termination
  by (relation "measure nat") auto

declare digits_of.simps [simp del]

definition str_int :: "int \<Rightarrow> string" where
  "str_int i = (if i < 0 then CHR ''-'' # digits_of (- i) else digits_of i)"

end
