(* ===== verification/Binary64.thy ===== *)
theory Binary64
  imports Prelude "HOL-Library.Log_Nat"
begin

text \<open>
  Python's \<^verbatim>\<open>float\<close> is IEEE 754 binary64. A finite float is modelled by the rational
  it denotes; every arithmetic operation is the exact one followed by \<open>fl\<close>, the rounding
  to the nearest double with ties to even (53 significant bits, subnormals down to
  \<open>2 ^ -1074\<close>). \<open>py_round n\<close> is \<^verbatim>\<open>round(x, n)\<close>: the correctly rounded decimal read
  back as a double. Overflow to infinity is not modelled in \<open>fl\<close>: every score, threshold
  and clock reading of the program is far below \<open>2 ^ 1024\<close>.
\<close>

section \<open>Rounding to an integer, ties to even\<close>

definition rne :: "rat \<Rightarrow> int" where
  "rne x = (let f = \<lfloor>x\<rfloor>; d = x - of_int f in
     if d < 1/2 then f else if d > 1/2 then f + 1 else if even f then f else f + 1)"

lemma rne_of_int [simp]: "rne (of_int n) = n"
  by (simp add: rne_def)

lemma rne_floor_bounds: "\<lfloor>x\<rfloor> \<le> rne x" "rne x \<le> \<lfloor>x\<rfloor> + 1"
  by (simp_all add: rne_def Let_def)

lemma rne_error: "\<bar>of_int (rne x) - x\<bar> \<le> 1/2"
proof -
  have "of_int \<lfloor>x\<rfloor> \<le> x" "x < of_int \<lfloor>x\<rfloor> + 1" by linarith+
  then show ?thesis unfolding rne_def Let_def abs_if by (simp split: if_splits) linarith
qed

lemma rne_mono: "x \<le> y \<Longrightarrow> rne x \<le> rne y"
proof -
  assume le: "x \<le> y"
  show ?thesis
  proof (cases "\<lfloor>x\<rfloor> = \<lfloor>y\<rfloor>")
    case True
    with le show ?thesis by (auto simp: rne_def Let_def)
  next
    case False
    moreover from le have "\<lfloor>x\<rfloor> \<le> \<lfloor>y\<rfloor>" by (rule floor_mono)
    ultimately have "\<lfloor>x\<rfloor> + 1 \<le> \<lfloor>y\<rfloor>" by simp
    with rne_floor_bounds[of x] rne_floor_bounds[of y] show ?thesis by linarith
  qed
qed

lemma rne_le_of_int: "x \<le> of_int n \<Longrightarrow> rne x \<le> n"
  using rne_mono[of x "of_int n"] by simp

lemma rne_ge_of_int: "of_int n \<le> x \<Longrightarrow> n \<le> rne x"
  using rne_mono[of "of_int n" x] by simp

lemma rne_minus: "rne (- x) = - rne x"
proof (cases "x = of_int \<lfloor>x\<rfloor>")
  case True
  then have "rne (- x) = rne (of_int (- \<lfloor>x\<rfloor>))" "rne x = \<lfloor>x\<rfloor>"
    by (metis of_int_minus, metis rne_of_int)
  then show ?thesis by (simp only: rne_of_int)
next
  case False
  have "\<lfloor>- x\<rfloor> = - \<lfloor>x\<rfloor> - 1"
  proof (rule floor_unique)
    have "of_int \<lfloor>x\<rfloor> \<le> x" "x < of_int \<lfloor>x\<rfloor> + 1" by linarith+
    moreover from this False have "of_int \<lfloor>x\<rfloor> < x" by linarith
    ultimately show "of_int (- \<lfloor>x\<rfloor> - 1) \<le> - x" "- x < of_int (- \<lfloor>x\<rfloor> - 1) + 1" by auto
  qed
  then show ?thesis by (auto simp: rne_def Let_def)
qed

section \<open>The binary exponent\<close>

lemma powi2_le_iff [simp]: "(2::rat) powi m \<le> 2 powi n \<longleftrightarrow> m \<le> n"
  by (meson linorder_not_less one_less_numeral_iff power_int_increasing
      power_int_strict_increasing semiring_norm(76) one_le_numeral)

lemma powi2_less_iff [simp]: "(2::rat) powi m < 2 powi n \<longleftrightarrow> m < n"
  by (simp flip: linorder_not_le)

definition expo :: "rat \<Rightarrow> int" where
  "expo x = (let (p, q) = quotient_of x; e = bitlen p - bitlen q in
     if 2 powi e \<le> x then e else e - 1)"

lemma expo_bounds:
  assumes "0 < x"
  shows "2 powi expo x \<le> x" "x < 2 powi (expo x + 1)"
proof -
  obtain p q where pq: "quotient_of x = (p, q)" by (cases "quotient_of x")
  then have q: "0 < q" by (rule quotient_of_denom_pos)
  have x: "x = of_int p / of_int q" using pq by (rule quotient_of_div)
  with assms q have p: "0 < p" by (simp add: zero_less_divide_iff)
  define P Q where "P = bitlen p" and "Q = bitlen q"
  have P1: "1 \<le> P" and Q1: "1 \<le> Q"
    using p q bitlen_nonneg[of p] bitlen_nonneg[of q] by (auto simp: P_def Q_def bitlen_alt_def)
  have bp: "(2::rat) powi (P - 1) \<le> of_int p" "of_int p < (2::rat) powi P"
    using bitlen_bounds[OF p] P1 unfolding P_def[symmetric]
    by (simp_all add: power_int_nonneg_exp)
  have bq: "(2::rat) powi (Q - 1) \<le> of_int q" "of_int q < (2::rat) powi Q"
    using bitlen_bounds[OF q] Q1 unfolding Q_def[symmetric]
    by (simp_all add: power_int_nonneg_exp)
  have q0: "(0::rat) < of_int q" using q by simp
  have up: "x < 2 powi (P - Q + 1)"
  proof -
    have "x * 2 powi (Q - 1) \<le> x * of_int q" using bq(1) assms by simp
    also have "\<dots> = of_int p" using x q0 by simp
    also have "\<dots> < 2 powi P" by (rule bp(2))
    also have "\<dots> = 2 powi (P - Q + 1) * 2 powi (Q - 1)" by (simp flip: power_int_add)
    finally show ?thesis by (simp add: mult_less_cancel_right)
  qed
  have lo: "2 powi (P - Q - 1) < x"
  proof -
    have "2 powi (P - Q - 1) * 2 powi Q = (2::rat) powi (P - 1)" by (simp flip: power_int_add)
    also have "\<dots> \<le> of_int p" by (rule bp(1))
    also have "\<dots> = x * of_int q" using x q0 by simp
    also have "\<dots> < x * 2 powi Q" using bq(2) assms by simp
    finally show ?thesis by (simp add: mult_less_cancel_right)
  qed
  have "expo x = (if 2 powi (P - Q) \<le> x then P - Q else P - Q - 1)"
    by (simp add: expo_def pq P_def Q_def)
  with up lo show "2 powi expo x \<le> x" "x < 2 powi (expo x + 1)" by auto
qed

lemma expo_unique:
  assumes "2 powi e \<le> x" "x < 2 powi (e + 1)"
  shows "expo x = e"
proof -
  have "0 < x" using assms(1) by (rule less_le_trans [OF zero_less_power_int, rotated]) simp
  note b = expo_bounds[OF this]
  have "(2::rat) powi e < 2 powi (expo x + 1)" "(2::rat) powi expo x < 2 powi (e + 1)"
    using assms b by linarith+
  then show ?thesis by simp
qed

lemma expo_mono:
  assumes "0 < x" "x \<le> y"
  shows "expo x \<le> expo y"
proof -
  have "(2::rat) powi expo x < 2 powi (expo y + 1)"
    using expo_bounds(1)[OF assms(1)] expo_bounds(2)[of y] assms by linarith
  then show ?thesis by simp
qed

section \<open>Rounding to a double\<close>

text \<open>\<open>ulp_expo x\<close> is the exponent of the unit in the last place of a double near \<open>x\<close>.\<close>

definition ulp_expo :: "rat \<Rightarrow> int" where
  "ulp_expo x = max (expo \<bar>x\<bar> - 52) (- 1074)"

definition fl :: "rat \<Rightarrow> rat" where
  "fl x = (if x = 0 then 0 else of_int (rne (x / 2 powi ulp_expo x)) * 2 powi ulp_expo x)"

definition is_double :: "rat \<Rightarrow> bool" where
  "is_double x \<longleftrightarrow> fl x = x"

definition py_round :: "nat \<Rightarrow> rat \<Rightarrow> rat" where
  "py_round n x = fl (of_int (rne (x * 10 ^ n)) / 10 ^ n)"

lemma fl_0 [simp]: "fl 0 = 0"
  by (simp add: fl_def)

lemma fl_minus: "fl (- x) = - fl x"
  by (simp add: fl_def ulp_expo_def rne_minus)

lemma powi2_int:
  assumes "0 \<le> (n::int)"
  obtains m :: int where "(2::rat) powi n = of_int m"
proof
  show "(2::rat) powi n = of_int (2 ^ nat n)" using assms by (simp add: power_int_nonneg_exp)
qed

text \<open>An integer multiple of the unit in the last place is rounded to itself.\<close>

lemma fl_multiple:
  assumes "x = of_int m * 2 powi k" "ulp_expo x \<le> k"
  shows "fl x = x"
proof (cases "x = 0")
  case False
  obtain j :: int where j: "(2::rat) powi (k - ulp_expo x) = of_int j"
    using assms(2) by (auto intro: powi2_int[of "k - ulp_expo x"])
  have "x / 2 powi ulp_expo x = of_int m * 2 powi (k - ulp_expo x)"
    by (subst (1) assms(1)) (simp add: power_int_diff)
  also have "\<dots> = of_int (m * j)" using j by simp
  finally have e: "x / 2 powi ulp_expo x = of_int (m * j)" .
  have "fl x = of_int (rne (x / 2 powi ulp_expo x)) * 2 powi ulp_expo x"
    using False by (simp add: fl_def)
  also have "\<dots> = x / 2 powi ulp_expo x * 2 powi ulp_expo x" by (simp only: e rne_of_int)
  finally show ?thesis by simp
qed simp

lemma fl_exact:
  assumes "\<bar>m\<bar> \<le> 2 ^ 53" "- 1074 \<le> k"
  shows "fl (of_int m * 2 powi k) = of_int m * 2 powi k"
proof (cases "m = 0")
  case False
  let ?x = "of_int m * (2::rat) powi k"
  have ax: "\<bar>?x\<bar> = of_int \<bar>m\<bar> * 2 powi k" by (simp add: abs_mult)
  have pos: "0 < \<bar>?x\<bar>" using False by simp
  have le: "\<bar>?x\<bar> \<le> 2 powi (k + 53)"
  proof -
    have "of_int \<bar>m\<bar> \<le> (of_int (2 ^ 53) :: rat)" using assms(1) by (simp only: of_int_le_iff)
    then have "\<bar>?x\<bar> \<le> of_int (2 ^ 53) * 2 powi k" unfolding ax by (rule mult_right_mono) simp
    also have "\<dots> = 2 powi (k + 53)" by (simp add: power_int_add)
    finally show ?thesis .
  qed
  show ?thesis
  proof (cases "\<bar>?x\<bar> = 2 powi (k + 53)")
    case True
    then have "expo \<bar>?x\<bar> = k + 53" by (intro expo_unique) auto
    then have u: "ulp_expo ?x \<le> k + 53" using assms(2) by (simp add: ulp_expo_def)
    have "?x = of_int (sgn m) * 2 powi (k + 53)"
    proof -
      have "?x = of_int (sgn m) * \<bar>?x\<bar>" by (simp add: sgn_if abs_mult)
      then show ?thesis using True by simp
    qed
    then show ?thesis using u by (rule fl_multiple)
  next
    case False
    with le have "(2::rat) powi expo \<bar>?x\<bar> < 2 powi (k + 53)"
      using expo_bounds(1)[OF pos] by linarith
    then have "ulp_expo ?x \<le> k" using assms(2) by (simp add: ulp_expo_def)
    then show ?thesis by (rule fl_multiple[OF refl])
  qed
qed simp

lemma fl_of_int: "\<bar>m\<bar> \<le> 2 ^ 53 \<Longrightarrow> fl (of_int m) = of_int m"
  using fl_exact[of m 0] by simp

lemma fl_1 [simp]: "fl 1 = 1"
  using fl_of_int[of 1] by simp

lemma fl_numeral: "numeral n \<le> (2 ^ 53 :: int) \<Longrightarrow> fl (numeral n) = numeral n"
  using fl_of_int[of "numeral n"] by simp

lemma fl_powi: "- 1074 \<le> k \<Longrightarrow> fl (2 powi k) = 2 powi k"
  using fl_exact[of 1 k] by simp

text \<open>A power of two is a bound that rounding respects.\<close>

lemma fl_le_powi:
  assumes "0 < x" "x \<le> 2 powi k" "ulp_expo x \<le> k"
  shows "fl x \<le> 2 powi k"
proof -
  obtain j :: int where j: "(2::rat) powi (k - ulp_expo x) = of_int j"
    using assms(3) by (auto intro: powi2_int[of "k - ulp_expo x"])
  have "x / 2 powi ulp_expo x \<le> 2 powi k / 2 powi ulp_expo x"
    using assms(2) by (simp add: divide_right_mono)
  also have "\<dots> = of_int j" using j by (simp add: power_int_diff)
  finally have "rne (x / 2 powi ulp_expo x) \<le> j" by (rule rne_le_of_int)
  then have "fl x \<le> of_int j * 2 powi ulp_expo x" using assms(1) by (simp add: fl_def)
  also have "\<dots> = 2 powi k" by (simp flip: j power_int_add)
  finally show ?thesis .
qed

lemma fl_ge_powi:
  assumes "2 powi k \<le> x" "ulp_expo x \<le> k"
  shows "2 powi k \<le> fl x"
proof -
  have x: "0 < x" using assms(1) by (rule less_le_trans[rotated]) simp
  obtain j :: int where j: "(2::rat) powi (k - ulp_expo x) = of_int j"
    using assms(2) by (auto intro: powi2_int[of "k - ulp_expo x"])
  have "rat_of_int j = 2 powi k / 2 powi ulp_expo x" unfolding j[symmetric] by (simp add: power_int_diff)
  also have "\<dots> \<le> x / 2 powi ulp_expo x" using assms(1) by (simp add: divide_right_mono)
  finally have "j \<le> rne (x / 2 powi ulp_expo x)" by (rule rne_ge_of_int)
  moreover have "2 powi k = of_int j * (2::rat) powi ulp_expo x" by (simp flip: j power_int_add)
  ultimately show ?thesis using x by (simp add: fl_def)
qed

lemma fl_nonneg: "0 \<le> x \<Longrightarrow> 0 \<le> fl x"
  using rne_ge_of_int[of 0 "x / 2 powi ulp_expo x"] by (simp add: fl_def)

lemma fl_mono_pos:
  assumes "0 < x" "x \<le> y"
  shows "fl x \<le> fl y"
proof (cases "ulp_expo x = ulp_expo y")
  case True
  have "rne (x / 2 powi ulp_expo y) \<le> rne (y / 2 powi ulp_expo y)"
    using assms(2) by (intro rne_mono divide_right_mono) auto
  with True assms show ?thesis by (simp add: fl_def)
next
  case False
  have y: "0 < y" using assms by simp
  have "expo x \<le> expo y" using assms by (rule expo_mono)
  with False have lt: "expo x + 1 \<le> expo y" and u: "ulp_expo x \<le> expo y" "ulp_expo y \<le> expo y"
    using assms y by (auto simp: ulp_expo_def)
  have "x \<le> 2 powi (expo x + 1)" using expo_bounds(2)[OF assms(1)] by simp
  also have "\<dots> \<le> 2 powi expo y" using lt by simp
  finally have "fl x \<le> 2 powi expo y" using assms(1) u by (intro fl_le_powi) auto
  also have "\<dots> \<le> fl y" using expo_bounds(1)[OF y] u by (intro fl_ge_powi) auto
  finally show ?thesis .
qed

lemma fl_mono: "x \<le> y \<Longrightarrow> fl x \<le> fl y"
proof -
  assume le: "x \<le> y"
  consider "0 < x" | "x \<le> 0" "0 \<le> y" | "y < 0" by linarith
  then show ?thesis
  proof cases
    case 1
    then show ?thesis using le by (rule fl_mono_pos)
  next
    case 2
    have "fl x \<le> 0" using fl_nonneg[of "- x"] 2 by (simp add: fl_minus)
    also have "0 \<le> fl y" using 2 by (simp add: fl_nonneg)
    finally show ?thesis .
  next
    case 3
    have "fl (- y) \<le> fl (- x)" using 3 le by (intro fl_mono_pos) auto
    then show ?thesis by (simp add: fl_minus)
  qed
qed

text \<open>Comparison with a double moves through rounding.\<close>

lemma fl_le_double: "is_double d \<Longrightarrow> x \<le> d \<Longrightarrow> fl x \<le> d"
  using fl_mono[of x d] by (simp add: is_double_def)

lemma fl_ge_double: "is_double d \<Longrightarrow> d \<le> x \<Longrightarrow> d \<le> fl x"
  using fl_mono[of d x] by (simp add: is_double_def)

lemma fl_le_1: "x \<le> 1 \<Longrightarrow> fl x \<le> 1"
  using fl_mono[of x 1] by simp

section \<open>Doubles are closed under rounding\<close>

lemma fl_fl [simp]: "fl (fl x) = fl x"
proof (cases "x = 0")
  case False
  let ?k = "ulp_expo x"
  let ?m = "rne (x / 2 powi ?k)"
  have k: "expo \<bar>x\<bar> - 52 \<le> ?k" "- 1074 \<le> ?k" by (auto simp: ulp_expo_def)
  have "\<bar>x\<bar> \<le> 2 powi (expo \<bar>x\<bar> + 1)" using expo_bounds(2)[of "\<bar>x\<bar>"] False by simp
  also have "\<dots> \<le> 2 powi (?k + 53)" using k by simp
  also have "\<dots> = of_int (2 ^ 53) * 2 powi ?k" by (simp add: power_int_add)
  finally have b: "\<bar>x\<bar> / 2 powi ?k \<le> of_int (2 ^ 53)" by (simp add: divide_le_eq)
  have "?m \<le> 2 ^ 53"
    by (rule rne_le_of_int, rule order_trans[OF _ b]) (simp add: divide_right_mono)
  moreover have "- (2 ^ 53) \<le> ?m"
  proof (rule rne_ge_of_int)
    have "- \<bar>x\<bar> \<le> x" by simp
    then have "- \<bar>x\<bar> / 2 powi ?k \<le> x / 2 powi ?k" by (rule divide_right_mono) simp
    with b show "of_int (- (2 ^ 53)) \<le> x / 2 powi ?k" by simp
  qed
  ultimately have "\<bar>?m\<bar> \<le> 2 ^ 53" by (simp add: abs_le_iff)
  with k(2) have "fl (of_int ?m * 2 powi ?k) = of_int ?m * 2 powi ?k" by (intro fl_exact)
  with False show ?thesis by (simp add: fl_def)
qed simp

lemma is_double_fl [simp]: "is_double (fl x)"
  by (simp add: is_double_def)

lemma is_double_0 [simp]: "is_double 0" and is_double_1 [simp]: "is_double 1"
  by (simp_all add: is_double_def)

lemma is_double_py_round [simp]: "is_double (py_round n x)"
  by (simp add: py_round_def)

text \<open>Subtracting a double of the upper half of the unit interval from one is exact.\<close>

lemma fl_one_minus_exact:
  assumes "is_double s" "1/2 \<le> s" "s \<le> 1"
  shows "fl (1 - s) = 1 - s"
proof (cases "s = 1")
  case False
  have "expo \<bar>s\<bar> = - 1" using assms False by (intro expo_unique) (auto simp: power_int_minus)
  then have u: "ulp_expo s = - 53" by (simp add: ulp_expo_def)
  define m where "m = rne (s / 2 powi (- 53))"
  have s: "s = of_int m * 2 powi (- 53)"
    using assms(1,2) u by (simp add: is_double_def fl_def m_def)
  have e: "1 - s = of_int (2 ^ 53 - m) * 2 powi (- 53)"
    unfolding s by (simp add: power_int_minus algebra_simps)
  have "0 \<le> m" "m \<le> 2 ^ 53"
  proof -
    have "of_int m = s * 2 ^ 53" unfolding s by (simp add: power_int_minus)
    then have "(0::rat) \<le> of_int m" "of_int m \<le> (of_int (2 ^ 53) :: rat)" using assms by auto
    then show "0 \<le> m" "m \<le> 2 ^ 53" by (simp_all only: of_int_le_iff of_int_0_le_iff)
  qed
  then show ?thesis unfolding e by (intro fl_exact) auto
qed simp

section \<open>Rounding errors\<close>

lemma fl_error:
  assumes "x \<noteq> 0"
  shows "\<bar>fl x - x\<bar> \<le> 2 powi (ulp_expo x - 1)"
proof -
  let ?u = "(2::rat) powi ulp_expo x"
  have "fl x - x = (of_int (rne (x / ?u)) - x / ?u) * ?u" using assms by (simp add: fl_def algebra_simps)
  then have "\<bar>fl x - x\<bar> = \<bar>of_int (rne (x / ?u)) - x / ?u\<bar> * ?u" by (simp add: abs_mult)
  also have "\<dots> \<le> 1/2 * ?u" by (intro mult_right_mono rne_error) simp
  also have "\<dots> = 2 powi (ulp_expo x - 1)" by (simp add: power_int_diff)
  finally show ?thesis .
qed

lemma fl_error_unit:
  assumes "\<bar>x\<bar> \<le> 1"
  shows "\<bar>fl x - x\<bar> \<le> 1 / 2 ^ 53"
proof (cases "x = 0")
  case False
  have "expo \<bar>x\<bar> \<le> expo 1" using assms False by (intro expo_mono) auto
  also have "expo 1 = 0" by (intro expo_unique) auto
  finally have "(2::rat) powi (ulp_expo x - 1) \<le> 2 powi (- 53)"
    unfolding powi2_le_iff by (simp add: ulp_expo_def)
  also have "\<dots> = 1 / 2 ^ 53" by (simp add: power_int_minus)
  finally show ?thesis using fl_error[OF False] by linarith
qed simp

section \<open>Decimal rounding\<close>

lemma py_round_error:
  assumes "0 \<le> x" "x \<le> 1"
  shows "\<bar>py_round n x - x\<bar> \<le> 1 / (2 * 10 ^ n) + 1 / 2 ^ 53"
proof -
  let ?r = "of_int (rne (x * 10 ^ n)) / 10 ^ n :: rat"
  have "0 \<le> rne (x * 10 ^ n)" using assms by (intro rne_ge_of_int) simp
  moreover have "rne (x * 10 ^ n) \<le> 10 ^ n" using assms by (intro rne_le_of_int) simp
  then have "(of_int (rne (x * 10 ^ n)) :: rat) \<le> of_int (10 ^ n)" by (simp only: of_int_le_iff)
  ultimately have "\<bar>?r\<bar> \<le> 1" by (simp add: divide_le_eq)
  then have 1: "\<bar>py_round n x - ?r\<bar> \<le> 1 / 2 ^ 53" unfolding py_round_def by (rule fl_error_unit)
  have "?r - x = (of_int (rne (x * 10 ^ n)) - x * 10 ^ n) / 10 ^ n" by (simp add: diff_divide_distrib)
  then have "\<bar>?r - x\<bar> = \<bar>of_int (rne (x * 10 ^ n)) - x * 10 ^ n\<bar> / 10 ^ n" by (simp add: abs_divide)
  also have "\<dots> \<le> (1/2) / 10 ^ n" by (intro divide_right_mono rne_error) simp
  finally have 2: "\<bar>?r - x\<bar> \<le> 1 / (2 * 10 ^ n)" by simp
  from 1 2 show ?thesis by linarith
qed

lemma py_round_mono: "x \<le> y \<Longrightarrow> py_round n x \<le> py_round n y"
proof -
  assume "x \<le> y"
  then have "rne (x * 10 ^ n) \<le> rne (y * 10 ^ n)" by (intro rne_mono mult_right_mono) auto
  then show ?thesis unfolding py_round_def by (intro fl_mono divide_right_mono) auto
qed

lemma py_round_0 [simp]: "py_round n 0 = 0"
  by (simp add: py_round_def rne_def)

lemma py_round_1 [simp]: "py_round n 1 = 1"
  using rne_of_int[of "10 ^ n"] by (simp add: py_round_def)

lemma py_round_unit:
  "0 \<le> x \<Longrightarrow> 0 \<le> py_round n x"
  "x \<le> 1 \<Longrightarrow> py_round n x \<le> 1"
  using py_round_mono[of 0 x n] py_round_mono[of x 1 n] by simp_all

section \<open>Clamping to the unit interval\<close>

text \<open>\<^verbatim>\<open>max(0.0, min(1.0, x))\<close>\<close>

definition clamp01 :: "rat \<Rightarrow> rat" where
  "clamp01 x = max 0 (min 1 x)"

lemma clamp01_unit [simp]: "0 \<le> clamp01 x" "clamp01 x \<le> 1"
  by (simp_all add: clamp01_def)

lemma clamp01_id: "0 \<le> x \<Longrightarrow> x \<le> 1 \<Longrightarrow> clamp01 x = x"
  by (simp add: clamp01_def)

lemma clamp01_mono: "x \<le> y \<Longrightarrow> clamp01 x \<le> clamp01 y"
  by (auto simp: clamp01_def)

section \<open>Fixed-point formatting\<close>

text \<open>\<^verbatim>\<open>f"{x:.nf}"\<close> of a non-negative float: \<open>n\<close> digits after the point, correctly rounded.\<close>

definition fmt_fixed :: "nat \<Rightarrow> rat \<Rightarrow> string" where
  "fmt_fixed n x = (let v = rne (x * 10 ^ n); f = digits_of (v mod 10 ^ n) in
     digits_of (v div 10 ^ n) @ ''.'' @ replicate (n - length f) CHR ''0'' @ f)"

end
