(* ===== verification/PyValue.thy ===== *)
theory PyValue
  imports Binary64 "HOL-Library.List_Lexorder" "HOL-Library.Char_ord"
begin

text \<open>
  The dynamically typed values that flow through actions and policy rules: what JSON and
  YAML documents decode to (\<^verbatim>\<open>dict[str, Any]\<close>). \<open>VList\<close> stands for lists and
  tuples alike. The operations of Python and of its \<^verbatim>\<open>json\<close> module that the policy
  engine applies to them are defined here: \<open>==\<close>, \<open>str\<close>, \<open>float\<close>,
  \<open>json.dumps(..., sort_keys=True)\<close>.
\<close>

section \<open>Floats with their special values\<close>

datatype pyfloat = Fin rat | NegZero | PInf | NInf | NaN

datatype pyval =
    VNone
  | VBool bool
  | VInt int
  | VFloat pyfloat
  | VStr string
  | VList "pyval list"
  | VDict "(string \<times> pyval) list"

fun unsigned_zero :: "pyfloat \<Rightarrow> pyfloat" where
  "unsigned_zero NegZero = Fin 0"
| "unsigned_zero f = f"

definition float_eq :: "pyfloat \<Rightarrow> pyfloat \<Rightarrow> bool" where
  "float_eq a b \<longleftrightarrow> a \<noteq> NaN \<and> unsigned_zero a = unsigned_zero b"

fun float_lt :: "pyfloat \<Rightarrow> pyfloat \<Rightarrow> bool" where
  "float_lt NaN b = False"
| "float_lt a NaN = False"
| "float_lt PInf b = False"
| "float_lt NInf b = (b \<noteq> NInf)"
| "float_lt a PInf = True"
| "float_lt a NInf = False"
| "float_lt NegZero NegZero = False"
| "float_lt NegZero (Fin y) = (0 < y)"
| "float_lt (Fin x) NegZero = (x < 0)"
| "float_lt (Fin x) (Fin y) = (x < y)"

text \<open>Numbers compare by value across \<open>bool\<close>, \<open>int\<close> and \<open>float\<close>, exactly.\<close>

fun num_of :: "pyval \<Rightarrow> pyfloat option" where
  "num_of (VBool b) = Some (Fin (of_bool b))"
| "num_of (VInt i) = Some (Fin (of_int i))"
| "num_of (VFloat f) = Some f"
| "num_of _ = None"

definition num_eq :: "pyval \<Rightarrow> pyval \<Rightarrow> bool" where
  "num_eq x y = (case (num_of x, num_of y) of (Some a, Some b) \<Rightarrow> float_eq a b | _ \<Rightarrow> False)"

section \<open>Equality\<close>

text \<open>\<^verbatim>\<open>a == b\<close>; dictionaries are equal when every key of the one has an equal value in the other.\<close>

fun py_eq :: "pyval \<Rightarrow> pyval \<Rightarrow> bool"
  and py_eq_list :: "pyval list \<Rightarrow> pyval list \<Rightarrow> bool"
  and py_eq_items :: "(string \<times> pyval) list \<Rightarrow> (string \<times> pyval) list \<Rightarrow> bool"
where
  "py_eq VNone VNone = True"
| "py_eq (VStr a) (VStr b) = (a = b)"
| "py_eq (VList xs) (VList ys) = py_eq_list xs ys"
| "py_eq (VDict d) (VDict e) = (length d = length e \<and> py_eq_items d e)"
| "py_eq x y = num_eq x y"
| "py_eq_list [] [] = True"
| "py_eq_list (x # xs) (y # ys) = (py_eq x y \<and> py_eq_list xs ys)"
| "py_eq_list _ _ = False"
| "py_eq_items [] e = True"
| "py_eq_items ((k, v) # d) e =
     ((case map_of e k of None \<Rightarrow> False | Some w \<Rightarrow> py_eq v w) \<and> py_eq_items d e)"

lemma py_eq_VStr_right [simp]: "py_eq v (VStr s) \<longleftrightarrow> v = VStr s"
  by (cases v) (auto simp: num_eq_def split: option.splits)

lemma py_eq_VStr_left [simp]: "py_eq (VStr s) v \<longleftrightarrow> v = VStr s"
  by (cases v) (auto simp: num_eq_def split: option.splits)

text \<open>
  Values without NaN and with distinct keys in every dictionary, which every decoded
  document has, are equal to themselves.
\<close>

fun plain :: "pyval \<Rightarrow> bool" where
  "plain (VFloat f) = (f \<noteq> NaN)"
| "plain (VList xs) = (\<forall>x \<in> set xs. plain x)"
| "plain (VDict d) = (distinct (map fst d) \<and> (\<forall>p \<in> set d. plain (snd p)))"
| "plain _ = True"

lemma py_eq_items_self:
  "set d \<subseteq> set e \<Longrightarrow> distinct (map fst e) \<Longrightarrow> \<forall>p \<in> set d. py_eq (snd p) (snd p) \<Longrightarrow> py_eq_items d e"
  by (induction d) (auto simp: map_of_is_SomeI)

lemma py_eq_list_self: "\<forall>x \<in> set xs. py_eq x x \<Longrightarrow> py_eq_list xs xs"
  by (induction xs) auto

lemma py_eq_refl: "plain v \<Longrightarrow> py_eq v v"
proof (induction v rule: plain.induct)
  case (2 xs)
  then show ?case by (simp add: py_eq_list_self)
next
  case (3 d)
  then show ?case by (simp add: py_eq_items_self)
qed (auto simp: num_eq_def float_eq_def)

text \<open>\<^verbatim>\<open>v in xs\<close> for a list\<close>

definition in_list :: "pyval \<Rightarrow> pyval list \<Rightarrow> bool" where
  "in_list v xs = list_ex (py_eq v) xs"

text \<open>Truth of a value, and the type named by the messages of Python.\<close>

fun py_truth :: "pyval \<Rightarrow> bool" where
  "py_truth VNone = False"
| "py_truth (VBool b) = b"
| "py_truth (VInt i) = (i \<noteq> 0)"
| "py_truth (VFloat f) = (f \<noteq> Fin 0 \<and> f \<noteq> NegZero)"
| "py_truth (VStr s) = (s \<noteq> [])"
| "py_truth (VList xs) = (xs \<noteq> [])"
| "py_truth (VDict d) = (d \<noteq> [])"

fun py_type_name :: "pyval \<Rightarrow> string" where
  "py_type_name VNone = ''NoneType''"
| "py_type_name (VBool _) = ''bool''"
| "py_type_name (VInt _) = ''int''"
| "py_type_name (VFloat _) = ''float''"
| "py_type_name (VStr _) = ''str''"
| "py_type_name (VList _) = ''list''"
| "py_type_name (VDict _) = ''dict''"

text \<open>A value that may be a member of a \<^verbatim>\<open>set\<close>\<close>

fun hashable :: "pyval \<Rightarrow> bool" where
  "hashable (VList _) = False"
| "hashable (VDict _) = False"
| "hashable _ = True"

section \<open>Writing numbers and strings\<close>

text \<open>
  \<^verbatim>\<open>repr\<close> of a positive float: the fewest significant digits that read back as the
  same double, the closest such decimal.
\<close>

definition expo10 :: "rat \<Rightarrow> int" where
  "expo10 x = (if 1 \<le> x then int (length (digits_of \<lfloor>x\<rfloor>)) - 1
     else - int (length (digits_of (\<lceil>1 / x\<rceil> - 1))))"

definition shortest_at :: "rat \<Rightarrow> int \<Rightarrow> nat \<Rightarrow> (int \<times> int) option" where
  "shortest_at x e n = (let k = e - int n + 1; s = x / 10 powi k; c = \<lfloor>s\<rfloor>;
     ok = (\<lambda>m. fl (of_int m * 10 powi k) = x)
   in if ok c \<and> (\<not> ok (c + 1) \<or> s - of_int c \<le> of_int (c + 1) - s) then Some (c, k)
      else if ok (c + 1) then Some (c + 1, k) else None)"

fun first_some :: "('a \<Rightarrow> 'b option) \<Rightarrow> 'a list \<Rightarrow> 'b option" where
  "first_some f [] = None"
| "first_some f (x # xs) = (case f x of None \<Rightarrow> first_some f xs | Some y \<Rightarrow> Some y)"

definition strip_zeros :: "string \<Rightarrow> string" where
  "strip_zeros s = rev (dropWhile (\<lambda>c. c = CHR ''0'') (rev s))"

definition pad2 :: "string \<Rightarrow> string" where
  "pad2 s = (if length s < 2 then CHR ''0'' # s else s)"

text \<open>The digits \<open>d\<close> with the point after \<open>pt\<close> of them, in the notations \<^verbatim>\<open>repr\<close> chooses from\<close>

definition point_at :: "string \<Rightarrow> int \<Rightarrow> string" where
  "point_at d pt = (let n = int (length d) in
     if - 4 < pt \<and> pt \<le> 16 then
       (if pt \<le> 0 then ''0.'' @ replicate (nat (- pt)) CHR ''0'' @ d
        else if n \<le> pt then d @ replicate (nat (pt - n)) CHR ''0'' @ ''.0''
        else take (nat pt) d @ ''.'' @ drop (nat pt) d)
     else take 1 d @ (if n = 1 then [] else CHR ''.'' # drop 1 d) @ ''e'' @
       (if pt - 1 < 0 then ''-'' else ''+'') @ pad2 (digits_of \<bar>pt - 1\<bar>))"

definition float_repr_pos :: "rat \<Rightarrow> string" where
  "float_repr_pos x = (case first_some (shortest_at x (expo10 x)) [1..<18] of
     None \<Rightarrow> []
   | Some (c, k) \<Rightarrow> point_at (strip_zeros (digits_of c)) (int (length (digits_of c)) + k))"

fun float_repr :: "pyfloat \<Rightarrow> string" where
  "float_repr (Fin x) = (if x = 0 then ''0.0'' else if x < 0 then CHR ''-'' # float_repr_pos (- x)
     else float_repr_pos x)"
| "float_repr NegZero = ''-0.0''"
| "float_repr PInf = ''inf''"
| "float_repr NInf = ''-inf''"
| "float_repr NaN = ''nan''"

definition hex_digit :: "nat \<Rightarrow> char" where
  "hex_digit n = (if n < 10 then char_of (48 + n) else char_of (87 + n))"

definition hex2 :: "char \<Rightarrow> string" where
  "hex2 c = (let n = (of_char c :: nat) in [hex_digit (n div 16), hex_digit (n mod 16)])"

text \<open>\<^verbatim>\<open>json.dumps\<close> of a string with \<^verbatim>\<open>ensure_ascii\<close>.\<close>

definition json_char :: "char \<Rightarrow> string" where
  "json_char c = (let n = (of_char c :: nat) in
     if n = 34 \<or> n = 92 then [char_of (92::nat), c]
     else if n = 10 then [char_of (92::nat), CHR ''n'']
     else if n = 13 then [char_of (92::nat), CHR ''r'']
     else if n = 9 then [char_of (92::nat), CHR ''t'']
     else if n = 12 then [char_of (92::nat), CHR ''f'']
     else if n = 8 then [char_of (92::nat), CHR ''b'']
     else if 32 \<le> n \<and> n \<le> 126 then [c]
     else char_of (92::nat) # ''u00'' @ hex2 c)"

definition json_str :: "string \<Rightarrow> string" where
  "json_str s = CHR 0x22 # concat (map json_char s) @ [CHR 0x22]"

fun json_float :: "pyfloat \<Rightarrow> string" where
  "json_float PInf = ''Infinity''"
| "json_float NInf = ''-Infinity''"
| "json_float NaN = ''NaN''"
| "json_float f = float_repr f"

section \<open>json.dumps with sorted keys\<close>

fun dumps :: "pyval \<Rightarrow> string" where
  "dumps VNone = ''null''"
| "dumps (VBool b) = (if b then ''true'' else ''false'')"
| "dumps (VInt i) = str_int i"
| "dumps (VFloat f) = json_float f"
| "dumps (VStr s) = json_str s"
| "dumps (VList xs) = ''['' @ join '', '' (map dumps xs) @ '']''"
| "dumps (VDict d) = ''{'' @ join '', '' (map (\<lambda>(k, t). json_str k @ '': '' @ t)
     (sort_key fst (map (\<lambda>(k, v). (k, dumps v)) d))) @ ''}''"

section \<open>str and repr\<close>

definition repr_char :: "char \<Rightarrow> char \<Rightarrow> string" where
  "repr_char q c = (let n = (of_char c :: nat) in
     if c = q \<or> n = 92 then [char_of (92::nat), c]
     else if n = 10 then [char_of (92::nat), CHR ''n'']
     else if n = 13 then [char_of (92::nat), CHR ''r'']
     else if n = 9 then [char_of (92::nat), CHR ''t'']
     else if n < 32 \<or> 127 \<le> n \<and> n \<le> 160 \<or> n = 173 then char_of (92::nat) # CHR ''x'' # hex2 c
     else [c])"

definition repr_str :: "string \<Rightarrow> string" where
  "repr_str s = (let q = (if CHR 0x27 \<in> set s \<and> CHR 0x22 \<notin> set s then CHR 0x22 else CHR 0x27) in
     q # concat (map (repr_char q) s) @ [q])"

fun repr :: "pyval \<Rightarrow> string" where
  "repr VNone = ''None''"
| "repr (VBool b) = (if b then ''True'' else ''False'')"
| "repr (VInt i) = str_int i"
| "repr (VFloat f) = float_repr f"
| "repr (VStr s) = repr_str s"
| "repr (VList xs) = ''['' @ join '', '' (map repr xs) @ '']''"
| "repr (VDict d) = ''{'' @ join '', '' (map (\<lambda>(k, v). repr_str k @ '': '' @ repr v) d) @ ''}''"

fun py_str :: "pyval \<Rightarrow> string" where
  "py_str (VStr s) = s"
| "py_str v = repr v"

section \<open>float\<close>

definition is_digit :: "char \<Rightarrow> bool" where
  "is_digit c = (let n = (of_char c :: nat) in 48 \<le> n \<and> n \<le> 57)"

definition digits_val :: "string \<Rightarrow> int" where
  "digits_val s = foldl (\<lambda>a c. 10 * a + (of_char c - 48)) 0 s"

text \<open>An underscore is allowed between two digits only.\<close>

fun drop_underscores :: "bool \<Rightarrow> string \<Rightarrow> string option" where
  "drop_underscores prev [] = Some []"
| "drop_underscores prev (c # cs) =
     (if c = CHR ''_'' then
        (if prev \<and> cs \<noteq> [] \<and> is_digit (hd cs) then drop_underscores False cs else None)
      else map_option ((#) c) (drop_underscores (is_digit c) cs))"

definition sign_split :: "string \<Rightarrow> bool \<times> string" where
  "sign_split s = (case s of c # cs \<Rightarrow>
       if c = CHR ''-'' then (True, cs) else if c = CHR ''+'' then (False, cs) else (False, s)
     | [] \<Rightarrow> (False, s))"

text \<open>The magnitude \<open>m * 10 ^ e\<close> of a decimal literal without sign.\<close>

definition parse_exponent :: "string \<Rightarrow> int option" where
  "parse_exponent s = (case s of [] \<Rightarrow> Some 0
     | c # cs \<Rightarrow>
         (if c = CHR ''e'' \<or> c = CHR ''E'' then
            (let (neg, ds) = sign_split cs in
             if ds = [] \<or> \<not> list_all is_digit ds then None
             else Some (if neg then - digits_val ds else digits_val ds))
          else None))"

definition parse_decimal :: "string \<Rightarrow> (int \<times> int) option" where
  "parse_decimal s = (let ip = takeWhile is_digit s; r = dropWhile is_digit s;
     (fp, r') = (case r of c # cs \<Rightarrow>
        if c = CHR ''.'' then (takeWhile is_digit cs, dropWhile is_digit cs) else ([], r)
      | [] \<Rightarrow> ([], r))
   in if ip @ fp = [] then None
      else (case parse_exponent r' of None \<Rightarrow> None
            | Some e \<Rightarrow> Some (digits_val (ip @ fp), e - int (length fp))))"

text \<open>The least magnitude that rounds to infinity.\<close>

definition overflow_bound :: rat where
  "overflow_bound = 2 ^ 1024 - 2 ^ 970"

definition float_of_mag :: "bool \<Rightarrow> rat \<Rightarrow> pyfloat" where
  "float_of_mag neg x =
     (if overflow_bound \<le> x then (if neg then NInf else PInf)
      else if fl x = 0 then (if neg then NegZero else Fin 0)
      else Fin (if neg then - fl x else fl x))"

definition float_of_str :: "string \<Rightarrow> pyfloat option" where
  "float_of_str s = (case drop_underscores False (strip s) of None \<Rightarrow> None
     | Some t \<Rightarrow>
         (let (neg, u) = sign_split t in
          if lower u = ''inf'' \<or> lower u = ''infinity'' then Some (if neg then NInf else PInf)
          else if lower u = ''nan'' then Some NaN
          else map_option (\<lambda>(m, e). float_of_mag neg (of_int m * 10 powi e)) (parse_decimal u)))"

text \<open>\<^verbatim>\<open>float(v)\<close>\<close>

fun py_float :: "pyval \<Rightarrow> pyfloat result" where
  "py_float (VBool b) = Inr (Fin (of_bool b))"
| "py_float (VInt i) =
     (if overflow_bound \<le> \<bar>of_int i\<bar> then Inl (Exn OverflowError ''int too large to convert to float'')
      else Inr (Fin (fl (of_int i))))"
| "py_float (VFloat f) = Inr f"
| "py_float (VStr s) = (case float_of_str s of
     None \<Rightarrow> Inl (Exn ValueError (''could not convert string to float: '' @ repr_str s))
   | Some f \<Rightarrow> Inr f)"
| "py_float _ = Inl (Exn TypeError ''float() argument must be a string or a real number'')"

end
