(* ===== verification/Models.thy ===== *)
theory Models
  imports PyValue
begin

text \<open>
  The data of src/src/sentinel/models: actions, decisions, identities and policies. A
  pydantic model is a record; a constructor whose fields carry constraints
  (\<^verbatim>\<open>ge\<close>, \<^verbatim>\<open>le\<close>, \<^verbatim>\<open>min_length\<close>) returns the validation error when a
  constraint fails. A UUID is its 128-bit number, a \<^verbatim>\<open>datetime\<close> the microseconds since
  the epoch, a float field the rational it denotes (theory Binary64).
\<close>

type_synonym uuid = nat
type_synonym datetime = int

text \<open>\<^verbatim>\<open>UUID.hex\<close>: the 32 hexadecimal digits.\<close>

definition uuid_hex :: "uuid \<Rightarrow> string" where
  "uuid_hex u = map (\<lambda>i. hex_digit (u div 16 ^ i mod 16)) (rev [0..<32])"

section \<open>Actions (models/action.py)\<close>

datatype action_type =
    TOOL_CALL | FILE_WRITE | FILE_READ | HTTP_REQUEST | CODE_EXECUTION | SHELL_COMMAND
  | AGENT_MESSAGE | MEMORY_WRITE | MEMORY_READ | LLM_PROMPT | PAYMENT | NOTIFICATION
  | DATABASE_QUERY | AGENT_HANDOFF | OTHER

fun action_type_value :: "action_type \<Rightarrow> string" where
  "action_type_value TOOL_CALL = ''tool_call''"
| "action_type_value FILE_WRITE = ''file_write''"
| "action_type_value FILE_READ = ''file_read''"
| "action_type_value HTTP_REQUEST = ''http_request''"
| "action_type_value CODE_EXECUTION = ''code_execution''"
| "action_type_value SHELL_COMMAND = ''shell_command''"
| "action_type_value AGENT_MESSAGE = ''agent_message''"
| "action_type_value MEMORY_WRITE = ''memory_write''"
| "action_type_value MEMORY_READ = ''memory_read''"
| "action_type_value LLM_PROMPT = ''llm_prompt''"
| "action_type_value PAYMENT = ''payment''"
| "action_type_value NOTIFICATION = ''notification''"
| "action_type_value DATABASE_QUERY = ''database_query''"
| "action_type_value AGENT_HANDOFF = ''agent_handoff''"
| "action_type_value OTHER = ''other''"

lemma action_type_value_inj: "action_type_value t = action_type_value u \<longleftrightarrow> t = u"
  by (cases t; cases u) simp_all

record action_context =
  session_id :: uuid
  parent_action_id :: "uuid option"
  correlation_id :: "string option"
  ctx_tenant_id :: string
  environment :: string
  invoked_by :: "string option"
  plan_id :: "uuid option"
  step_index :: "int option"
  ctx_tags :: "(string, string) pydict"

record action =
  act_id :: uuid
  act_type :: action_type
  agent_did :: string
  act_tenant_id :: string
  act_tool :: "string option"
  arguments :: "(string, pyval) pydict"
  payload_digest :: "string option"
  intent :: "string option"
  act_context :: action_context
  act_created_at :: datetime

text \<open>The constraint of the \<^verbatim>\<open>agent_did\<close> field.\<close>

definition validate_action :: "action \<Rightarrow> action result" where
  "validate_action a = (if 8 \<le> length (agent_did a) then Inr a
     else Inl (Exn ValidationError ''agent_did: String should have at least 8 characters''))"

text \<open>\<^verbatim>\<open>x or ""\<close> for an optional string, and the truth of one.\<close>

definition or_empty :: "string option \<Rightarrow> string" where
  "or_empty x = (case x of None \<Rightarrow> [] | Some s \<Rightarrow> s)"

definition truthy :: "string option \<Rightarrow> bool" where
  "truthy x \<longleftrightarrow> or_empty x \<noteq> []"

lemma or_empty_simps [simp]: "or_empty None = []" "or_empty (Some s) = s"
  by (simp_all add: or_empty_def)

lemma truthy_simps [simp]: "\<not> truthy None" "truthy (Some s) \<longleftrightarrow> s \<noteq> []"
  by (simp_all add: truthy_def)

section \<open>Decisions (models/decision.py)\<close>

datatype verdict = ALLOW | DENY | ESCALATE | THROTTLE

fun verdict_value :: "verdict \<Rightarrow> string" where
  "verdict_value ALLOW = ''allow''"
| "verdict_value DENY = ''deny''"
| "verdict_value ESCALATE = ''escalate''"
| "verdict_value THROTTLE = ''throttle''"

text \<open>Verdicts ordered by how much they restrict the action.\<close>

fun strictness :: "verdict \<Rightarrow> nat" where
  "strictness ALLOW = 0"
| "strictness THROTTLE = 1"
| "strictness ESCALATE = 2"
| "strictness DENY = 3"

lemma strictness_inj [simp]: "strictness v = strictness w \<longleftrightarrow> v = w"
  by (cases v; cases w) simp_all

instantiation verdict :: linorder
begin

definition less_eq_verdict :: "verdict \<Rightarrow> verdict \<Rightarrow> bool" where
  "less_eq_verdict v w \<longleftrightarrow> strictness v \<le> strictness w"

definition less_verdict :: "verdict \<Rightarrow> verdict \<Rightarrow> bool" where
  "less_verdict v w \<longleftrightarrow> strictness v < strictness w"

instance
  by standard (auto simp: less_eq_verdict_def less_verdict_def)

end

lemma ALLOW_least [simp]: "ALLOW \<le> v" and DENY_greatest [simp]: "v \<le> DENY"
  by (cases v; simp add: less_eq_verdict_def)+

record risk_factor =
  rf_code :: string
  severity :: rat
  detector :: string
  rf_message :: string
  evidence :: "(string, string) pydict"

definition mk_risk_factor ::
  "string \<Rightarrow> rat \<Rightarrow> string \<Rightarrow> string \<Rightarrow> (string, string) pydict \<Rightarrow> risk_factor result" where
  "mk_risk_factor c s d m e =
     (if 0 \<le> s \<and> s \<le> 1
      then Inr \<lparr>rf_code = c, severity = s, detector = d, rf_message = m, evidence = e\<rparr>
      else Inl (Exn ValidationError ''severity: Input should be between 0 and 1''))"

text \<open>Every risk factor that exists was built by the constructor.\<close>

definition risk_ok :: "risk_factor \<Rightarrow> bool" where
  "risk_ok f \<longleftrightarrow> 0 \<le> severity f \<and> severity f \<le> 1 \<and> is_double (severity f)"

abbreviation risks_ok :: "risk_factor list \<Rightarrow> bool" where
  "risks_ok fs \<equiv> (\<forall>f \<in> set fs. risk_ok f)"

lemma mk_risk_factor_Inr_iff:
  "mk_risk_factor c s d m e = Inr f \<longleftrightarrow>
     0 \<le> s \<and> s \<le> 1 \<and> f = \<lparr>rf_code = c, severity = s, detector = d, rf_message = m, evidence = e\<rparr>"
  by (auto simp: mk_risk_factor_def)

record explanation =
  summary :: string
  triggered_rule_ids :: "string list"
  risk_factors :: "risk_factor list"
  risk_score :: rat
  recommended_remediation :: "string option"
  references :: "string list"

definition mk_explanation ::
  "string \<Rightarrow> string list \<Rightarrow> risk_factor list \<Rightarrow> rat \<Rightarrow> string option \<Rightarrow> string list \<Rightarrow> explanation result" where
  "mk_explanation s ids fs sc rem refs =
     (if 0 \<le> sc \<and> sc \<le> 1
      then Inr \<lparr>summary = s, triggered_rule_ids = ids, risk_factors = fs, risk_score = sc,
                recommended_remediation = rem, references = refs\<rparr>
      else Inl (Exn ValidationError ''risk_score: Input should be between 0 and 1''))"

record decision =
  dec_id :: uuid
  action_id :: uuid
  verdict :: verdict
  decided_at :: datetime
  decided_by :: string
  explanation :: explanation
  latency_ms :: "rat option"
  cache_hit :: bool
  degraded :: bool

definition allowed :: "decision \<Rightarrow> bool" where
  "allowed d \<longleftrightarrow> verdict d = ALLOW"

text \<open>
  \<^verbatim>\<open>Decision.deny\<close>: the fail-closed constructor. \<open>new_id\<close> and \<open>other_id\<close> are the values
  \<^verbatim>\<open>uuid4()\<close> returns for the decision and for a missing action id.
\<close>

definition decision_deny ::
  "uuid \<Rightarrow> datetime \<Rightarrow> uuid \<Rightarrow> string \<Rightarrow> uuid option \<Rightarrow> bool \<Rightarrow> decision" where
  "decision_deny new_id now other_id reason aid degr =
     \<lparr>dec_id = new_id, action_id = (case aid of None \<Rightarrow> other_id | Some i \<Rightarrow> i), verdict = DENY,
      decided_at = now, decided_by = ''sentinel.fail_closed'',
      explanation = \<lparr>summary = reason, triggered_rule_ids = [], risk_factors = [], risk_score = 1,
        recommended_remediation = None, references = []\<rparr>,
      latency_ms = None, cache_hit = False, degraded = degr\<rparr>"

section \<open>Identities (models/identity.py)\<close>

datatype trust_tier = OBSERVE | CONSTRAINED | STANDARD | ELEVATED | PRIVILEGED

fun tier_value :: "trust_tier \<Rightarrow> string" where
  "tier_value OBSERVE = ''observe''"
| "tier_value CONSTRAINED = ''constrained''"
| "tier_value STANDARD = ''standard''"
| "tier_value ELEVATED = ''elevated''"
| "tier_value PRIVILEGED = ''privileged''"

text \<open>Higher tiers permit broader action classes.\<close>

fun tier_rank :: "trust_tier \<Rightarrow> nat" where
  "tier_rank OBSERVE = 0"
| "tier_rank CONSTRAINED = 1"
| "tier_rank STANDARD = 2"
| "tier_rank ELEVATED = 3"
| "tier_rank PRIVILEGED = 4"

lemma tier_rank_inj [simp]: "tier_rank t = tier_rank u \<longleftrightarrow> t = u"
  by (cases t; cases u) simp_all

instantiation trust_tier :: linorder
begin

definition less_eq_trust_tier :: "trust_tier \<Rightarrow> trust_tier \<Rightarrow> bool" where
  "less_eq_trust_tier t u \<longleftrightarrow> tier_rank t \<le> tier_rank u"

definition less_trust_tier :: "trust_tier \<Rightarrow> trust_tier \<Rightarrow> bool" where
  "less_trust_tier t u \<longleftrightarrow> tier_rank t < tier_rank u"

instance
  by standard (auto simp: less_eq_trust_tier_def less_trust_tier_def)

end

record capability =
  cap_name :: string
  cap_scope :: string
  expires_at :: "datetime option"

record identity =
  did :: string
  display_name :: string
  id_tenant_id :: string
  public_key_jwk :: "(string, string) pydict"
  public_key_b64 :: "string option"
  capabilities :: "capability list"
  tier :: trust_tier
  trust_score :: rat
  parent_did :: "string option"
  id_created_at :: datetime
  id_updated_at :: datetime
  revoked :: bool
  metadata :: "(string, string) pydict"

text \<open>\<^verbatim>\<open>Identity.has_capability\<close>: the loop with its two \<open>continue\<close>s and its early return.\<close>

fun capability_loop :: "datetime \<Rightarrow> string \<Rightarrow> string option \<Rightarrow> capability list \<Rightarrow> bool" where
  "capability_loop now name scope [] = False"
| "capability_loop now name scope (cap # caps) =
     (if cap_name cap \<noteq> name then capability_loop now name scope caps
      else if (case expires_at cap of None \<Rightarrow> False | Some t \<Rightarrow> t < now)
        then capability_loop now name scope caps
      else if (case scope of None \<Rightarrow> True | Some sc \<Rightarrow> cap_scope cap = ''*'' \<or> cap_scope cap = sc)
        then True
      else capability_loop now name scope caps)"

definition has_capability :: "datetime \<Rightarrow> identity \<Rightarrow> string \<Rightarrow> string option \<Rightarrow> bool" where
  "has_capability now i name scope = capability_loop now name scope (capabilities i)"

definition identity_ok :: "identity \<Rightarrow> bool" where
  "identity_ok i \<longleftrightarrow> 8 \<le> length (did i) \<and> 0 \<le> trust_score i \<and> trust_score i \<le> 1 \<and> is_double (trust_score i)"

section \<open>Policies (models/policy.py)\<close>

datatype rule_effect = E_ALLOW | E_DENY | E_ESCALATE | E_THROTTLE

record policy_rule =
  rule_id :: string
  description :: string
  effect :: rule_effect
  priority :: int
  enabled :: bool
  rule_match :: "(string, pyval) pydict"
  rule_tags :: "string list"
  rationale :: "string option"
  owasp_ids :: "string list"

record policy_bundle =
  version :: string
  issued_at :: datetime
  issuer :: string
  bundle_id :: string
  rules :: "policy_rule list"
  signature :: "string option"
  bundle_tenant_id :: "string option"

text \<open>\<^verbatim>\<open>by_priority\<close>: the enabled rules, stably sorted.\<close>

definition by_priority :: "policy_bundle \<Rightarrow> policy_rule list" where
  "by_priority b = sort_key priority (filter enabled (rules b))"

section \<open>Facts about the models\<close>

lemma capability_loop_iff:
  "capability_loop now name scope caps \<longleftrightarrow>
     (\<exists>cap \<in> set caps. cap_name cap = name
        \<and> (\<forall>t. expires_at cap = Some t \<longrightarrow> now \<le> t)
        \<and> (\<forall>sc. scope = Some sc \<longrightarrow> cap_scope cap = ''*'' \<or> cap_scope cap = sc))"
  by (induction caps) (auto split: option.splits)

lemma set_by_priority [simp]: "set (by_priority b) = {r \<in> set (rules b). enabled r}"
  by (simp add: by_priority_def)

lemma sorted_by_priority: "sorted (map priority (by_priority b))"
  by (simp add: by_priority_def)

lemma by_priority_stable:
  "filter (\<lambda>r. priority r = p) (by_priority b) = filter (\<lambda>r. enabled r \<and> priority r = p) (rules b)"
  by (simp add: by_priority_def sort_key_stable filter_filter conj_commute)

section \<open>Concrete instances\<close>

text \<open>An ordinary action and an ordinary identity, at which the witnesses apply the properties.\<close>

definition example_context :: action_context where
  "example_context = \<lparr>session_id = 1, parent_action_id = None, correlation_id = None,
     ctx_tenant_id = ''default'', environment = ''production'', invoked_by = None, plan_id = None,
     step_index = None, ctx_tags = []\<rparr>"

definition example_action :: "action_type \<Rightarrow> string option \<Rightarrow> (string, pyval) pydict \<Rightarrow> action" where
  "example_action t tool args = \<lparr>act_id = 7, act_type = t, agent_did = ''did:test:t'',
     act_tenant_id = ''default'', act_tool = tool, arguments = args, payload_digest = None,
     intent = Some ''run the report'', act_context = example_context, act_created_at = 0\<rparr>"

definition agent_identity :: "string \<Rightarrow> trust_tier \<Rightarrow> rat \<Rightarrow> bool \<Rightarrow> identity" where
  "agent_identity d t s r = \<lparr>did = d, display_name = ''agent'', id_tenant_id = ''default'',
     public_key_jwk = [], public_key_b64 = None, capabilities = [], tier = t, trust_score = s,
     parent_did = None, id_created_at = 0, id_updated_at = 0, revoked = r, metadata = []\<rparr>"

end
