(* ===== verification/PolicyEngine.thy ===== *)
theory PolicyEngine
  imports Models
begin

text \<open>
  src/src/sentinel/core/policy_engine.py. \<open>matches\<close> is \<^verbatim>\<open>_matches\<close>: the checks of the match
  language in the order of the code, each a boolean or the exception it raises, stopped at
  the first that is false or raises. \<open>policy_evaluate\<close> runs it over the rules by priority.
  \<open>sat_key\<close> is the specification: what one key of a match demands. \<open>matches_conjunction\<close>
  says that \<open>matches\<close> is the conjunction over all keys.
\<close>

record policy_match =
  pm_rule :: policy_rule
  pm_effect :: rule_effect

section \<open>Checks that may raise\<close>

fun all_checks :: "bool result list \<Rightarrow> bool result" where
  "all_checks [] = Inr True"
| "all_checks (c # cs) = (case c of Inl e \<Rightarrow> Inl e | Inr b \<Rightarrow> if b then all_checks cs else Inr False)"

lemma all_checks_Inr: "all_checks (map Inr bs) = Inr (list_all id bs)"
  by (induction bs) auto

text \<open>\<^verbatim>\<open>(val := m.get(key)) is not None\<close>\<close>

definition on_key :: "(string, pyval) pydict \<Rightarrow> string \<Rightarrow> (pyval \<Rightarrow> bool result) \<Rightarrow> bool result" where
  "on_key m k f = (case map_of m k of None \<Rightarrow> Inr True | Some v \<Rightarrow> if v = VNone then Inr True else f v)"

fun ensure_list :: "pyval \<Rightarrow> pyval list" where
  "ensure_list (VList xs) = xs"
| "ensure_list v = [v]"

text \<open>\<^verbatim>\<open>set(xs)\<close> raises on a member that cannot be hashed.\<close>

definition py_set :: "pyval list \<Rightarrow> pyval list result" where
  "py_set xs = (if list_all hashable xs then Inr xs else Inl (Exn TypeError ''unhashable type''))"

definition tool_value :: "action \<Rightarrow> pyval" where
  "tool_value a = (case act_tool a of None \<Rightarrow> VNone | Some t \<Rightarrow> VStr t)"

definition present_code :: "risk_factor list \<Rightarrow> pyval \<Rightarrow> bool" where
  "present_code fs v = list_ex (\<lambda>f. v = VStr (rf_code f)) fs"

text \<open>\<^verbatim>\<open>max((f.severity for f in risk_factors), default=0.0)\<close>\<close>

fun top_severity :: "risk_factor list \<Rightarrow> rat" where
  "top_severity [] = 0"
| "top_severity (f # fs) = foldl max (severity f) (map severity fs)"

fun deep_eq :: "pyval \<Rightarrow> string list \<Rightarrow> pyval \<Rightarrow> bool" where
  "deep_eq cur [] expected = py_eq cur expected"
| "deep_eq (VDict d) (part # path) expected =
     (case map_of d part of None \<Rightarrow> False | Some v \<Rightarrow> deep_eq v path expected)"
| "deep_eq cur (part # path) expected = False"

text \<open>\<^verbatim>\<open>any(needle in haystack for needle in needles)\<close>: only a string can be looked for.\<close>

fun any_needle :: "string \<Rightarrow> pyval list \<Rightarrow> bool result" where
  "any_needle haystack [] = Inr False"
| "any_needle haystack (VStr s # ns) =
     (if contains_str s haystack then Inr True else any_needle haystack ns)"
| "any_needle haystack (_ # ns) =
     Inl (Exn TypeError '''in <string>' requires string as left operand'')"

section \<open>_matches\<close>

definition check_type :: "action \<Rightarrow> pyval \<Rightarrow> bool result" where
  "check_type a val = Inr (py_eq (VStr (action_type_value (act_type a))) val)"

definition check_tool :: "action \<Rightarrow> pyval \<Rightarrow> bool result" where
  "check_tool a val = Inr (case val of VList xs \<Rightarrow> in_list (tool_value a) xs | _ \<Rightarrow> py_eq (tool_value a) val)"

definition check_tier :: "identity option \<Rightarrow> pyval \<Rightarrow> bool result" where
  "check_tier ident val = Inr (case ident of None \<Rightarrow> False | Some i \<Rightarrow> py_eq (VStr (tier_value (tier i))) val)"

definition check_did_prefix :: "action \<Rightarrow> pyval \<Rightarrow> bool result" where
  "check_did_prefix a val = Inr (startswith (agent_did a) (py_str val))"

definition check_code_any :: "risk_factor list \<Rightarrow> pyval \<Rightarrow> bool result" where
  "check_code_any fs val = bindR (py_set (ensure_list val)) (\<lambda>wanted. Inr (list_ex (present_code fs) wanted))"

definition check_code_all :: "risk_factor list \<Rightarrow> pyval \<Rightarrow> bool result" where
  "check_code_all fs val = bindR (py_set (ensure_list val)) (\<lambda>wanted. Inr (list_all (present_code fs) wanted))"

definition check_min_severity :: "risk_factor list \<Rightarrow> pyval \<Rightarrow> bool result" where
  "check_min_severity fs val = (case py_float val of
     Inl e \<Rightarrow> if catches TypeError e \<or> catches ValueError e then Inr False else Inl e
   | Inr threshold \<Rightarrow> Inr (\<not> float_lt (Fin (top_severity fs)) threshold))"

definition args_prefix :: string where
  "args_prefix = ''args.''"

definition check_args :: "action \<Rightarrow> (string, pyval) pydict \<Rightarrow> bool result" where
  "check_args a m = Inr (list_all (\<lambda>(key, expected). startswith key args_prefix \<longrightarrow>
     deep_eq (VDict (arguments a)) (split_on CHR ''.'' (removeprefix key args_prefix)) expected) m)"

definition check_contains :: "action \<Rightarrow> pyval \<Rightarrow> bool result" where
  "check_contains a val = any_needle (dumps (VDict (arguments a))) (ensure_list val)"

definition matches :: "policy_rule \<Rightarrow> action \<Rightarrow> identity option \<Rightarrow> risk_factor list \<Rightarrow> bool result" where
  "matches r a ident fs = (let m = rule_match r in
     if m = [] then Inr True
     else all_checks
       [on_key m ''action.type'' (check_type a),
        on_key m ''action.tool'' (check_tool a),
        on_key m ''identity.tier'' (check_tier ident),
        on_key m ''identity.did_prefix'' (check_did_prefix a),
        on_key m ''risk.factor_code_any'' (check_code_any fs),
        on_key m ''risk.factor_code_all'' (check_code_all fs),
        on_key m ''risk.min_severity'' (check_min_severity fs),
        check_args a m,
        on_key m ''args_contains'' (check_contains a)])"

section \<open>evaluate\<close>

fun collect_matches ::
  "policy_rule list \<Rightarrow> action \<Rightarrow> identity option \<Rightarrow> risk_factor list \<Rightarrow> policy_match list result" where
  "collect_matches [] a ident fs = Inr []"
| "collect_matches (r # rs) a ident fs =
     bindR (matches r a ident fs) (\<lambda>b.
     bindR (collect_matches rs a ident fs) (\<lambda>ms.
       Inr (if b then \<lparr>pm_rule = r, pm_effect = effect r\<rparr> # ms else ms)))"

definition policy_evaluate ::
  "policy_bundle \<Rightarrow> action \<Rightarrow> identity option \<Rightarrow> risk_factor list \<Rightarrow> policy_match list result" where
  "policy_evaluate bundle a ident fs = collect_matches (by_priority bundle) a ident fs"

section \<open>The specification of one key\<close>

definition sat_key :: "action \<Rightarrow> identity option \<Rightarrow> risk_factor list \<Rightarrow> string \<Rightarrow> pyval \<Rightarrow> bool" where
  "sat_key a ident fs k v \<longleftrightarrow>
     (if startswith k args_prefix
        then deep_eq (VDict (arguments a)) (split_on CHR ''.'' (removeprefix k args_prefix)) v
      else if v = VNone then True
      else if k = ''action.type'' then v = VStr (action_type_value (act_type a))
      else if k = ''action.tool'' then
        (case v of VList xs \<Rightarrow> tool_value a \<in> set xs | _ \<Rightarrow> v = tool_value a)
      else if k = ''identity.tier'' then (\<exists>i. ident = Some i \<and> v = VStr (tier_value (tier i)))
      else if k = ''identity.did_prefix'' then startswith (agent_did a) (py_str v)
      else if k = ''risk.factor_code_any'' then (\<exists>f \<in> set fs. VStr (rf_code f) \<in> set (ensure_list v))
      else if k = ''risk.factor_code_all'' then (\<forall>w \<in> set (ensure_list v). \<exists>f \<in> set fs. w = VStr (rf_code f))
      else if k = ''risk.min_severity'' then
        (\<exists>t. py_float v = Inr t \<and> \<not> float_lt (Fin (top_severity fs)) t)
      else if k = ''args_contains'' then
        (\<exists>s. VStr s \<in> set (ensure_list v) \<and> contains_str s (dumps (VDict (arguments a))))
      else True)"

text \<open>A match whose checks cannot raise: what a bundle that types its keys as documented has.\<close>

definition key_typed :: "string \<Rightarrow> pyval \<Rightarrow> bool" where
  "key_typed k v \<longleftrightarrow>
     ((k = ''risk.factor_code_any'' \<or> k = ''risk.factor_code_all'') \<and> v \<noteq> VNone
        \<longrightarrow> list_all hashable (ensure_list v)) \<and>
     (k = ''risk.min_severity'' \<longrightarrow> (\<forall>i. v = VInt i \<longrightarrow> \<bar>of_int i\<bar> < overflow_bound)) \<and>
     (k = ''args_contains'' \<and> v \<noteq> VNone \<longrightarrow> (\<forall>w \<in> set (ensure_list v). \<exists>s. w = VStr s))"

definition rule_typed :: "policy_rule \<Rightarrow> bool" where
  "rule_typed r \<longleftrightarrow> dict_wf (rule_match r) \<and> (\<forall>(k, v) \<in> set (rule_match r). key_typed k v)"

definition bundle_typed :: "policy_bundle \<Rightarrow> bool" where
  "bundle_typed b \<longleftrightarrow> (\<forall>r \<in> set (rules b). enabled r \<longrightarrow> rule_typed r)"

section \<open>Each check meets its key's specification\<close>

lemma tool_value_cases: "tool_value a = VNone \<or> (\<exists>s. tool_value a = VStr s)"
  by (auto simp: tool_value_def split: option.splits)

lemma py_eq_VNone [simp]: "py_eq VNone v \<longleftrightarrow> v = VNone"
  by (cases v) (simp_all add: num_eq_def)

lemma py_eq_tool [simp]: "py_eq (tool_value a) v \<longleftrightarrow> v = tool_value a"
  using tool_value_cases[of a] by auto

lemma in_list_tool: "in_list (tool_value a) xs \<longleftrightarrow> tool_value a \<in> set xs"
  by (auto simp: in_list_def list_ex_iff)

lemma any_needle_strings:
  "\<forall>w \<in> set ns. \<exists>s. w = VStr s \<Longrightarrow>
     any_needle h ns = Inr (\<exists>s. VStr s \<in> set ns \<and> contains_str s h)"
  by (induction ns) auto

lemma py_float_error:
  assumes "py_float v = Inl e" "\<forall>i. v = VInt i \<longrightarrow> \<bar>of_int i\<bar> < overflow_bound"
  shows "catches TypeError e \<or> catches ValueError e"
  using assms by (cases v) (auto simp: catches_def split: option.splits if_splits)

lemmas sat_unfold = sat_key_def args_prefix_def key_typed_def

lemma check_type_sat: "v \<noteq> VNone \<Longrightarrow> check_type a v = Inr (sat_key a ident fs ''action.type'' v)"
  by (simp add: check_type_def sat_key_def args_prefix_def)

lemma check_tool_sat: "v \<noteq> VNone \<Longrightarrow> check_tool a v = Inr (sat_key a ident fs ''action.tool'' v)"
  by (auto simp: check_tool_def sat_unfold in_list_tool simp del: py_eq.simps split: pyval.split)

lemma check_tier_sat: "v \<noteq> VNone \<Longrightarrow> check_tier ident v = Inr (sat_key a ident fs ''identity.tier'' v)"
  by (simp add: check_tier_def sat_key_def args_prefix_def split: option.splits)

lemma check_did_prefix_sat:
  "v \<noteq> VNone \<Longrightarrow> check_did_prefix a v = Inr (sat_key a ident fs ''identity.did_prefix'' v)"
  by (simp add: check_did_prefix_def sat_key_def args_prefix_def)

lemma check_code_any_sat:
  "v \<noteq> VNone \<Longrightarrow> key_typed ''risk.factor_code_any'' v \<Longrightarrow>
     check_code_any fs v = Inr (sat_key a ident fs ''risk.factor_code_any'' v)"
  by (auto simp: check_code_any_def sat_unfold py_set_def
      present_code_def list_ex_iff)

lemma check_code_all_sat:
  "v \<noteq> VNone \<Longrightarrow> key_typed ''risk.factor_code_all'' v \<Longrightarrow>
     check_code_all fs v = Inr (sat_key a ident fs ''risk.factor_code_all'' v)"
  by (auto simp: check_code_all_def sat_unfold py_set_def
      present_code_def list_ex_iff list_all_iff)

lemma check_min_severity_sat:
  "v \<noteq> VNone \<Longrightarrow> key_typed ''risk.min_severity'' v \<Longrightarrow>
     check_min_severity fs v = Inr (sat_key a ident fs ''risk.min_severity'' v)"
  using py_float_error[of v]
  by (auto simp: check_min_severity_def sat_unfold split: sum.splits)

lemma check_contains_sat:
  "v \<noteq> VNone \<Longrightarrow> key_typed ''args_contains'' v \<Longrightarrow>
     check_contains a v = Inr (sat_key a ident fs ''args_contains'' v)"
  by (simp add: check_contains_def sat_unfold any_needle_strings)

lemmas check_sats = check_type_sat check_tool_sat check_tier_sat check_did_prefix_sat
  check_code_any_sat check_code_all_sat check_min_severity_sat check_contains_sat

section \<open>matches is the conjunction of its keys\<close>

definition named_keys :: "string set" where
  "named_keys = {''action.type'', ''action.tool'', ''identity.tier'', ''identity.did_prefix'',
     ''risk.factor_code_any'', ''risk.factor_code_all'', ''risk.min_severity'', ''args_contains''}"

lemma on_key_sat:
  assumes "dict_wf m" "k \<in> named_keys"
    and "\<And>v. (k, v) \<in> set m \<Longrightarrow> v \<noteq> VNone \<Longrightarrow> f v = Inr (sat_key a ident fs k v)"
  shows "on_key m k f = Inr (\<forall>v. (k, v) \<in> set m \<longrightarrow> sat_key a ident fs k v)"
proof (cases "map_of m k")
  case None
  then have "\<forall>v. (k, v) \<notin> set m" by (force simp: map_of_eq_None_iff)
  with None show ?thesis by (simp add: on_key_def)
next
  case (Some v)
  then have v: "(k, v) \<in> set m" by (rule map_of_SomeD)
  have uniq: "w = v" if "(k, w) \<in> set m" for w
    using that Some assms(1) by (metis map_of_is_SomeI option.inject)
  have "sat_key a ident fs k VNone" using assms(2) by (auto simp: named_keys_def sat_key_def args_prefix_def)
  moreover have "(\<forall>w. (k, w) \<in> set m \<longrightarrow> sat_key a ident fs k w) = sat_key a ident fs k v"
    using v uniq by blast
  ultimately show ?thesis using Some assms(3)[OF v] by (cases "v = VNone") (simp_all add: on_key_def)
qed

lemma sat_key_args:
  "startswith k args_prefix \<Longrightarrow> sat_key a ident fs k v =
     deep_eq (VDict (arguments a)) (split_on CHR ''.'' (removeprefix k args_prefix)) v"
  by (simp add: sat_key_def)

lemma check_args_sat:
  "check_args a m = Inr (\<forall>(k, v) \<in> set m. startswith k args_prefix \<longrightarrow> sat_key a ident fs k v)"
  unfolding check_args_def list_all_iff
  by (intro arg_cong[where f = Inr] ball_cong refl) (simp only: sat_key_args split: prod.split cong: imp_cong)

lemma sat_key_unnamed:
  "k \<notin> named_keys \<Longrightarrow> \<not> startswith k args_prefix \<Longrightarrow> sat_key a ident fs k v"
  by (simp add: sat_key_def named_keys_def)

lemma matches_typed:
  assumes "rule_typed r"
  shows "matches r a ident fs = Inr (\<forall>(k, v) \<in> set (rule_match r). sat_key a ident fs k v)"
proof (cases "rule_match r = []")
  case True
  then show ?thesis by (simp add: matches_def)
next
  case False
  let ?m = "rule_match r"
  let ?S = "\<lambda>k. \<forall>v. (k, v) \<in> set ?m \<longrightarrow> sat_key a ident fs k v"
  have wf: "dict_wf ?m" and ty: "\<And>k v. (k, v) \<in> set ?m \<Longrightarrow> key_typed k v"
    using assms by (auto simp: rule_typed_def)
  have keys:
    "on_key ?m ''action.type'' (check_type a) = Inr (?S ''action.type'')"
    "on_key ?m ''action.tool'' (check_tool a) = Inr (?S ''action.tool'')"
    "on_key ?m ''identity.tier'' (check_tier ident) = Inr (?S ''identity.tier'')"
    "on_key ?m ''identity.did_prefix'' (check_did_prefix a) = Inr (?S ''identity.did_prefix'')"
    "on_key ?m ''risk.factor_code_any'' (check_code_any fs) = Inr (?S ''risk.factor_code_any'')"
    "on_key ?m ''risk.factor_code_all'' (check_code_all fs) = Inr (?S ''risk.factor_code_all'')"
    "on_key ?m ''risk.min_severity'' (check_min_severity fs) = Inr (?S ''risk.min_severity'')"
    "on_key ?m ''args_contains'' (check_contains a) = Inr (?S ''args_contains'')"
    by (rule on_key_sat[OF wf]; simp add: named_keys_def ty check_sats)+
  have "matches r a ident fs = all_checks (map Inr
      [?S ''action.type'', ?S ''action.tool'', ?S ''identity.tier'', ?S ''identity.did_prefix'',
       ?S ''risk.factor_code_any'', ?S ''risk.factor_code_all'', ?S ''risk.min_severity'',
       \<forall>(k, v) \<in> set ?m. startswith k args_prefix \<longrightarrow> sat_key a ident fs k v, ?S ''args_contains''])"
    by (simp only: matches_def Let_def list.map False if_False keys check_args_sat[of a ?m ident fs])
  also have "\<dots> = Inr ((\<forall>k \<in> named_keys. ?S k) \<and>
      (\<forall>(k, v) \<in> set ?m. startswith k args_prefix \<longrightarrow> sat_key a ident fs k v))"
    unfolding all_checks_Inr by (simp add: named_keys_def) blast
  also have "\<dots> = Inr (\<forall>(k, v) \<in> set ?m. sat_key a ident fs k v)"
    using sat_key_unnamed[of _ a ident fs] by (auto split: prod.splits) blast
  finally show ?thesis .
qed

section \<open>The whole bundle\<close>

text \<open>The specification of a rule: every key of its match is satisfied.\<close>

definition rule_applies :: "action \<Rightarrow> identity option \<Rightarrow> risk_factor list \<Rightarrow> policy_rule \<Rightarrow> bool" where
  "rule_applies a ident fs r \<longleftrightarrow> (\<forall>(k, v) \<in> set (rule_match r). sat_key a ident fs k v)"

definition match_of :: "policy_rule \<Rightarrow> policy_match" where
  "match_of r = \<lparr>pm_rule = r, pm_effect = effect r\<rparr>"

lemma match_of_simps [simp]: "pm_rule (match_of r) = r" "pm_effect (match_of r) = effect r"
  by (simp_all add: match_of_def)

lemma collect_matches_typed:
  "\<forall>r \<in> set rs. rule_typed r \<Longrightarrow>
     collect_matches rs a ident fs = Inr (map match_of (filter (rule_applies a ident fs) rs))"
  by (induction rs) (auto simp: matches_typed rule_applies_def match_of_def)

lemma collect_matches_sound:
  "collect_matches rs a ident fs = Inr ms \<Longrightarrow>
     \<exists>bs. length bs = length rs \<and> ms = map match_of (map fst (filter snd (zip rs bs)))"
proof (induction rs arbitrary: ms)
  case Nil
  then show ?case by simp
next
  case (Cons r rs)
  then obtain b ms' where b: "matches r a ident fs = Inr b" and ms': "collect_matches rs a ident fs = Inr ms'"
    and ms: "ms = (if b then match_of r # ms' else ms')"
    by (auto simp: bindR_Inr_iff match_of_def)
  from Cons.IH[OF ms'] obtain bs where "length bs = length rs"
    "ms' = map match_of (map fst (filter snd (zip rs bs)))" by blast
  with ms show ?case by (intro exI[of _ "b # bs"]) simp
qed

lemma policy_evaluate_members:
  assumes "policy_evaluate b a ident fs = Inr ms" "m \<in> set ms"
  shows "pm_rule m \<in> set (rules b)" "enabled (pm_rule m)" "pm_effect m = effect (pm_rule m)"
proof -
  from collect_matches_sound[OF assms(1)[unfolded policy_evaluate_def]] obtain bs where
    "ms = map match_of (map fst (filter snd (zip (by_priority b) bs)))" by blast
  with assms(2) obtain r where "r \<in> set (by_priority b)" "m = match_of r"
    by (auto dest: set_zip_leftD)
  then show "pm_rule m \<in> set (rules b)" "enabled (pm_rule m)" "pm_effect m = effect (pm_rule m)"
    by auto
qed

lemma policy_evaluate_typed:
  assumes "bundle_typed b"
  shows "policy_evaluate b a ident fs =
    Inr (map match_of (filter (rule_applies a ident fs) (by_priority b)))"
  using assms by (simp add: policy_evaluate_def collect_matches_typed bundle_typed_def)

lemma rule_applies_empty: "rule_match r = [] \<Longrightarrow> rule_applies a ident fs r"
  by (simp add: rule_applies_def)

section \<open>Properties\<close>

text \<open>
  C17: On a bundle whose match keys have the documented types the engine never raises and
  returns exactly the enabled rules all of whose match keys are satisfied, each with its own
  effect, ordered by priority and, within one priority, in the order of the bundle.
\<close>

theorem policy_evaluate_exact:
  assumes "bundle_typed b"
  shows "\<exists>ms. policy_evaluate b a ident fs = Inr ms \<and>
    (\<forall>m. m \<in> set ms \<longleftrightarrow> (\<exists>r \<in> set (rules b). enabled r \<and> rule_applies a ident fs r \<and> m = match_of r)) \<and>
    sorted (map (priority \<circ> pm_rule) ms) \<and>
    (\<forall>p. filter (\<lambda>r. priority r = p) (map pm_rule ms) =
         filter (\<lambda>r. priority r = p \<and> enabled r \<and> rule_applies a ident fs r) (rules b))"
proof -
  let ?rs = "filter (rule_applies a ident fs) (by_priority b)"
  let ?ms = "map match_of ?rs"
  have rs: "map pm_rule ?ms = ?rs" by (simp add: comp_def)
  have "sorted (map priority ?rs)" using sorted_by_priority[of b] by (rule sorted_filter)
  then have s: "sorted (map (priority \<circ> pm_rule) ?ms)" by (simp add: comp_def)
  have f: "filter (\<lambda>r. priority r = p) ?rs =
      filter (\<lambda>r. priority r = p \<and> enabled r \<and> rule_applies a ident fs r) (rules b)" for p
  proof -
    have "filter (\<lambda>r. priority r = p) ?rs = filter (rule_applies a ident fs) (filter (\<lambda>r. priority r = p) (by_priority b))"
      by (simp add: conj_commute)
    also have "\<dots> = filter (\<lambda>r. priority r = p \<and> enabled r \<and> rule_applies a ident fs r) (rules b)"
      unfolding by_priority_stable by (simp add: conj_ac)
    finally show ?thesis .
  qed
  show ?thesis
    unfolding policy_evaluate_typed[OF assms]
    by (intro exI[of _ ?ms] conjI refl allI s) (auto simp only: rs f set_map set_filter set_by_priority)
qed

definition example_rule :: "string \<Rightarrow> rule_effect \<Rightarrow> int \<Rightarrow> (string, pyval) pydict \<Rightarrow> policy_rule" where
  "example_rule i e p m = \<lparr>rule_id = i, description = [], effect = e, priority = p, enabled = True,
     rule_match = m, rule_tags = [], rationale = None, owasp_ids = []\<rparr>"

definition example_bundle :: "policy_rule list \<Rightarrow> policy_bundle" where
  "example_bundle rs = \<lparr>version = ''1'', issued_at = 0, issuer = [], bundle_id = [], rules = rs,
     signature = None, bundle_tenant_id = None\<rparr>"

lemmas example_defs = example_rule_def example_bundle_def example_context_def example_action_def

theorem policy_evaluate_exact_witness:
  "\<exists>ms. policy_evaluate (example_bundle
       [example_rule ''late'' E_THROTTLE 200 [],
        example_rule ''shell'' E_DENY 10 [(''action.type'', VStr ''shell_command''),
          (''args_contains'', VList [VStr ''rm -rf''])]])
     (example_action SHELL_COMMAND None [(''command'', VStr ''rm -rf /'')]) None [] = Inr ms \<and>
     sorted (map (priority \<circ> pm_rule) ms)"
proof -
  have "bundle_typed (example_bundle
       [example_rule ''late'' E_THROTTLE 200 [],
        example_rule ''shell'' E_DENY 10 [(''action.type'', VStr ''shell_command''),
          (''args_contains'', VList [VStr ''rm -rf''])]])"
    by (simp add: bundle_typed_def rule_typed_def key_typed_def example_defs)
  from policy_evaluate_exact[OF this] show ?thesis by blast
qed

text \<open>
  A rule's match holds exactly when every one of its keys is satisfied; a rule without a
  match, and one whose keys are all unknown to the engine, applies to every action.
\<close>

theorem matches_conjunction:
  assumes "rule_typed r"
  shows "matches r a ident fs = Inr (\<forall>(k, v) \<in> set (rule_match r). sat_key a ident fs k v) \<and>
    ((\<forall>(k, v) \<in> set (rule_match r). k \<notin> named_keys \<and> \<not> startswith k ''args.'') \<longrightarrow>
      matches r a ident fs = Inr True)"
  using matches_typed[OF assms, of a ident fs] sat_key_unnamed[of _ a ident fs]
  by (auto simp: args_prefix_def)

theorem matches_conjunction_witness:
  "matches (example_rule ''typo'' E_DENY 1 [(''action.tpye'', VStr ''payment'')])
     (example_action FILE_READ None []) None [] = Inr True"
proof -
  let ?r = "example_rule ''typo'' E_DENY 1 [(''action.tpye'', VStr ''payment'')]"
  have "rule_typed ?r" by (simp add: rule_typed_def key_typed_def example_defs)
  moreover have "\<forall>(k, v) \<in> set (rule_match ?r). k \<notin> named_keys \<and> \<not> startswith k ''args.''"
    by (simp add: example_defs named_keys_def)
  ultimately show ?thesis using matches_conjunction[of ?r] by blast
qed

text \<open>
  A needle of \<^verbatim>\<open>args_contains\<close> that is not a string is not checked when the bundle is
  loaded: as soon as a rule with such a first needle and no other key is reached, the whole
  evaluation raises TypeError, whatever the action.
\<close>

theorem numeric_needle_raises:
  assumes "by_priority b = r # rs" "rule_match r = [(''args_contains'', VInt n)]"
  shows "\<exists>msg. policy_evaluate b a ident fs = Inl (Exn TypeError msg)"
  using assms
  by (simp add: policy_evaluate_def matches_def on_key_def check_args_def check_contains_def
      args_prefix_def)

theorem numeric_needle_raises_witness:
  "\<exists>msg. policy_evaluate (example_bundle [example_rule ''port'' E_DENY 1 [(''args_contains'', VInt 22)]])
     (example_action HTTP_REQUEST None []) None [] = Inl (Exn TypeError msg)"
  by (rule numeric_needle_raises[where n = 22 and rs = "[]" and
      r = "example_rule ''port'' E_DENY 1 [(''args_contains'', VInt 22)]"])
    (simp_all add: by_priority_def example_defs)

end
