(* ===== verification/TrustScorer.thy ===== *)
theory TrustScorer
  imports Models
begin

text \<open>
  src/src/sentinel/identity/trust_scorer.py: the adjustment of an identity's trust score
  after a verdict and the tier the score falls in, in binary64 arithmetic.
\<close>

definition tier_bands :: "(rat \<times> trust_tier) list" where
  "tier_bands = [(fl (90/100), PRIVILEGED), (fl (70/100), ELEVATED), (fl (50/100), STANDARD),
     (fl (25/100), CONSTRAINED), (0, OBSERVE)]"

fun first_band :: "(rat \<times> trust_tier) list \<Rightarrow> rat \<Rightarrow> trust_tier" where
  "first_band [] score = OBSERVE"
| "first_band ((threshold, t) # bands) score =
     (if threshold \<le> score then t else first_band bands score)"

definition resolve_tier :: "rat \<Rightarrow> trust_tier" where
  "resolve_tier score = first_band tier_bands score"

record scorer =
  deny_penalty :: rat
  escalate_penalty :: rat
  throttle_penalty :: rat
  clean_recovery :: rat

definition default_scorer :: scorer where
  "default_scorer = \<lparr>deny_penalty = fl (20/100), escalate_penalty = fl (8/100),
     throttle_penalty = fl (3/100), clean_recovery = fl (5/1000)\<rparr>"

definition adjusted_score :: "scorer \<Rightarrow> rat \<Rightarrow> risk_factor list \<Rightarrow> verdict \<Rightarrow> rat" where
  "adjusted_score sc s fs v = clamp01 (case v of
     DENY \<Rightarrow> fl (s - deny_penalty sc)
   | ESCALATE \<Rightarrow> fl (s - escalate_penalty sc)
   | THROTTLE \<Rightarrow> fl (s - throttle_penalty sc)
   | ALLOW \<Rightarrow> fl (s + (if fs = [] then clean_recovery sc else 0)))"

definition adjust :: "scorer \<Rightarrow> identity option \<Rightarrow> risk_factor list \<Rightarrow> verdict \<Rightarrow> identity option" where
  "adjust sc ident fs v = (case ident of None \<Rightarrow> None
   | Some i \<Rightarrow> (let s = adjusted_score sc (trust_score i) fs v in
       Some (i\<lparr>trust_score := py_round 4 s, tier := resolve_tier s\<rparr>)))"

text \<open>\<^verbatim>\<open>observe\<close> writes the adjusted score and tier into the identity it is given.\<close>

definition observe :: "scorer \<Rightarrow> identity \<Rightarrow> verdict \<Rightarrow> risk_factor list option \<Rightarrow> rat \<times> identity" where
  "observe sc i v fs = (let factors = (case fs of None \<Rightarrow> [] | Some f \<Rightarrow> f) in
     case adjust sc (Some i) factors v of
       None \<Rightarrow> (trust_score i, i)
     | Some u \<Rightarrow> (trust_score u, i\<lparr>trust_score := trust_score u, tier := tier u\<rparr>))"

section \<open>Tiers\<close>

lemma resolve_tier_eq:
  "resolve_tier s = (if fl (90/100) \<le> s then PRIVILEGED else if fl (70/100) \<le> s then ELEVATED
     else if fl (50/100) \<le> s then STANDARD else if fl (25/100) \<le> s then CONSTRAINED else OBSERVE)"
  by (simp add: resolve_tier_def tier_bands_def)

lemma band_values:
  "fl (9/10) = 8106479329266893 / 9007199254740992"
  "fl (7/10) = 3152519739159347 / 4503599627370496"
  "fl (1/2) = 1/2"
  "fl (1/4) = 1/4"
  by code_simp+

lemma penalty_values:
  "fl (1/5) = 3602879701896397 / 18014398509481984"
  "fl (2/25) = 5764607523034235 / 72057594037927936"
  "fl (3/100) = 1080863910568919 / 36028797018963968"
  "fl (1/200) = 5764607523034235 / 1152921504606846976"
  by code_simp+

lemma resolve_tier_num:
  "resolve_tier s = (if 8106479329266893 / 9007199254740992 \<le> s then PRIVILEGED
     else if 3152519739159347 / 4503599627370496 \<le> s then ELEVATED
     else if 1/2 \<le> s then STANDARD else if 1/4 \<le> s then CONSTRAINED else OBSERVE)"
  by (simp add: resolve_tier_eq band_values)

lemma resolve_tier_mono: "s \<le> t \<Longrightarrow> resolve_tier s \<le> resolve_tier t"
  by (auto simp: resolve_tier_num less_eq_trust_tier_def)

lemma resolve_tier_observe: "resolve_tier s = OBSERVE \<longleftrightarrow> s < 1/4"
  by (auto simp: resolve_tier_num)

section \<open>The adjusted score\<close>

lemma adjusted_score_unit [simp]: "0 \<le> adjusted_score sc s fs v" "adjusted_score sc s fs v \<le> 1"
  by (simp_all add: adjusted_score_def)

lemma adjust_None [simp]: "adjust sc None fs v = None"
  by (simp add: adjust_def)

lemma adjust_ok: "identity_ok i \<Longrightarrow> adjust sc (Some i) fs v = Some j \<Longrightarrow> identity_ok j"
  by (auto simp: adjust_def identity_ok_def Let_def py_round_unit)

lemma adjusted_score_antimono:
  assumes "v \<le> w"
  shows "adjusted_score default_scorer s fs w \<le> adjusted_score default_scorer s fs v"
  using assms unfolding adjusted_score_def
  by (intro clamp01_mono)
     (cases v; cases w; auto simp: less_eq_verdict_def default_scorer_def penalty_values intro!: fl_mono)

lemma deny_step:
  assumes "0 \<le> s" "s \<le> 1" "is_double s"
  shows "py_round 4 (adjusted_score default_scorer s fs DENY) \<le> max 0 (s - 199/1000)"
proof -
  let ?y = "fl (s - fl (20/100))"
  have le1: "\<bar>s - fl (20/100)\<bar> \<le> 1" using assms by (auto simp: penalty_values abs_if)
  have y: "?y \<le> s - fl (20/100) + 1 / 2 ^ 53" using fl_error_unit[OF le1] by linarith
  show ?thesis
  proof (cases "?y \<le> 0")
    case True
    then show ?thesis by (simp add: adjusted_score_def default_scorer_def clamp01_def)
  next
    case False
    have "?y \<le> 1" using assms by (intro fl_le_1) (simp add: penalty_values)
    with False have "adjusted_score default_scorer s fs DENY = ?y"
      by (simp add: adjusted_score_def default_scorer_def clamp01_id)
    moreover have "py_round 4 ?y \<le> ?y + (1 / (2 * 10 ^ 4) + 1 / 2 ^ 53)"
      using py_round_error[of ?y 4] False \<open>?y \<le> 1\<close> by linarith
    ultimately show ?thesis using y by (simp add: penalty_values)
  qed
qed

lemma observe_eq:
  "observe sc i v fs = (let s = adjusted_score sc (trust_score i) (case fs of None \<Rightarrow> [] | Some f \<Rightarrow> f) v in
     (py_round 4 s, i\<lparr>trust_score := py_round 4 s, tier := resolve_tier s\<rparr>))"
  by (simp add: observe_def adjust_def Let_def)

lemma observe_ok: "identity_ok i \<Longrightarrow> identity_ok (snd (observe sc i v fs))"
  by (simp add: observe_eq identity_ok_def Let_def py_round_unit)

text \<open>A long-lived identity through a list of denied actions with their risk factors.\<close>

definition observe_denials :: "risk_factor list list \<Rightarrow> identity \<Rightarrow> identity" where
  "observe_denials fss i = fold (\<lambda>fs i. snd (observe default_scorer i DENY (Some fs))) fss i"

lemma observe_denials_score:
  assumes "identity_ok i"
  shows "identity_ok (observe_denials fss i) \<and>
    trust_score (observe_denials fss i) \<le> max 0 (1 - of_nat (length fss) * (199/1000))"
proof (induction fss rule: rev_induct)
  case Nil
  then show ?case using assms by (simp add: observe_denials_def identity_ok_def)
next
  case (snoc fs fss)
  let ?j = "observe_denials fss i"
  have j: "identity_ok ?j" "trust_score ?j \<le> max 0 (1 - of_nat (length fss) * (199/1000))"
    using snoc.IH by auto
  have eq: "observe_denials (fss @ [fs]) i = snd (observe default_scorer ?j DENY (Some fs))"
    by (simp add: observe_denials_def)
  have "trust_score (observe_denials (fss @ [fs]) i) \<le> max 0 (trust_score ?j - 199/1000)"
    unfolding eq using j(1) deny_step[of "trust_score ?j" fs]
    by (simp add: observe_eq identity_ok_def Let_def)
  also have "\<dots> \<le> max 0 (1 - of_nat (length (fss @ [fs])) * (199/1000))"
    using j(2) by (auto simp: max_def add_divide_distrib distrib_right split: if_splits)
  finally show ?case using j(1) by (simp add: eq observe_ok)
qed

section \<open>Properties\<close>


definition example_identity :: identity where
  "example_identity = \<lparr>did = ''did:test:t'', display_name = [], id_tenant_id = ''default'',
     public_key_jwk = [], public_key_b64 = None, capabilities = [], tier = ELEVATED,
     trust_score = fl (70/100), parent_did = None, id_created_at = 0, id_updated_at = 0,
     revoked = False, metadata = []\<rparr>"

lemma example_identity_ok: "identity_ok example_identity"
  using is_double_fl[of "7/10"] by (simp add: identity_ok_def example_identity_def band_values)


text \<open>
  With the default penalties a stricter verdict never leaves an identity with a higher
  score or a higher tier than a milder one (ALLOW, THROTTLE, ESCALATE, DENY in this order).
\<close>

theorem adjust_antimono:
  assumes "v \<le> w" "adjust default_scorer (Some i) fs v = Some j" "adjust default_scorer (Some i) fs w = Some k"
  shows "trust_score k \<le> trust_score j \<and> tier k \<le> tier j"
  using assms adjusted_score_antimono[OF assms(1), of "trust_score i" fs]
  by (auto simp: adjust_def Let_def intro: py_round_mono resolve_tier_mono)

theorem adjust_antimono_witness:
  "tier (the (adjust default_scorer (Some example_identity) [] DENY)) \<le>
   tier (the (adjust default_scorer (Some example_identity) [] THROTTLE))"
proof -
  have "adjust default_scorer (Some example_identity) [] v =
    Some (the (adjust default_scorer (Some example_identity) [] v))" for v
    by (simp add: adjust_def Let_def)
  from adjust_antimono[OF _ this[of THROTTLE] this[of DENY]] show ?thesis by simp
qed

text \<open>
  Four observed denials in a row take any identity, however trusted, to the OBSERVE
  tier, and it stays there with every further denial.
\<close>

theorem denials_reach_observe:
  assumes "identity_ok i" "4 \<le> length fss"
  shows "tier (observe_denials fss i) = OBSERVE"
proof -
  obtain fs fss' where fss: "fss = fss' @ [fs]" using assms(2) by (cases fss rule: rev_cases) auto
  let ?j = "observe_denials fss' i"
  have j: "identity_ok ?j" "trust_score ?j \<le> max 0 (1 - of_nat (length fss') * (199/1000))"
    using observe_denials_score[OF assms(1)] by auto
  have "3 \<le> (of_nat (length fss') :: rat)" using assms(2) fss by simp
  with j(2) have le: "trust_score ?j \<le> 403/1000" by (simp add: max_def split: if_splits)
  have "\<bar>trust_score ?j - fl (1/5)\<bar> \<le> 1" using j(1) by (auto simp: identity_ok_def penalty_values abs_if)
  then have "fl (trust_score ?j - fl (1/5)) \<le> trust_score ?j - fl (1/5) + 1 / 2 ^ 53"
    using fl_error_unit[of "trust_score ?j - fl (1/5)"] by linarith
  with le have "fl (trust_score ?j - fl (1/5)) < 1/4" by (simp add: penalty_values)
  then have "adjusted_score default_scorer (trust_score ?j) fs DENY < 1/4"
    by (simp add: adjusted_score_def default_scorer_def clamp01_def)
  then show ?thesis
    by (simp add: fss observe_denials_def observe_eq Let_def resolve_tier_observe)
qed

theorem denials_reach_observe_witness:
  "tier (observe_denials [[], [], [], []] example_identity) = OBSERVE"
  by (rule denials_reach_observe[OF example_identity_ok]) simp

text \<open>
  The tier is read off the score before it is rounded, so the two stored fields can
  disagree: a denied identity with score 0.7 gets the score 0.5, whose band is STANDARD, and
  the tier CONSTRAINED, because 0.7 - 0.2 is 0.49999999999999994 in binary64.
\<close>

theorem tier_disagrees_with_stored_score:
  "adjust default_scorer (Some (i\<lparr>trust_score := fl (70/100)\<rparr>)) fs DENY =
     Some (i\<lparr>trust_score := 1/2, tier := CONSTRAINED\<rparr>) \<and> resolve_tier (1/2) = STANDARD"
proof -
  have d: "fl (fl (70/100) - fl (20/100)) = 9007199254740991 / 18014398509481984" by code_simp
  have r: "py_round 4 (9007199254740991 / 18014398509481984) = 1/2" by code_simp
  have a: "adjusted_score default_scorer (fl (70/100)) fs DENY = 9007199254740991 / 18014398509481984"
    unfolding adjusted_score_def default_scorer_def
    by (simp only: verdict.case scorer.simps d) (simp add: clamp01_def)
  have t: "trust_score (i\<lparr>trust_score := fl (70/100)\<rparr>) = fl (70/100)" by simp
  have "adjust default_scorer (Some (i\<lparr>trust_score := fl (70/100)\<rparr>)) fs DENY =
      Some (i\<lparr>trust_score := fl (70/100)\<rparr>\<lparr>trust_score := 1/2,
        tier := resolve_tier (9007199254740991 / 18014398509481984)\<rparr>)"
    unfolding adjust_def option.case Let_def t a r ..
  then show ?thesis by (simp add: resolve_tier_num)
qed

end
