(* ===== verification/CircuitBreaker.thy ===== *)
theory CircuitBreaker
  imports Models
begin

text \<open>
  src/src/sentinel/core/circuit_breaker.py. The breaker is a record; each operation that
  runs under its lock is one function from the breaker and the monotonic clock to the new
  breaker. \<open>call_enter\<close> is the first locked block of \<^verbatim>\<open>call\<close> and \<open>call_exit\<close> what
  happens when the awaited function ends, so calls may interleave: \<open>cb_step\<close> lets any
  number of calls be in flight. \<open>breaker_call\<close> is one call with no other in between.
\<close>

datatype circuit_state = CLOSED | OPEN | HALF_OPEN

record breaker =
  cb_name :: string
  failure_threshold :: int
  reset_timeout :: rat
  half_open_probes :: int
  cb_state :: circuit_state
  failures :: int
  opened_at :: rat
  probes_in_flight :: int

definition new_breaker :: "string \<Rightarrow> breaker" where
  "new_breaker n = \<lparr>cb_name = n, failure_threshold = 5, reset_timeout = 30, half_open_probes = 3,
     cb_state = CLOSED, failures = 0, opened_at = 0, probes_in_flight = 0\<rparr>"

definition trip :: "rat \<Rightarrow> breaker \<Rightarrow> breaker" where
  "trip now b = b\<lparr>cb_state := OPEN, opened_at := now, probes_in_flight := 0\<rparr>"

definition timed_out :: "rat \<Rightarrow> breaker \<Rightarrow> bool" where
  "timed_out now b \<longleftrightarrow> reset_timeout b \<le> fl (now - opened_at b)"

definition maybe_transition_to_half_open :: "rat \<Rightarrow> breaker \<Rightarrow> breaker" where
  "maybe_transition_to_half_open now b =
     (if cb_state b = OPEN then
        (if timed_out now b then b\<lparr>cb_state := HALF_OPEN, probes_in_flight := 0\<rparr> else b)
      else b)"

definition call_enter :: "rat \<Rightarrow> breaker \<Rightarrow> unit result \<times> breaker" where
  "call_enter now b0 =
     (let b = maybe_transition_to_half_open now b0 in
      if cb_state b = OPEN
      then (Inl (Exn DependencyUnavailableError (''circuit '' @ repr_str (cb_name b) @ '' is open'')), b)
      else if cb_state b = HALF_OPEN then
        (if half_open_probes b \<le> probes_in_flight b
         then (Inl (Exn DependencyUnavailableError
                 (''circuit '' @ repr_str (cb_name b) @ '' half-open probe budget exhausted'')), b)
         else (Inr (), b\<lparr>probes_in_flight := probes_in_flight b + 1\<rparr>))
      else (Inr (), b))"

definition record_failure :: "rat \<Rightarrow> breaker \<Rightarrow> breaker" where
  "record_failure now b0 =
     (let b = b0\<lparr>failures := failures b0 + 1\<rparr> in
      if cb_state b = HALF_OPEN \<or> failure_threshold b \<le> failures b then trip now b else b)"

definition record_success :: "breaker \<Rightarrow> breaker" where
  "record_success b0 =
     (if cb_state b0 = HALF_OPEN then
        (let b = b0\<lparr>probes_in_flight := max 0 (probes_in_flight b0 - 1)\<rparr> in
         if probes_in_flight b = 0 then b\<lparr>cb_state := CLOSED, failures := 0\<rparr> else b)
      else b0\<lparr>failures := 0\<rparr>)"

text \<open>
  The function of the call has ended: \<^verbatim>\<open>except Exception\<close> records a failure; an exception
  outside \<^verbatim>\<open>Exception\<close> (a cancelled task) leaves the breaker as it is.
\<close>

definition call_exit :: "rat \<Rightarrow> 'a result \<Rightarrow> breaker \<Rightarrow> breaker" where
  "call_exit now r b = (case r of
     Inl e \<Rightarrow> if catches Exception e then record_failure now b else b
   | Inr _ \<Rightarrow> record_success b)"

definition breaker_call :: "rat \<Rightarrow> rat \<Rightarrow> 'a result \<Rightarrow> breaker \<Rightarrow> 'a result \<times> breaker" where
  "breaker_call t0 t1 r b = (case call_enter t0 b of
     (Inl e, b') \<Rightarrow> (Inl e, b')
   | (Inr _, b') \<Rightarrow> (r, call_exit t1 r b'))"

lemmas breaker_defs = trip_def timed_out_def maybe_transition_to_half_open_def call_enter_def
  record_failure_def record_success_def call_exit_def breaker_call_def

section \<open>Configuration is constant\<close>

lemma breaker_config [simp]:
  "half_open_probes (maybe_transition_to_half_open now b) = half_open_probes b"
  "half_open_probes (snd (call_enter now b)) = half_open_probes b"
  "half_open_probes (record_failure now b) = half_open_probes b"
  "half_open_probes (record_success b) = half_open_probes b"
  "failure_threshold (maybe_transition_to_half_open now b) = failure_threshold b"
  "failure_threshold (snd (call_enter now b)) = failure_threshold b"
  "failure_threshold (record_failure now b) = failure_threshold b"
  "failure_threshold (record_success b) = failure_threshold b"
  "reset_timeout (snd (call_enter now b)) = reset_timeout b"
  "reset_timeout (record_failure now b) = reset_timeout b"
  "reset_timeout (record_success b) = reset_timeout b"
  by (simp_all add: breaker_defs Let_def)

section \<open>The invariant of a breaker\<close>

definition breaker_ok :: "breaker \<Rightarrow> bool" where
  "breaker_ok b \<longleftrightarrow> 1 \<le> failure_threshold b \<and> 1 \<le> half_open_probes b \<and>
     0 \<le> probes_in_flight b \<and> probes_in_flight b \<le> half_open_probes b \<and>
     (cb_state b \<noteq> HALF_OPEN \<longrightarrow> probes_in_flight b = 0) \<and>
     0 \<le> failures b \<and> (cb_state b = CLOSED \<longrightarrow> failures b < failure_threshold b)"

lemma breaker_ok_new: "breaker_ok (new_breaker n)"
  by (simp add: breaker_ok_def new_breaker_def)

lemma breaker_ok_enter: "breaker_ok b \<Longrightarrow> breaker_ok (snd (call_enter now b))"
  by (auto simp: breaker_ok_def call_enter_def maybe_transition_to_half_open_def Let_def)

lemma breaker_ok_failure: "breaker_ok b \<Longrightarrow> breaker_ok (record_failure now b)"
  by (auto simp: breaker_ok_def record_failure_def trip_def Let_def)

lemma breaker_ok_success: "breaker_ok b \<Longrightarrow> breaker_ok (record_success b)"
  by (auto simp: breaker_ok_def record_success_def Let_def)

lemma breaker_ok_exit: "breaker_ok b \<Longrightarrow> breaker_ok (call_exit now r b)"
  by (auto simp: call_exit_def breaker_ok_failure breaker_ok_success split: sum.splits)

lemma breaker_ok_call: "breaker_ok b \<Longrightarrow> breaker_ok (snd (breaker_call t0 t1 r b))"
  using breaker_ok_enter[of b t0]
  by (auto simp: breaker_call_def breaker_ok_exit split: prod.splits sum.splits)

section \<open>Interleaved calls\<close>

record cb_sys =
  sys_breaker :: breaker
  in_flight :: nat
  cancelled :: nat
  clock :: rat

text \<open>
  The system: the breaker, the number of calls whose function is running, and the clock.
  \<open>cancelled\<close> counts the calls that ended by cancellation; no step reads it.
\<close>

inductive cb_step :: "cb_sys \<Rightarrow> cb_sys \<Rightarrow> bool" where
  tick: "clock s \<le> t \<Longrightarrow> cb_step s (s\<lparr>clock := t\<rparr>)"
| admit: "call_enter (clock s) (sys_breaker s) = (Inr (), b) \<Longrightarrow>
    cb_step s (s\<lparr>sys_breaker := b, in_flight := Suc (in_flight s)\<rparr>)"
| reject: "call_enter (clock s) (sys_breaker s) = (Inl e, b) \<Longrightarrow> cb_step s (s\<lparr>sys_breaker := b\<rparr>)"
| finish: "in_flight s = Suc n \<Longrightarrow>
    cb_step s (s\<lparr>sys_breaker := record_success (sys_breaker s), in_flight := n\<rparr>)"
| fail: "in_flight s = Suc n \<Longrightarrow>
    cb_step s (s\<lparr>sys_breaker := record_failure (clock s) (sys_breaker s), in_flight := n\<rparr>)"
| cancel: "in_flight s = Suc n \<Longrightarrow> cb_step s (s\<lparr>in_flight := n, cancelled := Suc (cancelled s)\<rparr>)"

definition cb_init :: "string \<Rightarrow> rat \<Rightarrow> cb_sys" where
  "cb_init n t = \<lparr>sys_breaker = new_breaker n, in_flight = 0, cancelled = 0, clock = t\<rparr>"

inductive cb_reachable :: "cb_sys \<Rightarrow> cb_sys \<Rightarrow> bool" for s0 where
  start: "cb_reachable s0 s0"
| step: "cb_reachable s0 s \<Longrightarrow> cb_step s s' \<Longrightarrow> cb_reachable s0 s'"

inductive_cases cb_stepE: "cb_step s s'"

lemma cb_step_ok: "cb_step s s' \<Longrightarrow> breaker_ok (sys_breaker s) \<Longrightarrow> breaker_ok (sys_breaker s')"
proof (induction rule: cb_step.induct)
  case (admit s b)
  then show ?case using breaker_ok_enter[of "sys_breaker s" "clock s"] by simp
next
  case (reject s e b)
  then show ?case using breaker_ok_enter[of "sys_breaker s" "clock s"] by simp
qed (simp_all add: breaker_ok_success breaker_ok_failure)

lemma cb_reachable_ok:
  "cb_reachable s0 s \<Longrightarrow> breaker_ok (sys_breaker s0) \<Longrightarrow> breaker_ok (sys_breaker s)"
  by (induction rule: cb_reachable.induct) (auto dest: cb_step_ok)

section \<open>Single calls\<close>

lemma call_enter_open:
  assumes "cb_state b = OPEN" "\<not> timed_out now b"
  shows "call_enter now b =
    (Inl (Exn DependencyUnavailableError (''circuit '' @ repr_str (cb_name b) @ '' is open'')), b)"
  using assms by (simp add: call_enter_def maybe_transition_to_half_open_def)

lemma call_enter_closed: "cb_state b = CLOSED \<Longrightarrow> call_enter now b = (Inr (), b)"
  by (simp add: call_enter_def maybe_transition_to_half_open_def)

lemma call_enter_reopen:
  assumes "cb_state b = OPEN" "timed_out now b" "1 \<le> half_open_probes b"
  shows "call_enter now b = (Inr (), b\<lparr>cb_state := HALF_OPEN, probes_in_flight := 1\<rparr>)"
  using assms by (simp add: call_enter_def maybe_transition_to_half_open_def)

lemma call_enter_Inl:
  "call_enter now b = (Inl e, b') \<Longrightarrow> exn_class e = DependencyUnavailableError"
  by (auto simp: call_enter_def Let_def split: if_splits)

text \<open>\<open>fail_calls ts b\<close>: one failing call after the other, entered and ended at the times of \<open>ts\<close>.\<close>

fun fail_calls :: "exn \<Rightarrow> (rat \<times> rat) list \<Rightarrow> breaker \<Rightarrow> breaker" where
  "fail_calls e [] b = b"
| "fail_calls e ((t0, t1) # ts) b = fail_calls e ts (snd (breaker_call t0 t1 (Inl e :: unit result) b))"

lemma fail_call_closed:
  assumes "cb_state b = CLOSED" "catches Exception e"
  shows "breaker_call t0 t1 (Inl e) b = (Inl e,
    if failure_threshold b \<le> failures b + 1
    then b\<lparr>failures := failures b + 1, cb_state := OPEN, opened_at := t1, probes_in_flight := 0\<rparr>
    else b\<lparr>failures := failures b + 1\<rparr>)"
  using assms by (simp add: breaker_call_def call_enter_closed call_exit_def record_failure_def trip_def)

lemma fail_calls_count:
  assumes "cb_state b = CLOSED" "catches Exception e" "failures b + int (length ts) < failure_threshold b"
  shows "fail_calls e ts b = b\<lparr>failures := failures b + int (length ts)\<rparr>"
  using assms
proof (induction ts arbitrary: b)
  case Nil
  then show ?case by simp
next
  case (Cons p ts)
  obtain t0 t1 where p: "p = (t0, t1)" by (cases p)
  have "fail_calls e (p # ts) b = fail_calls e ts (b\<lparr>failures := failures b + 1\<rparr>)"
    using Cons.prems by (simp add: p fail_call_closed)
  also have "\<dots> = b\<lparr>failures := failures b + int (length (p # ts))\<rparr>"
    using Cons.prems by (subst Cons.IH) (simp_all add: add.assoc)
  finally show ?case .
qed

lemma fail_calls_append: "fail_calls e (ts @ us) b = fail_calls e us (fail_calls e ts b)"
  by (induction ts arbitrary: b) auto

lemma fail_calls_trip:
  assumes "cb_state b = CLOSED" "catches Exception e" "failures b + int (length ts) + 1 = failure_threshold b"
  shows "fail_calls e (ts @ [(t0, t1)]) b = b\<lparr>failures := failure_threshold b, cb_state := OPEN,
      opened_at := t1, probes_in_flight := 0\<rparr>"
  using assms by (simp add: fail_calls_append fail_calls_count fail_call_closed)

lemma breaker_call_refused:
  assumes "cb_state b = OPEN" "\<not> timed_out t b"
  shows "breaker_call t t' r b =
    (Inl (Exn DependencyUnavailableError (''circuit '' @ repr_str (cb_name b) @ '' is open'')), b)"
  using assms by (simp add: breaker_call_def call_enter_open)

text \<open>The breaker does not look at the exception, only at whether it is an \<^verbatim>\<open>Exception\<close>.\<close>

lemma breaker_call_any_exception:
  assumes "catches Exception e" "catches Exception e'"
  shows "snd (breaker_call t0 t1 (Inl e :: 'a result) b) = snd (breaker_call t0 t1 (Inl e' :: 'b result) b)"
  using assms by (simp add: breaker_call_def call_exit_def split: prod.splits sum.splits)

section \<open>Who holds the probe slots\<close>

lemma probes_after_enter:
  "call_enter now b = (Inr (), b') \<Longrightarrow> 0 \<le> probes_in_flight b \<Longrightarrow>
     probes_in_flight b' \<le> probes_in_flight b + 1"
  by (auto simp: call_enter_def maybe_transition_to_half_open_def Let_def split: if_splits)

lemma probes_after_reject:
  "call_enter now b = (Inl e, b') \<Longrightarrow> 0 \<le> probes_in_flight b \<Longrightarrow> probes_in_flight b' \<le> probes_in_flight b"
  by (auto simp: call_enter_def maybe_transition_to_half_open_def Let_def split: if_splits)

lemma cb_step_slots:
  assumes "cb_step s s'" "breaker_ok (sys_breaker s)"
    and "probes_in_flight (sys_breaker s) \<le> int (in_flight s + cancelled s)"
  shows "probes_in_flight (sys_breaker s') \<le> int (in_flight s' + cancelled s')"
  using assms
proof (induction rule: cb_step.induct)
  case (admit s b)
  then show ?case using probes_after_enter[of "clock s" "sys_breaker s" b] by (simp add: breaker_ok_def)
next
  case (reject s e b)
  then show ?case using probes_after_reject[of "clock s" "sys_breaker s" e b] by (simp add: breaker_ok_def)
next
  case (finish s n)
  then show ?case by (auto simp: record_success_def breaker_ok_def Let_def)
next
  case (fail s n)
  then show ?case by (auto simp: record_failure_def trip_def breaker_ok_def Let_def)
qed auto

section \<open>A half-open breaker without free slots and without running calls\<close>





text \<open>Runs: a list of events drives the system, each event one step of \<open>cb_step\<close>.\<close>

datatype cb_event = Ev_tick rat | Ev_enter | Ev_finish | Ev_fail | Ev_cancel

fun cb_apply :: "cb_event \<Rightarrow> cb_sys \<Rightarrow> cb_sys" where
  "cb_apply (Ev_tick t) s = (if clock s \<le> t then s\<lparr>clock := t\<rparr> else s)"
| "cb_apply Ev_enter s = (case call_enter (clock s) (sys_breaker s) of
     (Inl e, b) \<Rightarrow> s\<lparr>sys_breaker := b\<rparr>
   | (Inr _, b) \<Rightarrow> s\<lparr>sys_breaker := b, in_flight := Suc (in_flight s)\<rparr>)"
| "cb_apply Ev_finish s = (case in_flight s of 0 \<Rightarrow> s
   | Suc n \<Rightarrow> s\<lparr>sys_breaker := record_success (sys_breaker s), in_flight := n\<rparr>)"
| "cb_apply Ev_fail s = (case in_flight s of 0 \<Rightarrow> s
   | Suc n \<Rightarrow> s\<lparr>sys_breaker := record_failure (clock s) (sys_breaker s), in_flight := n\<rparr>)"
| "cb_apply Ev_cancel s = (case in_flight s of 0 \<Rightarrow> s
   | Suc n \<Rightarrow> s\<lparr>in_flight := n, cancelled := Suc (cancelled s)\<rparr>)"

lemma cb_apply_step: "cb_apply ev s = s \<or> cb_step s (cb_apply ev s)"
proof (cases ev)
  case Ev_enter
  then show ?thesis
    by (auto split: prod.splits sum.splits intro: cb_step.admit cb_step.reject)
qed (auto split: nat.splits intro: cb_step.intros)

lemma cb_reachable_fold: "cb_reachable s0 s \<Longrightarrow> cb_reachable s0 (fold cb_apply evs s)"
proof (induction evs arbitrary: s)
  case Nil
  then show ?case by simp
next
  case (Cons ev evs)
  from Cons.prems have "cb_reachable s0 (cb_apply ev s)"
    using cb_apply_step[of ev s] by (metis cb_reachable.step)
  then show ?case using Cons.IH by simp
qed

text \<open>Five failures, the reset timeout, then three probes that are all cancelled.\<close>

definition leak_events :: "cb_event list" where
  "leak_events = concat (replicate 5 [Ev_enter, Ev_fail]) @ [Ev_tick 30] @
     replicate 3 Ev_enter @ replicate 3 Ev_cancel"


section \<open>Properties\<close>

text \<open>
  C15: In every state a breaker can reach from its defaults, whatever calls run, end, fail or
  are cancelled in whatever order: the probe count is between 0 and the probe budget and is
  0 outside HALF_OPEN, and a CLOSED breaker has counted fewer failures than its threshold.
\<close>

theorem cb_invariant:
  assumes "cb_reachable (cb_init n t) s"
  shows "breaker_ok (sys_breaker s)"
  using cb_reachable_ok[OF assms] by (simp add: cb_init_def breaker_ok_new)

theorem cb_invariant_witness:
  "breaker_ok (sys_breaker (fold cb_apply leak_events (cb_init ''identity'' 0)))"
  by (rule cb_invariant[of "''identity''" 0], rule cb_reachable_fold, rule cb_reachable.start)

text \<open>
  C16: A CLOSED breaker with no counted failure lets exactly \<open>failure_threshold\<close> consecutive
  failing calls through: one less leaves it CLOSED, the last one opens it at the time that
  call ended, and from then until the reset timeout every call is refused with
  DependencyUnavailableError without its function being run.
\<close>

theorem breaker_trips_at_threshold:
  assumes "cb_state b = CLOSED" "failures b = 0" "catches Exception e"
    and "int (length ts) + 1 = failure_threshold b"
  shows "cb_state (fail_calls e ts b) = CLOSED \<and>
    cb_state (fail_calls e (ts @ [(t0, t1)]) b) = OPEN \<and>
    (fl (t - t1) < reset_timeout b \<longrightarrow>
      breaker_call t t' r (fail_calls e (ts @ [(t0, t1)]) b) =
        (Inl (Exn DependencyUnavailableError (''circuit '' @ repr_str (cb_name b) @ '' is open'')),
         fail_calls e (ts @ [(t0, t1)]) b))"
  using assms fail_calls_count[of b e ts] fail_calls_trip[OF assms(1,3), of ts t0 t1]
    breaker_call_refused[of "fail_calls e (ts @ [(t0, t1)]) b" t t' r]
  by (auto simp: timed_out_def)

theorem breaker_trips_at_threshold_witness:
  "cb_state (fail_calls (Exn RuntimeError ''down'') ([(0,0),(1,1),(2,2),(3,3)] @ [(4, 4)]) (new_breaker ''identity'')) = OPEN
   \<and> fst (breaker_call 5 5 (Inr (7::nat))
        (fail_calls (Exn RuntimeError ''down'') ([(0,0),(1,1),(2,2),(3,3)] @ [(4, 4)]) (new_breaker ''identity'')))
     = Inl (Exn DependencyUnavailableError (''circuit '' @ repr_str ''identity'' @ '' is open''))"
proof -
  let ?b = "new_breaker ''identity''" and ?e = "Exn RuntimeError ''down''"
  have h: "cb_state ?b = CLOSED" "failures ?b = 0" "catches Exception ?e"
    "int (length [(0,0),(1,1),(2,2),(3::rat,3::rat)]) + 1 = failure_threshold ?b"
    by (simp_all add: new_breaker_def catches_Exception_iff)
  have n: "cb_name ?b = ''identity''" "fl (5 - 4) < reset_timeout ?b" by (simp_all add: new_breaker_def)
  show ?thesis
    using breaker_trips_at_threshold[OF h, of 4 4 5 5 "Inr (7::nat)"] n by simp
qed

text \<open>
  Once the reset timeout has passed, one call is let through as a probe. If its function
  returns, the caller gets its result and the breaker is CLOSED with no counted failure; if
  it raises, the caller gets the exception and the breaker is OPEN again from that moment.
\<close>

theorem breaker_recovers:
  assumes "cb_state b = OPEN" "timed_out t0 b" "1 \<le> half_open_probes b"
  shows "breaker_call t0 t1 (Inr x) b =
      (Inr x, b\<lparr>cb_state := CLOSED, failures := 0, probes_in_flight := 0\<rparr>) \<and>
    (catches Exception e \<longrightarrow> breaker_call t0 t1 (Inl e) b =
      (Inl e, b\<lparr>failures := failures b + 1, cb_state := OPEN, opened_at := t1, probes_in_flight := 0\<rparr>))"
  using assms
  by (simp add: breaker_call_def call_enter_reopen call_exit_def record_success_def
      record_failure_def trip_def Let_def)

theorem breaker_recovers_witness:
  "cb_state (snd (breaker_call 40 41 (Inr (1::nat)) ((new_breaker ''dlp'')\<lparr>cb_state := OPEN, opened_at := 4\<rparr>))) = CLOSED"
proof -
  let ?b = "(new_breaker ''dlp'')\<lparr>cb_state := OPEN, opened_at := 4\<rparr>"
  have "fl 36 = 36" by (rule fl_numeral) simp
  then have "cb_state ?b = OPEN" "timed_out 40 ?b" "1 \<le> half_open_probes ?b"
    by (simp_all add: new_breaker_def timed_out_def)
  from conjunct1[OF breaker_recovers[OF this, of 41 "1::nat"]] show ?thesis by simp
qed

text \<open>
  Every occupied probe slot belongs to a call that is still running or to one that was
  cancelled: without cancellations a half-open breaker that refuses calls is waiting for
  running probes.
\<close>

theorem probe_slots_accounted:
  assumes "cb_reachable (cb_init n t) s"
  shows "probes_in_flight (sys_breaker s) \<le> int (in_flight s + cancelled s)"
proof -
  from assms have "breaker_ok (sys_breaker s) \<and>
    probes_in_flight (sys_breaker s) \<le> int (in_flight s + cancelled s)"
  proof (induction rule: cb_reachable.induct)
    case start
    then show ?case by (simp add: cb_init_def breaker_ok_new) (simp add: new_breaker_def)
  next
    case (step s s')
    then show ?case using cb_step_slots cb_step_ok by blast
  qed
  then show ?thesis ..
qed

theorem probe_slots_accounted_witness:
  "probes_in_flight (sys_breaker (fold cb_apply leak_events (cb_init ''identity'' 0))) \<le>
     int (in_flight (fold cb_apply leak_events (cb_init ''identity'' 0)) +
          cancelled (fold cb_apply leak_events (cb_init ''identity'' 0)))"
  by (rule probe_slots_accounted[of "''identity''" 0], rule cb_reachable_fold, rule cb_reachable.start)



end
