(* ===== verification/Registry.thy ===== *)
theory Registry
  imports Models
begin

text \<open>
  The interface behind the program's stores: a state that values are put into under a key
  of their own and looked up by that key. The identity store, the tool registry, the tenant
  manager and the approval backend are all of this kind; each interprets \<open>keyed_store\<close> on
  its own operations.
\<close>

locale keyed_store =
  fixes get :: "'s \<Rightarrow> 'k \<Rightarrow> 'v option"
    and put :: "'v \<Rightarrow> 's \<Rightarrow> 's"
    and key :: "'v \<Rightarrow> 'k"
  assumes get_put: "get (put v s) k = (if k = key v then Some v else get s k)"
begin

lemma get_put_same: "get (put v s) (key v) = Some v"
  by (simp add: get_put)

lemma get_put_other: "k \<noteq> key v \<Longrightarrow> get (put v s) k = get s k"
  by (simp add: get_put)

lemma put_idem: "get (put v (put v s)) = get (put v s)"
  by (simp add: fun_eq_iff get_put)

lemma put_overwrites: "key v = key w \<Longrightarrow> get (put w (put v s)) = get (put w s)"
  by (simp add: fun_eq_iff get_put)

text \<open>Filling a store from a list: the last value of a key wins.\<close>

lemma get_fold_put:
  "get (fold put vs s) k = (case find (\<lambda>v. key v = k) (rev vs) of Some v \<Rightarrow> Some v | None \<Rightarrow> get s k)"
proof (induction vs rule: rev_induct)
  case Nil
  then show ?case by simp
next
  case (snoc v vs)
  then show ?case by (auto simp: get_put)
qed

lemma get_fold_put_distinct:
  assumes "distinct (map key vs)" "v \<in> set vs"
  shows "get (fold put vs s) (key v) = Some v"
  using assms
proof (induction vs rule: rev_induct)
  case (snoc w vs)
  then show ?case by (auto simp: get_put image_iff)
qed simp

end

end
