(* ===== verification/IdentityResolver.thy ===== *)
theory IdentityResolver
  imports Registry
begin

text \<open>
  src/src/sentinel/identity/resolver.py: the in-memory identity store and the resolver in
  front of it. The locale \<open>identity_store\<close> states what the \<^verbatim>\<open>IdentityStore\<close> protocol
  promises; the in-memory store interprets it.
\<close>

type_synonym identity_db = "(string, identity) pydict"

definition store_get :: "identity_db \<Rightarrow> string \<Rightarrow> identity option" where
  "store_get items d = map_of items d"

definition store_put :: "identity \<Rightarrow> identity_db \<Rightarrow> identity_db" where
  "store_put i items = dict_set (did i) i items"

definition store_revoke :: "string \<Rightarrow> identity_db \<Rightarrow> identity_db" where
  "store_revoke d items = (case map_of items d of
     None \<Rightarrow> items
   | Some i \<Rightarrow> dict_set d (i\<lparr>revoked := True\<rparr>) items)"

definition new_identity_db :: "identity list option \<Rightarrow> identity_db" where
  "new_identity_db seed = fold store_put (case seed of None \<Rightarrow> [] | Some xs \<Rightarrow> xs) []"

text \<open>
  \<^verbatim>\<open>resolve\<close> over the answer of the store: a pluggable store may also raise, which passes
  through.
\<close>

definition resolve :: "identity option result \<Rightarrow> string \<Rightarrow> identity result" where
  "resolve answer d = bindR answer (\<lambda>r. case r of
     None \<Rightarrow> Inl (Exn IdentityError (''Unknown DID: '' @ d))
   | Some i \<Rightarrow> if revoked i then Inl (Exn IdentityError (''DID '' @ d @ '' is revoked'')) else Inr i)"

lemma resolve_Inr_iff: "resolve answer d = Inr i \<longleftrightarrow> answer = Inr (Some i) \<and> \<not> revoked i"
  by (auto simp: resolve_def bindR_Inr_iff split: option.splits if_splits)

lemma resolve_Inl:
  "resolve (Inr r) d = Inl e \<Longrightarrow> exn_class e = IdentityError"
  by (auto simp: resolve_def split: option.splits if_splits)

locale identity_store = keyed_store get put did
  for get :: "'s \<Rightarrow> string \<Rightarrow> identity option" and put :: "identity \<Rightarrow> 's \<Rightarrow> 's" +
  fixes revoke :: "string \<Rightarrow> 's \<Rightarrow> 's"
  assumes get_revoke: "get (revoke d s) k =
    (if k = d then map_option (\<lambda>i. i\<lparr>revoked := True\<rparr>) (get s k) else get s k)"
begin

lemma resolve_after_revoke: "\<exists>e. resolve (Inr (get (revoke d s) d)) d = Inl e \<and> exn_class e = IdentityError"
  by (cases "get s d") (simp_all add: resolve_def get_revoke)

lemma resolve_after_put: "\<not> revoked i \<Longrightarrow> resolve (Inr (get (put i s) (did i))) (did i) = Inr i"
  by (simp add: resolve_def get_put)

lemma revoke_other: "k \<noteq> d \<Longrightarrow> get (revoke d s) k = get s k"
  by (simp add: get_revoke)

lemma revoke_idem: "get (revoke d (revoke d s)) = get (revoke d s)"
  by (auto simp: fun_eq_iff get_revoke option.map_comp comp_def)

end

interpretation mem_store: identity_store store_get store_put store_revoke
proof
  show "store_get (store_put v s) k = (if k = did v then Some v else store_get s k)" for v s k
    by (simp add: store_get_def store_put_def)
  show "store_get (store_revoke d s) k =
      (if k = d then map_option (\<lambda>i. i\<lparr>revoked := True\<rparr>) (store_get s k) else store_get s k)" for d s k
    by (simp add: store_get_def store_revoke_def split: option.splits)
qed

section \<open>Properties\<close>

text \<open>
  Resolving returns an identity only if the store holds it under that DID and it is not
  revoked: after a revocation the DID no longer resolves and every other DID is unaffected,
  and a store filled from a seed resolves each of its last entries.
\<close>

theorem revoked_identity_does_not_resolve:
  "(\<exists>e. resolve (Inr (store_get (store_revoke d db) d)) d = Inl e \<and> exn_class e = IdentityError) \<and>
   (k \<noteq> d \<longrightarrow> resolve (Inr (store_get (store_revoke d db) k)) k = resolve (Inr (store_get db k)) k) \<and>
   (resolve (Inr (store_get db d)) d = Inr i \<longleftrightarrow> store_get db d = Some i \<and> \<not> revoked i)"
  using mem_store.resolve_after_revoke[of d db] mem_store.revoke_other[of k d db]
  by (auto simp: resolve_Inr_iff)

theorem revoked_identity_does_not_resolve_witness:
  "resolve (Inr (store_get (store_revoke ''did:a:1234'' [(''did:b:1234'', agent_identity ''did:b:1234'' STANDARD 1 False)])
     ''did:b:1234'')) ''did:b:1234'' = Inr (agent_identity ''did:b:1234'' STANDARD 1 False)"
  using revoked_identity_does_not_resolve[of "''did:a:1234''"
      "[(''did:b:1234'', agent_identity ''did:b:1234'' STANDARD 1 False)]" "''did:b:1234''"]
  by (simp add: resolve_Inr_iff store_get_def agent_identity_def)

text \<open>
  Storing an identity again lifts a revocation: a put after a revoke makes the DID
  resolve, because the store keeps no record of revocations apart from the identity.
\<close>

theorem put_lifts_revocation:
  assumes "\<not> revoked i"
  shows "resolve (Inr (store_get (store_put i (store_revoke (did i) db)) (did i))) (did i) = Inr i"
  using assms by (rule mem_store.resolve_after_put)

theorem put_lifts_revocation_witness:
  "resolve (Inr (store_get (store_put (agent_identity ''did:a:1234'' STANDARD 1 False)
     (store_revoke ''did:a:1234'' [(''did:a:1234'', agent_identity ''did:a:1234'' STANDARD 1 False)])) ''did:a:1234''))
     ''did:a:1234'' = Inr (agent_identity ''did:a:1234'' STANDARD 1 False)"
  using put_lifts_revocation[of "agent_identity ''did:a:1234'' STANDARD 1 False"] by (simp add: agent_identity_def)

end
