(* ===== verification/Classifier.thy ===== *)
theory Classifier
  imports Models
begin

text \<open>
  What the pipeline asks of every classifier: called on an action and the resolved identity
  it answers with risk factors or raises, and may change its own state. The locale
  \<open>risk_classifier\<close> states the contract; each classifier's theory interprets it. \<open>safe_run\<close> is
  \<^verbatim>\<open>_safe_run\<close> of src/src/sentinel/core/pipeline.py, through which the pipeline calls
  them all.
\<close>

type_synonym classifier_result = "risk_factor list result"

definition one_factor :: "risk_factor result \<Rightarrow> classifier_result" where
  "one_factor r = bindR r (\<lambda>f. Inr [f])"

definition classifier_error :: "string \<Rightarrow> exn \<Rightarrow> risk_factor" where
  "classifier_error qualname e = \<lparr>rf_code = ''classifier.error'', severity = fl (60/100),
     detector = qualname, rf_message = ''Classifier failed; treating as elevated risk.'',
     evidence = [(''error'', take 200 (exn_msg e))]\<rparr>"

definition safe_run :: "string \<Rightarrow> classifier_result \<Rightarrow> classifier_result" where
  "safe_run qualname r = (case r of
     Inr fs \<Rightarrow> Inr fs
   | Inl e \<Rightarrow> if catches Exception e then Inr [classifier_error qualname e] else Inl e)"

section \<open>The text of an action\<close>

text \<open>
  \<^verbatim>\<open>_iter_text\<close>, which injection_detector.py and scanner.py define alike: the intent, the
  string arguments and the strings directly inside a list argument.
\<close>

fun value_texts :: "pyval \<Rightarrow> string list" where
  "value_texts (VStr s) = [s]"
| "value_texts (VList vs) = concat (map (\<lambda>v. case v of VStr s \<Rightarrow> [s] | _ \<Rightarrow> []) vs)"
| "value_texts _ = []"

definition iter_text :: "action \<Rightarrow> string list" where
  "iter_text a = (if truthy (intent a) then [or_empty (intent a)] else []) @
     concat (map (\<lambda>(k, v). value_texts v) (arguments a))"

lemma iter_text_argument: "(k, VStr s) \<in> set (arguments a) \<Longrightarrow> s \<in> set (iter_text a)"
  by (force simp: iter_text_def)

lemma iter_text_member:
  "(k, VList vs) \<in> set (arguments a) \<Longrightarrow> VStr s \<in> set vs \<Longrightarrow> s \<in> set (iter_text a)"
  by (force simp: iter_text_def)

section \<open>Severities\<close>

lemma severity_literals [risk_simps]:
  "fl (1/4) = 1/4"
  "fl (2/5) = 3602879701896397 / 9007199254740992"
  "fl (3/5) = 5404319552844595 / 9007199254740992"
  "fl (7/10) = 3152519739159347 / 4503599627370496"
  "fl (3/4) = 3/4"
  "fl (4/5) = 3602879701896397 / 4503599627370496"
  "fl (11/20) = 2476979795053773 / 4503599627370496"
  "fl (19/20) = 4278419646001971 / 4503599627370496"
  by code_simp+

lemma is_double_max [simp]: "is_double x \<Longrightarrow> is_double y \<Longrightarrow> is_double (max x y)"
  by (simp add: max_def)

lemma is_double_min [simp]: "is_double x \<Longrightarrow> is_double y \<Longrightarrow> is_double (min x y)"
  by (simp add: min_def)

lemma risk_ok_mk:
  "mk_risk_factor c s d m e = Inr f \<Longrightarrow> is_double s \<Longrightarrow> risk_ok f"
  by (auto simp: mk_risk_factor_Inr_iff risk_ok_def)

lemma one_factor_Inr_iff: "one_factor r = Inr fs \<longleftrightarrow> (\<exists>f. r = Inr f \<and> fs = [f])"
  by (auto simp: one_factor_def bindR_Inr_iff)

lemma one_factor_ok:
  "one_factor (mk_risk_factor c s d m e) = Inr fs \<Longrightarrow> is_double s \<Longrightarrow> risks_ok fs"
  by (auto simp: one_factor_Inr_iff intro: risk_ok_mk)

lemma classifier_error_ok: "risk_ok (classifier_error q e)"
  using is_double_fl[of "3/5"] by (simp add: risk_ok_def classifier_error_def risk_simps)

lemma safe_run_Inl: "safe_run q r = Inl e \<Longrightarrow> r = Inl e \<and> \<not> catches Exception e"
  by (auto simp: safe_run_def split: sum.splits if_splits)

lemma safe_run_raised: "r = Inl e \<Longrightarrow> catches Exception e \<Longrightarrow> safe_run q r = Inr [classifier_error q e]"
  by (simp add: safe_run_def)

lemma safe_run_returned [simp]: "safe_run q (Inr fs) = Inr fs"
  by (simp add: safe_run_def)

section \<open>The contract\<close>

text \<open>
  \<open>inv\<close> is the invariant of the classifier's own state (its configuration included), which
  every call keeps and under which what it returns are valid risk factors.
\<close>

locale risk_classifier =
  fixes classify :: "'s \<Rightarrow> action \<Rightarrow> identity option \<Rightarrow> classifier_result \<times> 's"
    and inv :: "'s \<Rightarrow> bool"
  assumes classify_inv: "inv s \<Longrightarrow> inv (snd (classify s a ident))"
    and classify_ok: "inv s \<Longrightarrow> fst (classify s a ident) = Inr fs \<Longrightarrow> risks_ok fs"
begin

lemma safe_run_ok:
  assumes "inv s" "safe_run q (fst (classify s a ident)) = Inr fs"
  shows "risks_ok fs"
  using assms classify_ok[OF assms(1)]
  by (auto simp: safe_run_def classifier_error_ok split: sum.splits if_splits)

text \<open>A sequence of calls, each through \<open>safe_run\<close>.\<close>

fun run_all :: "'s \<Rightarrow> (action \<times> identity option) list \<Rightarrow> classifier_result list \<times> 's" where
  "run_all s [] = ([], s)"
| "run_all s ((a, ident) # xs) = (let (r, s') = classify s a ident; (rs, s'') = run_all s' xs in
     (safe_run [] r # rs, s''))"

lemma run_all_ok:
  "inv s \<Longrightarrow> inv (snd (run_all s xs)) \<and> (\<forall>fs. Inr fs \<in> set (fst (run_all s xs)) \<longrightarrow> risks_ok fs)"
proof (induction xs arbitrary: s)
  case Nil
  then show ?case by simp
next
  case (Cons x xs)
  obtain a ident where x: "x = (a, ident)" by (cases x)
  obtain r s' where c: "classify s a ident = (r, s')" by fastforce
  have "inv s'" using classify_inv[OF Cons.prems, of a ident] c by simp
  from Cons.IH[OF this] show ?case
    using safe_run_ok[OF Cons.prems, of "[]" a ident] c by (auto simp: x split: prod.splits dest!: sym[of "Inr _"])
qed

end

end
