(* ===== verification/IntentClassifier.thy ===== *)
theory IntentClassifier
  imports Classifier
begin

text \<open>
  src/src/sentinel/classifiers/intent_classifier.py. The optional embedding provider is a
  parameter: its answer to a pair of strings, or the exception it raises. A Python set of
  tokens is a list without repetition; only its size and its members are read.
\<close>

type_synonym embedding = "string \<Rightarrow> string \<Rightarrow> rat result"

record intent_config =
  min_similarity_for_match :: rat
  hard_drift_threshold :: rat

definition default_intent_config :: intent_config where
  "default_intent_config = \<lparr>min_similarity_for_match = fl (45/100), hard_drift_threshold = fl (20/100)\<rparr>"

fun intent_hints :: "action_type \<Rightarrow> string list" where
  "intent_hints FILE_WRITE = [''write'', ''save'', ''create'', ''update'', ''edit'', ''modify'']"
| "intent_hints FILE_READ = [''read'', ''load'', ''open'', ''fetch'', ''review'']"
| "intent_hints HTTP_REQUEST = [''request'', ''fetch'', ''post'', ''get'', ''call'', ''api'']"
| "intent_hints SHELL_COMMAND = [''run'', ''execute'', ''shell'', ''command'']"
| "intent_hints CODE_EXECUTION = [''execute'', ''run'', ''evaluate'', ''compute'']"
| "intent_hints PAYMENT = [''pay'', ''charge'', ''refund'', ''transfer'', ''purchase'']"
| "intent_hints DATABASE_QUERY = [''query'', ''select'', ''insert'', ''update'', ''delete'']"
| "intent_hints _ = []"

section \<open>Tokens\<close>

definition word_char :: "char \<Rightarrow> bool" where
  "word_char c = (let n = (of_char c :: nat) in 65 \<le> n \<and> n \<le> 90 \<or> 97 \<le> n \<and> n \<le> 122 \<or> n = 95)"

lemma dropWhile_shorter: "dropWhile P s = c # cs \<Longrightarrow> length (dropWhile Q cs) < length s"
  using length_dropWhile_le[of P s] length_dropWhile_le[of Q cs] by simp

text \<open>\<open>re.findall\<close> of the character class: the maximal runs, left to right.\<close>

function word_runs :: "string \<Rightarrow> string list" where
  "word_runs s = (case dropWhile (\<lambda>c. \<not> word_char c) s of [] \<Rightarrow> []
   | c # cs \<Rightarrow> (c # takeWhile word_char cs) # word_runs (dropWhile word_char cs))"
  by pat_completeness auto

termination
  by (relation "measure length") (auto dest: dropWhile_shorter)

declare word_runs.simps [simp del]

definition tokenize :: "string \<Rightarrow> string list" where
  "tokenize s = map lower (word_runs s)"

definition tool_sep :: "char \<Rightarrow> bool" where
  "tool_sep c \<longleftrightarrow> c = CHR ''.'' \<or> c = CHR ''_'' \<or> c = CHR ''-'' \<or> c = CHR ''/''"

text \<open>\<open>re.split\<close> on a class of single characters.\<close>

fun split_by :: "(char \<Rightarrow> bool) \<Rightarrow> string \<Rightarrow> string list" where
  "split_by p [] = [[]]"
| "split_by p (c # cs) = (if p c then [] # split_by p cs
     else (case split_by p cs of [] \<Rightarrow> [[c]] | w # ws \<Rightarrow> (c # w) # ws))"

definition split_tool_tokens :: "string \<Rightarrow> string list" where
  "split_tool_tokens tool = filter (\<lambda>p. p \<noteq> []) (split_by tool_sep tool)"

section \<open>classify\<close>

definition tool_tokens :: "action \<Rightarrow> string list" where
  "tool_tokens a = (if truthy (act_tool a)
     then map lower (filter (\<lambda>t. 2 < length t) (split_tool_tokens (or_empty (act_tool a)))) else [])"

definition all_hints :: "action \<Rightarrow> string list" where
  "all_hints a = remdups (intent_hints (act_type a) @ tool_tokens a)"

definition lexical_overlap :: "string list \<Rightarrow> string list \<Rightarrow> rat" where
  "lexical_overlap tokens hints =
     (if hints = [] then 1/2
      else fl (of_nat (length (filter (\<lambda>h. h \<in> set tokens) hints)) / of_nat (max (length hints) 1)))"

definition semantic_overlap :: "embedding option \<Rightarrow> action \<Rightarrow> string \<Rightarrow> rat \<Rightarrow> rat result" where
  "semantic_overlap emb a declared lexical = (case emb of
     None \<Rightarrow> Inr lexical
   | Some similarity \<Rightarrow>
       if truthy (act_tool a) then similarity declared (or_empty (act_tool a)) else Inr lexical)"

definition combined_overlap :: "rat \<Rightarrow> rat \<Rightarrow> rat" where
  "combined_overlap lexical semantic = fl (fl (lexical + semantic) / 2)"

definition shares_substring :: "string list \<Rightarrow> string list \<Rightarrow> bool" where
  "shares_substring tokens hints \<longleftrightarrow>
     list_ex (\<lambda>a. list_ex (\<lambda>b. 4 \<le> length a \<and> 4 \<le> length b \<and> (contains_str a b \<or> contains_str b a)) hints) tokens"

text \<open>The escape for tool-name-only hints: a short intent that shares nothing is let through.\<close>

definition tool_only_pass :: "embedding option \<Rightarrow> action \<Rightarrow> string list \<Rightarrow> string list \<Rightarrow> bool" where
  "tool_only_pass emb a tokens hints \<longleftrightarrow>
     intent_hints (act_type a) = [] \<and> emb = None \<and> length tokens \<le> 4 \<and> \<not> shares_substring tokens hints"

definition missing_intent :: "risk_factor result" where
  "missing_intent = mk_risk_factor ''intent.missing'' (fl (25/100)) ''intent_classifier''
     ''Action submitted without declared intent.'' [(''references'', ''OWASP-AGENT-01'')]"

definition drift_factor :: "intent_config \<Rightarrow> action \<Rightarrow> string \<Rightarrow> rat \<Rightarrow> rat \<Rightarrow> risk_factor result" where
  "drift_factor cfg a declared lexical semantic =
     (let combined = combined_overlap lexical semantic in
      mk_risk_factor
        (if combined \<le> hard_drift_threshold cfg then ''intent.hard_drift'' else ''intent.soft_drift'')
        (py_round 3 (min 1 (fl (1 - combined)))) ''intent_classifier''
        (''Declared intent does not align with the action being taken. '' @
         ''Possible goal hijacking or prompt-driven redirection.'')
        [(''intent'', take 200 declared), (''action_type'', action_type_value (act_type a)),
         (''tool'', or_empty (act_tool a)), (''lexical_overlap'', fmt_fixed 3 lexical),
         (''semantic_overlap'', fmt_fixed 3 semantic), (''references'', ''OWASP-AGENT-01'')])"

definition intent_classify ::
  "embedding option \<Rightarrow> intent_config \<Rightarrow> action \<Rightarrow> identity option \<Rightarrow> classifier_result" where
  "intent_classify emb cfg a ident =
     (let intent_text = strip (or_empty (intent a)) in
      if intent_text = [] then one_factor missing_intent
      else
        (let hints = all_hints a;
             tokens = remdups (tokenize intent_text);
             lexical = lexical_overlap tokens hints in
         bindR (semantic_overlap emb a intent_text lexical) (\<lambda>semantic.
           if min_similarity_for_match cfg \<le> combined_overlap lexical semantic then Inr []
           else if tool_only_pass emb a tokens hints then Inr []
           else one_factor (drift_factor cfg a intent_text lexical semantic))))"

section \<open>The classifier is a risk classifier\<close>

lemma missing_intent_ok: "one_factor missing_intent = Inr fs \<Longrightarrow> risks_ok fs"
  unfolding missing_intent_def by (erule one_factor_ok) simp

lemma drift_factor_ok: "one_factor (drift_factor cfg a d lexical semantic) = Inr fs \<Longrightarrow> risks_ok fs"
  unfolding drift_factor_def Let_def by (erule one_factor_ok) simp

lemma intent_classify_ok:
  assumes "intent_classify emb cfg a ident = Inr fs"
  shows "risks_ok fs"
proof (cases "strip (or_empty (intent a)) = []")
  case True
  then show ?thesis using assms by (simp add: intent_classify_def missing_intent_ok)
next
  case False
  let ?d = "strip (or_empty (intent a))"
  let ?lex = "lexical_overlap (remdups (tokenize ?d)) (all_hints a)"
  from False assms obtain semantic where
    "fs = [] \<or> one_factor (drift_factor cfg a ?d ?lex semantic) = Inr fs"
    unfolding intent_classify_def Let_def by (auto simp: bindR_Inr_iff split: if_splits)
  then show ?thesis by (auto dest: drift_factor_ok)
qed

interpretation intent_classifier: risk_classifier
  "\<lambda>cfg a ident. (intent_classify emb cfg a ident, cfg)" "\<lambda>_. True" for emb
  by unfold_locales (auto dest: intent_classify_ok)

section \<open>Tokens are what the regular expressions find\<close>

lemma word_runs_sound: "w \<in> set (word_runs s) \<Longrightarrow> w \<noteq> [] \<and> list_all word_char w"
proof (induction s rule: word_runs.induct)
  case (1 s)
  show ?case
  proof (cases "dropWhile (\<lambda>c. \<not> word_char c) s")
    case Nil
    then have "word_runs s = []" by (subst word_runs.simps) (simp only: list.case)
    then show ?thesis using 1(2) by simp
  next
    case (Cons c cs)
    have "word_char c" using hd_dropWhile[of "\<lambda>c. \<not> word_char c" s] Cons by simp
    moreover have "list_all word_char (takeWhile word_char cs)"
      by (auto simp: list_all_iff dest: set_takeWhileD)
    ultimately show ?thesis using 1(1)[OF Cons] 1(2) Cons by (auto simp: word_runs.simps[of s])
  qed
qed

text \<open>No character of a word is lost: the runs, joined, are the string without its separators.\<close>

lemma concat_word_runs: "concat (word_runs s) = filter word_char s"
proof (induction s rule: word_runs.induct)
  case (1 s)
  have skip: "filter word_char s = filter word_char (dropWhile (\<lambda>c. \<not> word_char c) s)"
    by (induction s) auto
  show ?case
  proof (cases "dropWhile (\<lambda>c. \<not> word_char c) s")
    case Nil
    then have "word_runs s = []" by (subst word_runs.simps) (simp only: list.case)
    then show ?thesis using skip Nil by simp
  next
    case (Cons c cs)
    have "word_char c" using hd_dropWhile[of "\<lambda>c. \<not> word_char c" s] Cons by simp
    moreover have "filter word_char cs = takeWhile word_char cs @ filter word_char (dropWhile word_char cs)"
      by (induction cs) auto
    ultimately show ?thesis using 1[OF Cons] Cons by (subst skip, simp add: word_runs.simps[of s])
  qed
qed

lemma split_by_sound: "w \<in> set (split_by p s) \<Longrightarrow> list_all (\<lambda>c. \<not> p c) w"
proof (induction s arbitrary: w)
  case (Cons c s)
  then show ?case by (cases "split_by p s") (auto split: if_splits)
qed simp

lemma concat_split_by: "concat (split_by p s) = filter (\<lambda>c. \<not> p c) s"
proof (induction s)
  case (Cons c s)
  then show ?case by (cases "split_by p s") auto
qed simp

section \<open>Severity of a drift\<close>

lemma combined_is_double [simp]: "is_double (combined_overlap l m)"
  by (simp add: combined_overlap_def)

lemma drift_severity:
  assumes "drift_factor cfg a d l m = Inr f" "combined_overlap l m \<le> c"
  shows "py_round 3 (min 1 (fl (1 - c))) \<le> severity f"
  using assms
  by (auto simp: drift_factor_def Let_def mk_risk_factor_Inr_iff
      intro!: py_round_mono min.mono fl_mono)

lemma drift_code:
  assumes "drift_factor cfg a d l m = Inr f"
  shows "rf_code f = (if combined_overlap l m \<le> hard_drift_threshold cfg then ''intent.hard_drift'' else ''intent.soft_drift'')"
  using assms by (auto simp: drift_factor_def Let_def mk_risk_factor_Inr_iff)

lemma soft_bound: "fl (55/100) \<le> py_round 3 (min 1 (fl (1 - fl (45/100))))" by code_simp

lemma hard_bound: "fl (80/100) \<le> py_round 3 (min 1 (fl (1 - fl (20/100))))" by code_simp

text \<open>
  What the classifier answers, whatever embedding provider is plugged in: nothing; the
  missing-intent factor for a blank intent; or one drift factor, whose severity is at least
  0.55, the pipeline's threshold for escalating, and at least 0.8 for a hard drift.
\<close>

theorem intent_verdicts:
  assumes "intent_classify emb default_intent_config a ident = Inr fs"
  shows "(strip (or_empty (intent a)) = [] \<and> one_factor missing_intent = Inr fs) \<or>
    (strip (or_empty (intent a)) \<noteq> [] \<and>
      (fs = [] \<or> (\<exists>f. fs = [f] \<and>
         (rf_code f = ''intent.soft_drift'' \<and> fl (55/100) \<le> severity f \<or>
          rf_code f = ''intent.hard_drift'' \<and> fl (80/100) \<le> severity f))))"
proof (cases "strip (or_empty (intent a)) = []")
  case True
  then show ?thesis using assms by (simp add: intent_classify_def)
next
  case False
  let ?d = "strip (or_empty (intent a))"
  let ?lex = "lexical_overlap (remdups (tokenize ?d)) (all_hints a)"
  from False assms obtain semantic where
    "fs = [] \<or> \<not> fl (45/100) \<le> combined_overlap ?lex semantic \<and>
       one_factor (drift_factor default_intent_config a ?d ?lex semantic) = Inr fs"
    unfolding intent_classify_def Let_def
    by (auto simp: bindR_Inr_iff default_intent_config_def split: if_splits)
  then consider "fs = []" | f where "fs = [f]" "drift_factor default_intent_config a ?d ?lex semantic = Inr f"
      "combined_overlap ?lex semantic \<le> fl (45/100)"
    by (auto simp: one_factor_Inr_iff)
  then show ?thesis
  proof cases
    case (2 f)
    show ?thesis
    proof (cases "combined_overlap ?lex semantic \<le> fl (20/100)")
      case True
      then show ?thesis using drift_severity[OF 2(2) True] hard_bound drift_code[OF 2(2)] 2(1) False
        by (simp add: default_intent_config_def)
    next
      case soft: False
      then show ?thesis using drift_severity[OF 2(2,3)] soft_bound drift_code[OF 2(2)] 2(1) False
        by (simp add: default_intent_config_def)
    qed
  qed (simp add: False)
qed

theorem intent_verdicts_witness:
  "\<exists>fs. intent_classify (Some (\<lambda>_ _. Inr 0)) default_intent_config (example_action PAYMENT (Some ''pay'') []) None = Inr fs \<and>
     (\<forall>f \<in> set fs. fl (55/100) \<le> severity f)"
proof -
  let ?a = "example_action PAYMENT (Some ''pay'') []"
  have "isl (intent_classify (Some (\<lambda>_ _. Inr 0)) default_intent_config ?a None) = False" by code_simp
  then obtain fs where fs: "intent_classify (Some (\<lambda>_ _. Inr 0)) default_intent_config ?a None = Inr fs"
    by (cases "intent_classify (Some (\<lambda>_ _. Inr 0)) default_intent_config ?a None") auto
  have i: "strip (or_empty (intent ?a)) \<noteq> []" by code_simp
  have b: "fl (55/100) \<le> fl (80/100)" by code_simp
  from intent_verdicts[OF fs] i b have "\<forall>f \<in> set fs. fl (55/100) \<le> severity f" by fastforce
  with fs show ?thesis by blast
qed

end
