(* ===== verification/ToolValidator.thy ===== *)
theory ToolValidator
  imports Classifier Registry
begin

text \<open>
  src/src/sentinel/classifiers/tool_validator.py: the tool registry and the validator in
  front of it. \<^verbatim>\<open>jsonschema.validate\<close> is the parameter \<open>schema_check\<close>; the values of
  its answer are the outcomes the code distinguishes.
\<close>

record tool_spec =
  ts_name :: string
  ts_capability :: string
  args_schema :: "(string, pyval) pydict"
  quarantined :: bool
  sensitivity :: rat

text \<open>The constructor with its two aliases; \<open>arg_schema or {}\<close> maps \<^verbatim>\<open>None\<close> to the empty schema.\<close>

definition new_tool_spec ::
  "string \<Rightarrow> string \<Rightarrow> (string, pyval) pydict option \<Rightarrow> (string, pyval) pydict option \<Rightarrow> bool \<Rightarrow>
   rat option \<Rightarrow> bool option \<Rightarrow> tool_spec" where
  "new_tool_spec name cap schema schema_alias q sens sens_alias =
     \<lparr>ts_name = name, ts_capability = cap,
      args_schema = (case schema of Some s \<Rightarrow> s
        | None \<Rightarrow> (case schema_alias of Some s \<Rightarrow> s | None \<Rightarrow> [])),
      quarantined = q,
      sensitivity = (case sens of Some x \<Rightarrow> x
        | None \<Rightarrow> (case sens_alias of Some b \<Rightarrow> if b then 1 else 0 | None \<Rightarrow> 0))\<rparr>"

type_synonym tool_registry = "(string, tool_spec) pydict"

definition tool_register :: "tool_spec \<Rightarrow> tool_registry \<Rightarrow> tool_registry" where
  "tool_register spec tools = dict_set (ts_name spec) spec tools"

definition tool_get :: "tool_registry \<Rightarrow> string \<Rightarrow> tool_spec option" where
  "tool_get tools name = map_of tools name"

definition new_tool_registry :: "tool_spec list \<Rightarrow> tool_registry" where
  "new_tool_registry specs = fold tool_register specs []"

interpretation tool_store: keyed_store tool_get tool_register ts_name
  by unfold_locales (simp add: tool_get_def tool_register_def)

datatype schema_outcome =
    Schema_ok
  | Schema_violation string "pyval list"
  | Schema_raises exn

type_synonym schema_check = "(string, pyval) pydict \<Rightarrow> (string, pyval) pydict \<Rightarrow> schema_outcome"

definition unknown_tool :: "string \<Rightarrow> risk_factor result" where
  "unknown_tool name = mk_risk_factor ''tool.unknown'' (fl (70/100)) ''tool_validator''
     (''Tool '' @ quoted name @ '' is not registered with sentinel.'') [(''references'', ''OWASP-AGENT-03'')]"

definition quarantined_tool :: "tool_spec \<Rightarrow> risk_factor result" where
  "quarantined_tool spec = mk_risk_factor ''tool.quarantined'' (fl (95/100)) ''tool_validator''
     (''Tool '' @ quoted (ts_name spec) @ '' is currently quarantined.'')
     [(''references'', ''OWASP-AGENT-03,OWASP-AGENT-06'')]"

definition missing_capability :: "identity \<Rightarrow> tool_spec \<Rightarrow> risk_factor result" where
  "missing_capability i spec = mk_risk_factor ''tool.no_capability'' (max (fl (60/100)) (sensitivity spec))
     ''tool_validator''
     (''Identity '' @ did i @ '' lacks capability '' @ quoted (ts_capability spec) @
      '' required to invoke '' @ quoted (ts_name spec) @ ''.'')
     [(''required_capability'', ts_capability spec), (''references'', ''OWASP-AGENT-04'')]"

definition invalid_args :: "tool_spec \<Rightarrow> string \<Rightarrow> pyval list \<Rightarrow> risk_factor result" where
  "invalid_args spec msg path = mk_risk_factor ''tool.args_invalid'' (fl (80/100)) ''tool_validator''
     (''Tool arguments failed schema validation: '' @ msg)
     [(''tool'', ts_name spec), (''error_path'', join ''/'' (map py_str path)), (''references'', ''OWASP-AGENT-03'')]"

definition capability_factors :: "datetime \<Rightarrow> tool_spec \<Rightarrow> identity option \<Rightarrow> classifier_result" where
  "capability_factors now spec ident = (case ident of
     Some i \<Rightarrow> if \<not> has_capability now i (ts_capability spec) None
       then one_factor (missing_capability i spec) else Inr []
   | None \<Rightarrow> Inr [])"

definition schema_factors :: "schema_check \<Rightarrow> tool_spec \<Rightarrow> action \<Rightarrow> classifier_result" where
  "schema_factors check spec a =
     (if args_schema spec = [] then Inr []
      else (case check (arguments a) (args_schema spec) of
        Schema_ok \<Rightarrow> Inr []
      | Schema_violation msg path \<Rightarrow> one_factor (invalid_args spec msg path)
      | Schema_raises e \<Rightarrow> Inl e))"

definition tool_validate ::
  "schema_check \<Rightarrow> datetime \<Rightarrow> tool_registry \<Rightarrow> action \<Rightarrow> identity option \<Rightarrow> classifier_result" where
  "tool_validate check now tools a ident =
     (if \<not> truthy (act_tool a) then Inr []
      else (case tool_get tools (or_empty (act_tool a)) of
        None \<Rightarrow> one_factor (unknown_tool (or_empty (act_tool a)))
      | Some spec \<Rightarrow>
          if quarantined spec then one_factor (quarantined_tool spec)
          else bindR (capability_factors now spec ident) (\<lambda>fs.
               bindR (schema_factors check spec a) (\<lambda>gs. Inr (fs @ gs)))))"

lemmas tool_factor_defs = unknown_tool_def quarantined_tool_def missing_capability_def invalid_args_def

section \<open>The validator is a risk classifier\<close>

text \<open>Every registered sensitivity is a float.\<close>

definition tools_ok :: "tool_registry \<Rightarrow> bool" where
  "tools_ok tools \<longleftrightarrow> (\<forall>n spec. tool_get tools n = Some spec \<longrightarrow> is_double (sensitivity spec))"

lemma tools_ok_register: "tools_ok tools \<Longrightarrow> is_double (sensitivity spec) \<Longrightarrow> tools_ok (tool_register spec tools)"
  by (auto simp: tools_ok_def tool_store.get_put split: if_splits)

lemma capability_factors_ok:
  "capability_factors now spec ident = Inr fs \<Longrightarrow> is_double (sensitivity spec) \<Longrightarrow> risks_ok fs"
  by (auto simp: capability_factors_def tool_factor_defs split: option.splits if_splits dest!: one_factor_ok)

lemma schema_factors_ok: "schema_factors check spec a = Inr fs \<Longrightarrow> risks_ok fs"
  by (auto simp: schema_factors_def tool_factor_defs split: if_splits schema_outcome.splits dest!: one_factor_ok)

lemma tool_validate_ok:
  assumes "tools_ok tools" "tool_validate check now tools a ident = Inr fs"
  shows "risks_ok fs"
proof (cases "tool_get tools (or_empty (act_tool a))")
  case None
  with assms show ?thesis
    by (auto simp: tool_validate_def tool_factor_defs split: if_splits dest!: one_factor_ok)
next
  case (Some spec)
  then have "is_double (sensitivity spec)" using assms(1) by (auto simp: tools_ok_def)
  with Some assms(2) show ?thesis
    by (auto simp: tool_validate_def quarantined_tool_def bindR_Inr_iff split: if_splits
        dest!: one_factor_ok schema_factors_ok capability_factors_ok)
qed

interpretation tool_classifier: risk_classifier
  "\<lambda>tools a ident. (tool_validate check now tools a ident, tools)" tools_ok for check now
  by unfold_locales (auto dest: tool_validate_ok)

section \<open>Properties\<close>

lemma one_factor_not_Nil [simp]: "one_factor r \<noteq> Inr []"
  by (auto simp: one_factor_Inr_iff)



definition example_tool :: "bool \<Rightarrow> tool_spec" where
  "example_tool q = new_tool_spec ''db.query'' ''db.read'' None None q None (Some False)"



text \<open>
  An action on a tool nobody registered, or on a quarantined one, always gets exactly one
  factor, of severity 0.7 or 0.95, whoever acts and whatever the arguments; registering the
  tool again, as it is, under its name replaces the quarantine.
\<close>

theorem unusable_tool_flagged:
  assumes "act_tool a = Some n" "n \<noteq> []"
  shows "(tool_get tools n = None \<longrightarrow> (\<exists>f. tool_validate check now tools a ident = Inr [f] \<and>
            rf_code f = ''tool.unknown'' \<and> severity f = fl (70/100))) \<and>
    (\<forall>spec. ts_name spec = n \<and> quarantined spec \<longrightarrow>
       (\<exists>f. tool_validate check now (tool_register spec tools) a ident = Inr [f] \<and>
            rf_code f = ''tool.quarantined'' \<and> severity f = fl (95/100))) \<and>
    (\<forall>spec. ts_name spec = n \<and> \<not> quarantined spec \<and> args_schema spec = [] \<longrightarrow>
       tool_validate check now (tool_register spec tools) a None = Inr [])"
  using assms tool_store.get_put
  by (auto simp: tool_validate_def one_factor_def unknown_tool_def quarantined_tool_def mk_risk_factor_def
      risk_simps capability_factors_def schema_factors_def)

theorem unusable_tool_flagged_witness:
  "(\<exists>f. tool_validate (\<lambda>_ _. Schema_ok) 0 (tool_register (example_tool True) []) (example_action TOOL_CALL (Some ''db.query'') [])
      None = Inr [f] \<and> severity f = fl (95/100)) \<and>
   tool_validate (\<lambda>_ _. Schema_ok) 0 (tool_register (example_tool False) []) (example_action TOOL_CALL (Some ''db.query'') [])
      None = Inr []"
proof -
  have t: "act_tool (example_action TOOL_CALL (Some ''db.query'') []) = Some ''db.query''" "''db.query'' \<noteq> ([] :: string)"
    by (simp_all add: example_action_def)
  have s: "ts_name (example_tool q) = ''db.query''" "quarantined (example_tool q) = q"
    "args_schema (example_tool q) = []" for q
    by (simp_all add: example_tool_def new_tool_spec_def)
  note flagged = unusable_tool_flagged[OF t, of "[]" "\<lambda>_ _. Schema_ok" 0 None]
  show ?thesis
    using spec[OF conjunct1[OF conjunct2[OF flagged]], of "example_tool True"]
      spec[OF conjunct2[OF conjunct2[OF flagged]], of "example_tool False"] s
    by auto
qed

end
