(* ===== verification/AnomalyDetector.thy ===== *)
theory AnomalyDetector
  imports Classifier
begin

text \<open>
  src/src/sentinel/classifiers/anomaly_detector.py: the per-agent sliding windows and the
  detector that reads and then records. A window is the queue of observations, oldest first,
  and its horizon; times are readings of the monotonic clock. \<^verbatim>\<open>math.log10\<close> is the
  parameter \<open>log10\<close>, a function on floats that is nonnegative from 1 on.
\<close>

type_synonym observation = "rat \<times> string \<times> string"

record window =
  win_actions :: "observation list"
  horizon_seconds :: rat

record baseline_store =
  windows :: "(string, window) pydict"
  store_horizon :: rat

definition new_baseline_store :: "rat \<Rightarrow> baseline_store" where
  "new_baseline_store h = \<lparr>windows = [], store_horizon = h\<rparr>"

text \<open>\<^verbatim>\<open>setdefault\<close>: an absent agent gets an empty window, which is stored.\<close>

definition get_window :: "string \<Rightarrow> baseline_store \<Rightarrow> window \<times> baseline_store" where
  "get_window d st = (case map_of (windows st) d of
     Some w \<Rightarrow> (w, st)
   | None \<Rightarrow> (let w = \<lparr>win_actions = [], horizon_seconds = store_horizon st\<rparr> in
       (w, st\<lparr>windows := dict_set d w (windows st)\<rparr>)))"

fun evict :: "rat \<Rightarrow> observation list \<Rightarrow> observation list" where
  "evict cutoff [] = []"
| "evict cutoff (x # xs) = (if fst x < cutoff then evict cutoff xs else x # xs)"

definition observation_of :: "rat \<Rightarrow> action \<Rightarrow> observation" where
  "observation_of now a = (now, action_type_value (act_type a), or_empty (act_tool a))"

definition record_observation :: "rat \<Rightarrow> string \<Rightarrow> action \<Rightarrow> baseline_store \<Rightarrow> baseline_store" where
  "record_observation now d a st0 = (let (w, st) = get_window d st0;
     w' = w\<lparr>win_actions := evict (fl (now - horizon_seconds w)) (win_actions w @ [observation_of now a])\<rparr>
     in st\<lparr>windows := dict_set d w' (windows st)\<rparr>)"

record anomaly_config =
  spike_factor :: rat
  rare_tool_min :: int

definition default_anomaly_config :: anomaly_config where
  "default_anomaly_config = \<lparr>spike_factor = 4, rare_tool_min = 25\<rparr>"

definition window_rate :: "window \<Rightarrow> rat" where
  "window_rate w = fl (of_nat (length (win_actions w)) / max (horizon_seconds w) 1)"

definition rate_factors :: "(rat \<Rightarrow> rat) \<Rightarrow> anomaly_config \<Rightarrow> window \<Rightarrow> classifier_result" where
  "rate_factors log10 cfg w =
     (let n = length (win_actions w); rate = window_rate w in
      if 50 < n \<and> fl (spike_factor cfg * fl (1/60)) < rate then
        one_factor (mk_risk_factor ''anomaly.rate_spike'' (min 1 (fl (log10 (fl (rate + 1)) / 2)))
          ''anomaly_detector'' ''Agent action rate exceeded expected baseline.''
          [(''actions_in_window'', str_int (int n)), (''rate_per_sec'', fmt_fixed 3 rate),
           (''references'', ''OWASP-AGENT-05,OWASP-AGENT-09'')])
      else Inr [])"

definition novel_tool_factors :: "anomaly_config \<Rightarrow> window \<Rightarrow> action \<Rightarrow> classifier_result" where
  "novel_tool_factors cfg w a =
     (if truthy (act_tool a) then
        (let n = length (win_actions w);
             seen = length (filter (\<lambda>(_, _, tool). tool = or_empty (act_tool a)) (win_actions w)) in
         if rare_tool_min cfg \<le> int n \<and> seen = 0 then
           one_factor (mk_risk_factor ''anomaly.novel_tool'' (fl (40/100)) ''anomaly_detector''
             (''First observed use of tool '' @ quoted (or_empty (act_tool a)) @ '' by this agent.'')
             [(''tool'', or_empty (act_tool a)), (''window_size'', str_int (int n)),
              (''references'', ''OWASP-AGENT-05'')])
         else Inr [])
      else Inr [])"

definition anomaly_score ::
  "(rat \<Rightarrow> rat) \<Rightarrow> anomaly_config \<Rightarrow> rat \<Rightarrow> action \<Rightarrow> baseline_store \<Rightarrow> classifier_result \<times> baseline_store" where
  "anomaly_score log10 cfg now a st0 = (let (w, st) = get_window (agent_did a) st0 in
     case bindR (rate_factors log10 cfg w) (\<lambda>fs.
          bindR (novel_tool_factors cfg w a) (\<lambda>gs. Inr (fs @ gs))) of
       Inl e \<Rightarrow> (Inl e, st)
     | Inr fs \<Rightarrow> (Inr fs, record_observation now (agent_did a) a st))"

section \<open>The windows\<close>

declare map_of_eq_Some_iff [simp del]

lemma evict_dropWhile: "evict c xs = dropWhile (\<lambda>x. fst x < c) xs"
  by (induction xs) auto

text \<open>The observations of one agent are in the order of the clock and inside its horizon.\<close>

definition win_ok :: "rat \<Rightarrow> window \<Rightarrow> bool" where
  "win_ok now w \<longleftrightarrow> sorted (map fst (win_actions w)) \<and> (\<forall>x \<in> set (win_actions w). fst x \<le> now)"

definition store_ok :: "rat \<Rightarrow> baseline_store \<Rightarrow> bool" where
  "store_ok now st \<longleftrightarrow> dict_wf (windows st) \<and>
     (\<forall>d w. map_of (windows st) d = Some w \<longrightarrow> win_ok now w \<and> horizon_seconds w = store_horizon st)"

lemma store_ok_new: "store_ok now (new_baseline_store h)"
  by (simp add: store_ok_def new_baseline_store_def)

lemma win_ok_later: "win_ok now w \<Longrightarrow> now \<le> t \<Longrightarrow> win_ok t w"
  by (auto simp: win_ok_def)

lemma store_ok_later: "store_ok now st \<Longrightarrow> now \<le> t \<Longrightarrow> store_ok t st"
  by (auto simp: store_ok_def intro: win_ok_later)

lemma sorted_evict: "sorted (map fst xs) \<Longrightarrow> sorted (map fst (evict c xs))"
  by (induction xs) auto

lemma evict_subset: "set (evict c xs) \<subseteq> set xs"
  by (induction xs) auto

lemma evict_sorted_filter:
  "sorted (map fst xs) \<Longrightarrow> evict c xs = filter (\<lambda>x. c \<le> fst x) xs"
proof (induction xs)
  case (Cons x xs)
  then show ?case by (auto simp: filter_id_conv intro!: filter_True[symmetric])
qed simp

lemma get_window_store:
  "snd (get_window d st) = st \<or> map_of (windows st) d = None \<and>
     snd (get_window d st) = st\<lparr>windows := dict_set d \<lparr>win_actions = [], horizon_seconds = store_horizon st\<rparr> (windows st)\<rparr>"
  by (simp add: get_window_def Let_def split: option.splits)

lemma get_window_same: "map_of (windows (snd (get_window d st))) d = Some (fst (get_window d st))"
  by (simp add: get_window_def Let_def split: option.splits)

lemma get_window_ok:
  assumes "store_ok now st"
  shows "store_ok now (snd (get_window d st)) \<and> win_ok now (fst (get_window d st)) \<and>
    horizon_seconds (fst (get_window d st)) = store_horizon st"
  using assms by (auto simp: store_ok_def get_window_def win_ok_def Let_def dict_wf_set split: option.splits)

lemma get_window_horizon [simp]: "store_horizon (snd (get_window d st)) = store_horizon st"
  by (simp add: get_window_def Let_def split: option.splits)

lemma get_window_twice: "get_window d (snd (get_window d st)) = get_window d st"
  by (simp add: get_window_def Let_def split: option.splits)

lemma window_appended_ok:
  assumes "win_ok now w"
  shows "win_ok now (w\<lparr>win_actions := evict c (win_actions w @ [observation_of now a])\<rparr>)"
proof -
  have "sorted (map fst (win_actions w @ [observation_of now a]))"
    using assms by (auto simp: win_ok_def sorted_append observation_of_def)
  moreover have "\<forall>x \<in> set (win_actions w @ [observation_of now a]). fst x \<le> now"
    using assms by (auto simp: win_ok_def observation_of_def)
  ultimately show ?thesis
    using evict_subset[of c "win_actions w @ [observation_of now a]"] sorted_evict
    by (auto simp: win_ok_def)
qed

lemma record_observation_ok:
  assumes "store_ok now st"
  shows "store_ok now (record_observation now d a st)"
  using get_window_ok[OF assms, of d]
  by (auto simp: record_observation_def split_def Let_def store_ok_def dict_wf_set window_appended_ok)

section \<open>The detector is a risk classifier\<close>

lemma rate_factors_ok: "rate_factors log10 cfg w = Inr fs \<Longrightarrow> risks_ok fs"
  by (auto simp: rate_factors_def Let_def split: if_splits dest!: one_factor_ok)

lemma novel_tool_factors_ok: "novel_tool_factors cfg w a = Inr fs \<Longrightarrow> risks_ok fs"
  by (auto simp: novel_tool_factors_def Let_def split: if_splits dest!: one_factor_ok)

lemma anomaly_score_ok:
  assumes "fst (anomaly_score log10 cfg now a st) = Inr fs"
  shows "risks_ok fs"
  using assms
  by (auto simp: anomaly_score_def Let_def bindR_Inr_iff split: prod.splits sum.splits
      dest!: rate_factors_ok novel_tool_factors_ok)

lemma anomaly_score_store:
  "store_ok now st \<Longrightarrow> store_ok now (snd (anomaly_score log10 cfg now a st))"
  using get_window_ok[of now st "agent_did a"]
  by (auto simp: anomaly_score_def Let_def record_observation_ok split: prod.splits sum.splits)

interpretation anomaly_classifier: risk_classifier
  "\<lambda>st a ident. anomaly_score log10 cfg now a st" "store_ok now" for log10 cfg now
  by unfold_locales (auto simp: anomaly_score_store dest: anomaly_score_ok)

section \<open>What a window holds\<close>

abbreviation window_of :: "string \<Rightarrow> baseline_store \<Rightarrow> observation list" where
  "window_of d st \<equiv> win_actions (fst (get_window d st))"

definition record_trace :: "(rat \<times> action) list \<Rightarrow> baseline_store \<Rightarrow> baseline_store" where
  "record_trace tr st = fold (\<lambda>(t, a). record_observation t (agent_did a) a) tr st"

text \<open>The specification: what one agent did, and the part of it that is recent.\<close>

definition history_of :: "string \<Rightarrow> (rat \<times> action) list \<Rightarrow> observation list" where
  "history_of d tr = map (\<lambda>(t, a). observation_of t a) (filter (\<lambda>(t, a). agent_did a = d) tr)"

definition recent :: "rat \<Rightarrow> observation list \<Rightarrow> observation list" where
  "recent h xs = (if xs = [] then [] else filter (\<lambda>x. fl (fst (last xs) - h) \<le> fst x) xs)"

lemma record_observation_horizon [simp]: "store_horizon (record_observation t d a st) = store_horizon st"
  by (simp add: record_observation_def split_def Let_def)

lemma record_trace_horizon [simp]: "store_horizon (record_trace tr st) = store_horizon st"
  by (induction tr arbitrary: st) (auto simp: record_trace_def)

lemma record_trace_snoc:
  "record_trace (tr @ [(t, a)]) st = record_observation t (agent_did a) a (record_trace tr st)"
  by (simp add: record_trace_def)

lemma window_of_record_other: "k \<noteq> d \<Longrightarrow> window_of k (record_observation t d a st) = window_of k st"
  by (auto simp: get_window_def record_observation_def Let_def split: option.splits prod.splits)

lemma window_of_record_same:
  assumes "store_ok t st"
  shows "window_of d (record_observation t d a st) =
    filter (\<lambda>x. fl (t - store_horizon st) \<le> fst x) (window_of d st @ [observation_of t a])"
proof -
  let ?w = "fst (get_window d st)" and ?st = "snd (get_window d st)"
  have w: "win_ok t ?w" "horizon_seconds ?w = store_horizon st" using get_window_ok[OF assms, of d] by auto
  have eq: "window_of d (record_observation t d a st) =
      evict (fl (t - horizon_seconds ?w)) (win_actions ?w @ [observation_of t a])"
    by (simp add: record_observation_def split_def Let_def get_window_def[of d "_\<lparr>windows := _\<rparr>"])
  have "sorted (map fst (win_actions ?w @ [observation_of t a]))"
    using w(1) by (auto simp: win_ok_def sorted_append observation_of_def)
  then show ?thesis unfolding eq w(2) by (rule evict_sorted_filter)
qed

lemma record_trace_ok:
  "store_ok t0 st \<Longrightarrow> sorted (t0 # map fst tr) \<Longrightarrow> store_ok (last (t0 # map fst tr)) (record_trace tr st)"
proof (induction tr rule: rev_induct)
  case Nil
  then show ?case by (simp add: record_trace_def)
next
  case (snoc p tr)
  obtain t a where p: "p = (t, a)" by (cases p)
  have s: "sorted (t0 # map fst tr)" using snoc.prems(2) by (auto simp: sorted_append)
  have "last (t0 # map fst tr) \<le> t"
    using snoc.prems(2) p by (auto simp: sorted_append last_map)
  from store_ok_later[OF snoc.IH[OF snoc.prems(1) s] this]
  show ?case by (simp add: p record_trace_snoc record_observation_ok)
qed

lemma history_of_snoc:
  "history_of d (tr @ [(t, a)]) = history_of d tr @ (if agent_did a = d then [observation_of t a] else [])"
  by (simp add: history_of_def)

lemma history_of_times: "x \<in> set (history_of d tr) \<Longrightarrow> fst x \<in> fst ` set tr"
  by (force simp: history_of_def observation_of_def)

lemma recent_snoc:
  assumes "\<forall>x \<in> set xs. fst x \<le> fst y"
  shows "filter (\<lambda>x. fl (fst y - h) \<le> fst x) (recent h xs @ [y]) = recent h (xs @ [y])"
proof (cases "xs = []")
  case False
  then have "fst (last xs) \<le> fst y" using assms by simp
  then have "fl (fst (last xs) - h) \<le> fl (fst y - h)" by (intro fl_mono) simp
  then show ?thesis using False by (auto simp: recent_def intro!: filter_cong)
qed (simp add: recent_def)

lemma window_is_recent:
  assumes "sorted (t0 # map fst tr)"
  shows "window_of d (record_trace tr (new_baseline_store h)) = recent h (history_of d tr)"
  using assms
proof (induction tr rule: rev_induct)
  case Nil
  then show ?case by (simp add: record_trace_def new_baseline_store_def get_window_def history_of_def recent_def Let_def)
next
  case (snoc p tr)
  obtain t a where p: "p = (t, a)" by (cases p)
  let ?st = "record_trace tr (new_baseline_store h)"
  have s: "sorted (t0 # map fst tr)" and le: "\<forall>u \<in> fst ` set tr. u \<le> t" and t0: "t0 \<le> t"
    using snoc.prems p by (auto simp: sorted_append)
  note IH = snoc.IH[OF s]
  show ?case
  proof (cases "agent_did a = d")
    case True
    have "store_ok (last (t0 # map fst tr)) ?st" using record_trace_ok[OF store_ok_new s] .
    moreover have "last (t0 # map fst tr) \<le> t" using le t0 by (auto simp: last_map)
    ultimately have ok: "store_ok t ?st" by (rule store_ok_later)
    have h: "store_horizon (new_baseline_store h) = h" by (simp add: new_baseline_store_def)
    have "\<forall>x \<in> set (history_of d tr). fst x \<le> fst (observation_of t a)"
      using le by (simp add: observation_of_def) (metis history_of_times image_iff)
    note recent' = recent_snoc[OF this, of h]
    have "fst (observation_of t a) = t" by (simp add: observation_of_def)
    then have "window_of d (record_observation t d a ?st) = recent h (history_of d tr @ [observation_of t a])"
      unfolding window_of_record_same[OF ok] IH record_trace_horizon h using recent' by (simp only: )
    then show ?thesis using True by (simp add: p record_trace_snoc history_of_snoc)
  next
    case False
    then show ?thesis using IH by (simp add: p record_trace_snoc history_of_snoc window_of_record_other)
  qed
qed

section \<open>Properties\<close>

text \<open>
  C25: The window of an agent is exactly its recent history: after any sequence of actions of
  any agents, recorded at times that never decrease, the window of each agent holds the
  agent's own observations, in order and all of them, that are not older than the horizon at
  the agent's last action, and no other.
\<close>

theorem window_exact:
  assumes "sorted (map fst tr)" "fst ` set tr \<subseteq> {0..}"
  shows "window_of d (record_trace tr (new_baseline_store h)) =
    (let xs = history_of d tr in
     if xs = [] then [] else filter (\<lambda>x. fl (fst (last xs) - h) \<le> fst x) xs)"
proof -
  have "sorted (0 # map fst tr)" using assms by auto
  then show ?thesis unfolding recent_def[symmetric] Let_def by (rule window_is_recent)
qed

theorem window_exact_witness:
  "window_of ''did:test:t'' (record_trace
     [(0, example_action FILE_READ None []), (200, example_action PAYMENT None []), (400, example_action OTHER None [])]
     (new_baseline_store 300)) = [(200, ''payment'', []), (400, ''other'', [])]"
proof -
  let ?tr = "[(0, example_action FILE_READ None []), (200, example_action PAYMENT None []), (400, example_action OTHER None [])]
    :: (rat \<times> action) list"
  have f: "fl 100 = 100" by (rule fl_numeral) simp
  have "sorted (map fst ?tr)" "fst ` set ?tr \<subseteq> {0..}" by simp_all
  from window_exact[OF this, of "''did:test:t''" 300] show ?thesis
    by (simp add: history_of_def observation_of_def example_action_def Let_def f)
qed

lemma rate_factors_code:
  "rate_factors log10 cfg w = Inr fs \<Longrightarrow> f \<in> set fs \<Longrightarrow> rf_code f = ''anomaly.rate_spike''"
  by (auto simp: rate_factors_def Let_def one_factor_Inr_iff mk_risk_factor_Inr_iff split: if_splits)

lemma novel_tool_factors_seen:
  "(t, ty, n) \<in> set (win_actions w) \<Longrightarrow> act_tool a = Some n \<Longrightarrow> novel_tool_factors cfg w a = Inr []"
  by (force simp: novel_tool_factors_def Let_def filter_empty_conv)

lemma observation_survives:
  assumes "is_double now" "0 \<le> h" "y \<in> set xs" "now \<le> fst y" "sorted (map fst xs)"
  shows "y \<in> set (evict (fl (now - h)) xs)"
proof -
  have "fl (now - h) \<le> fl now" using assms(2) by (intro fl_mono) simp
  also have "\<dots> \<le> fst y" using assms(1,4) by (simp add: is_double_def)
  finally show ?thesis using assms(3) evict_sorted_filter[OF assms(5)] by simp
qed

lemma score_records:
  assumes "store_ok now st" "is_double now" "0 \<le> store_horizon st"
    and "anomaly_score log10 cfg now a st = (Inr fs, st')"
  shows "observation_of now a \<in> set (window_of (agent_did a) st')"
proof -
  let ?w = "fst (get_window (agent_did a) st)"
  have st': "st' = record_observation now (agent_did a) a (snd (get_window (agent_did a) st))"
    using assms(4) by (auto simp: anomaly_score_def Let_def split: prod.splits sum.splits)
  have w: "win_ok now ?w" "horizon_seconds ?w = store_horizon st"
    using get_window_ok[OF assms(1), of "agent_did a"] by auto
  have "sorted (map fst (win_actions ?w @ [observation_of now a]))"
    using w(1) by (auto simp: win_ok_def sorted_append observation_of_def)
  from observation_survives[OF assms(2,3) _ _ this, of "observation_of now a"]
  show ?thesis
    by (simp add: st' record_observation_def split_def Let_def get_window_twice w(2)
        get_window_def[of _ "_\<lparr>windows := _\<rparr>"] observation_of_def)
qed

text \<open>
  A tool is novel only once: after the detector has scored an action of an agent, the next
  action of the same agent on the same tool is not reported as a first use, whatever the
  configuration, since the first is in its window.
\<close>

theorem novel_tool_once:
  assumes "store_ok now st" "is_double now" "0 \<le> store_horizon st"
    and "anomaly_score log10 cfg now a st = (Inr fs, st')"
    and "agent_did b = agent_did a" "act_tool b = act_tool a"
    and "fst (anomaly_score log10 cfg later b st') = Inr gs"
  shows "''anomaly.novel_tool'' \<notin> rf_code ` set gs"
proof -
  let ?w = "fst (get_window (agent_did b) st')"
  have "novel_tool_factors cfg ?w b = Inr []"
  proof (cases "act_tool b")
    case None
    then show ?thesis by (simp add: novel_tool_factors_def)
  next
    case (Some n)
    then show ?thesis using score_records[OF assms(1-4)] assms(5,6)
      by (auto simp: observation_of_def intro: novel_tool_factors_seen)
  qed
  then have "rate_factors log10 cfg ?w = Inr gs"
    using assms(7) by (auto simp: anomaly_score_def Let_def bindR_Inr_iff split: prod.splits sum.splits)
  then show ?thesis by (auto dest: rate_factors_code)
qed

theorem novel_tool_once_witness:
  "''anomaly.novel_tool'' \<notin> rf_code ` set (case fst (anomaly_score (\<lambda>x. x) default_anomaly_config 2
     (example_action FILE_READ (Some ''fs'') []) (snd (anomaly_score (\<lambda>x. x) default_anomaly_config 1
     (example_action FILE_READ (Some ''fs'') []) (new_baseline_store 300)))) of Inr gs \<Rightarrow> gs | Inl _ \<Rightarrow> [])"
proof -
  let ?a = "example_action FILE_READ (Some ''fs'') []"
  let ?r = "anomaly_score (\<lambda>x. x) default_anomaly_config 1 ?a (new_baseline_store 300)"
  have "fst ?r = Inr []" by code_simp
  then have r: "?r = (Inr [], snd ?r)" by (metis prod.collapse)
  have s: "fst (anomaly_score (\<lambda>x. x) default_anomaly_config 2 ?a (snd ?r)) = Inr []" by code_simp
  have h: "0 \<le> store_horizon (new_baseline_store 300)" by (simp add: new_baseline_store_def)
  from novel_tool_once[OF store_ok_new is_double_1 h r refl refl s] show ?thesis by (simp add: s)
qed

end
