(* ===== verification/Regex.thy ===== *)
theory Regex
  imports Prelude "HOL-Library.Char_ord"
begin

text \<open>
  The part of Python's \<^verbatim>\<open>re\<close> that the detectors' patterns use: literals, classes,
  \<open>.\<close>, \<open>\\b\<close>, sequences, alternatives and bounded or unbounded repetition, greedy or lazy,
  with or without IGNORECASE. A position is the character before it and the text after it.
  \<open>rx\<close> is the backtracking matcher: the positions a match can end at, in the order it tries
  them. \<open>rx_denotes\<close> says which matches there are, without an order; \<open>rx_correct\<close> shows that
  the matcher finds exactly these.
\<close>

datatype class_item = Range char char | Space | Decimal

datatype regex =
    Empty
  | Lit char
  | Class "class_item list"
  | Dot
  | WordBoundary
  | Seq regex regex
  | Alt regex regex
  | Rep regex nat "nat option" bool

type_synonym pos = "char option \<times> string"

section \<open>Characters\<close>

text \<open>\<open>\\w\<close> on U+0000 to U+00FF: letters, digits, numeric characters and the underscore.\<close>

definition is_word :: "char \<Rightarrow> bool" where
  "is_word c = (let n = (of_char c :: nat) in
     48 \<le> n \<and> n \<le> 57 \<or> 65 \<le> n \<and> n \<le> 90 \<or> n = 95 \<or> 97 \<le> n \<and> n \<le> 122 \<or>
     n = 170 \<or> n = 178 \<or> n = 179 \<or> n = 181 \<or> n = 185 \<or> n = 186 \<or> 188 \<le> n \<and> n \<le> 190 \<or>
     192 \<le> n \<and> n \<noteq> 215 \<and> n \<noteq> 247)"

fun in_item :: "char \<Rightarrow> class_item \<Rightarrow> bool" where
  "in_item c (Range a b) \<longleftrightarrow> a \<le> c \<and> c \<le> b"
| "in_item c Space = is_space c"
| "in_item c Decimal \<longleftrightarrow> CHR ''0'' \<le> c \<and> c \<le> CHR ''9''"

text \<open>The classes of the patterns hold both cases of a letter or no letter at all.\<close>

definition in_class :: "bool \<Rightarrow> class_item list \<Rightarrow> char \<Rightarrow> bool" where
  "in_class ci items c \<longleftrightarrow> list_ex (in_item c) items \<or> ci \<and> list_ex (in_item (lower_char c)) items"

definition char_matches :: "bool \<Rightarrow> regex \<Rightarrow> char \<Rightarrow> bool" where
  "char_matches ci r c = (case r of
     Lit l \<Rightarrow> c = l \<or> ci \<and> lower_char c = lower_char l
   | Class items \<Rightarrow> in_class ci items c
   | Dot \<Rightarrow> c \<noteq> CHR 0x0A
   | _ \<Rightarrow> False)"

definition at_boundary :: "pos \<Rightarrow> bool" where
  "at_boundary p \<longleftrightarrow>
     ((case fst p of None \<Rightarrow> False | Some c \<Rightarrow> is_word c) \<noteq> (case snd p of [] \<Rightarrow> False | c # _ \<Rightarrow> is_word c))"

section \<open>The matcher\<close>

fun char_step :: "(char \<Rightarrow> bool) \<Rightarrow> pos \<Rightarrow> pos list" where
  "char_step P (b, []) = []"
| "char_step P (b, c # s) = (if P c then [(Some c, s)] else [])"

text \<open>
  \<open>reps m k e g\<close>: \<open>k\<close> obligatory and up to \<open>e\<close> further iterations of \<open>m\<close>, the longer first
  when greedy; an optional iteration has to consume something.
\<close>

fun reps :: "(pos \<Rightarrow> pos list) \<Rightarrow> nat \<Rightarrow> nat \<Rightarrow> bool \<Rightarrow> pos \<Rightarrow> pos list" where
  "reps m (Suc k) e g p = concat (map (reps m k e g) (m p))"
| "reps m 0 0 g p = [p]"
| "reps m 0 (Suc e) g p =
     (let more = concat (map (\<lambda>q. if length (snd q) < length (snd p) then reps m 0 e g q else []) (m p))
      in if g then more @ [p] else p # more)"

fun rx :: "bool \<Rightarrow> regex \<Rightarrow> pos \<Rightarrow> pos list" where
  "rx ci Empty p = [p]"
| "rx ci (Lit c) p = char_step (char_matches ci (Lit c)) p"
| "rx ci (Class items) p = char_step (char_matches ci (Class items)) p"
| "rx ci Dot p = char_step (char_matches ci Dot) p"
| "rx ci WordBoundary p = (if at_boundary p then [p] else [])"
| "rx ci (Seq r s) p = concat (map (rx ci s) (rx ci r p))"
| "rx ci (Alt r s) p = rx ci r p @ rx ci s p"
| "rx ci (Rep r lo hi g) p =
     reps (rx ci r) lo (case hi of None \<Rightarrow> length (snd p) | Some h \<Rightarrow> h - lo) g p"

text \<open>\<open>pattern.search(text)\<close>: the text matched at the leftmost position, if any.\<close>

fun rx_search_from :: "bool \<Rightarrow> regex \<Rightarrow> char option \<Rightarrow> string \<Rightarrow> string option" where
  "rx_search_from ci r b [] = (if rx ci r (b, []) = [] then None else Some [])"
| "rx_search_from ci r b (c # s) = (case rx ci r (b, c # s) of
     q # _ \<Rightarrow> Some (take (length (c # s) - length (snd q)) (c # s))
   | [] \<Rightarrow> rx_search_from ci r (Some c) s)"

definition rx_search :: "bool \<Rightarrow> regex \<Rightarrow> string \<Rightarrow> string option" where
  "rx_search ci r s = rx_search_from ci r None s"

section \<open>Building patterns\<close>

fun lits :: "string \<Rightarrow> regex" where
  "lits [] = Empty"
| "lits (c # cs) = Seq (Lit c) (lits cs)"

fun seqs :: "regex list \<Rightarrow> regex" where
  "seqs [] = Empty"
| "seqs (r # rs) = Seq r (seqs rs)"

fun alts :: "regex list \<Rightarrow> regex" where
  "alts [] = Class []"
| "alts [r] = r"
| "alts (r # rs) = Alt r (alts rs)"

definition opt :: "regex \<Rightarrow> regex" where
  "opt r = Alt r Empty"

abbreviation plus :: "regex \<Rightarrow> regex" where
  "plus r \<equiv> Rep r 1 None True"

abbreviation star :: "regex \<Rightarrow> regex" where
  "star r \<equiv> Rep r 0 None True"

section \<open>Which matches there are\<close>

inductive rx_denotes :: "bool \<Rightarrow> regex \<Rightarrow> pos \<Rightarrow> pos \<Rightarrow> bool" for ci :: bool where
  rel_empty: "rx_denotes ci Empty p p"
| rel_char: "char_matches ci r c \<Longrightarrow> rx_denotes ci r (b, c # s) (Some c, s)"
| rel_boundary: "at_boundary p \<Longrightarrow> rx_denotes ci WordBoundary p p"
| rel_seq: "rx_denotes ci r p q \<Longrightarrow> rx_denotes ci s q t \<Longrightarrow> rx_denotes ci (Seq r s) p t"
| rel_alt1: "rx_denotes ci r p q \<Longrightarrow> rx_denotes ci (Alt r s) p q"
| rel_alt2: "rx_denotes ci s p q \<Longrightarrow> rx_denotes ci (Alt r s) p q"
| rel_stop: "rx_denotes ci (Rep r 0 hi g) p p"
| rel_again: "rx_denotes ci r p q \<Longrightarrow> hi \<noteq> Some 0 \<Longrightarrow>
    rx_denotes ci (Rep r (lo - 1) (map_option (\<lambda>h. h - 1) hi) g) q t \<Longrightarrow> rx_denotes ci (Rep r lo hi g) p t"

inductive_simps rx_denotes_simps:
  "rx_denotes ci Empty p q"
  "rx_denotes ci (Lit c) p q"
  "rx_denotes ci (Class items) p q"
  "rx_denotes ci Dot p q"
  "rx_denotes ci WordBoundary p q"
  "rx_denotes ci (Seq r s) p q"
  "rx_denotes ci (Alt r s) p q"

inductive_cases rx_denotes_RepE: "rx_denotes ci (Rep r lo hi g) p q"

text \<open>
  Patterns whose repetitions have a body that always consumes a character, and bounds in
  order: all patterns of the program. For these the progress test of \<open>reps\<close> never fails.
\<close>

fun consumes :: "regex \<Rightarrow> bool" where
  "consumes Empty = False"
| "consumes WordBoundary = False"
| "consumes (Seq r s) \<longleftrightarrow> consumes r \<or> consumes s"
| "consumes (Alt r s) \<longleftrightarrow> consumes r \<and> consumes s"
| "consumes (Rep r lo hi g) \<longleftrightarrow> 0 < lo \<and> consumes r"
| "consumes _ = True"

fun rx_wf :: "regex \<Rightarrow> bool" where
  "rx_wf (Seq r s) \<longleftrightarrow> rx_wf r \<and> rx_wf s"
| "rx_wf (Alt r s) \<longleftrightarrow> rx_wf r \<and> rx_wf s"
| "rx_wf (Rep r lo hi g) \<longleftrightarrow> rx_wf r \<and> consumes r \<and> (case hi of None \<Rightarrow> True | Some h \<Rightarrow> lo \<le> h)"
| "rx_wf _ = True"

section \<open>The matcher is correct\<close>

lemma char_step_iff: "q \<in> set (char_step P p) \<longleftrightarrow> (\<exists>b c s. p = (b, c # s) \<and> P c \<and> q = (Some c, s))"
  by (cases "(P, p)" rule: char_step.cases) auto

text \<open>What is left of the text after a match is a suffix of what was left before, a shorter one if it consumes.\<close>

lemma rx_denotes_suffix: "rx_denotes ci r p q \<Longrightarrow> \<exists>u. snd p = u @ snd q"
  by (induction rule: rx_denotes.induct) auto

lemma rx_denotes_length: "rx_denotes ci r p q \<Longrightarrow> length (snd q) \<le> length (snd p)"
  using rx_denotes_suffix by fastforce

lemma rx_denotes_consumes: "rx_denotes ci r p q \<Longrightarrow> consumes r \<Longrightarrow> length (snd q) < length (snd p)"
proof (induction rule: rx_denotes.induct)
  case (rel_seq r p q s t)
  then show ?case using rx_denotes_length[of ci r p q] rx_denotes_length[of ci s q t] by auto
next
  case (rel_again r p q hi lo g t)
  then show ?case using rx_denotes_length[OF rel_again.hyps(3)] by auto
qed auto

lemma reps_sound:
  "q \<in> set (reps m k e g p) \<Longrightarrow> \<forall>p. \<forall>q \<in> set (m p). rx_denotes ci r p q \<Longrightarrow>
    \<forall>h. hi = Some h \<longrightarrow> k + e \<le> h \<Longrightarrow> rx_denotes ci (Rep r k hi g') p q"
proof (induction m k e g p arbitrary: q hi rule: reps.induct)
  case (1 m k e g p)
  from 1(2) obtain t where t: "t \<in> set (m p)" "q \<in> set (reps m k e g t)" by auto
  have b: "\<forall>h. map_option (\<lambda>h. h - 1) hi = Some h \<longrightarrow> k + e \<le> h"
    using 1(4) by (cases hi) simp_all
  have hi: "hi \<noteq> Some 0" using 1(4) by auto
  have d: "rx_denotes ci r p t" using 1(3) t(1) by blast
  have rest: "rx_denotes ci (Rep r (Suc k - 1) (map_option (\<lambda>h. h - 1) hi) g') t q"
    using 1(1)[OF t 1(3) b] by simp
  show ?case by (rule rel_again[OF d hi rest])
next
  case (2 m g p)
  then show ?case by (simp add: rel_stop)
next
  case (3 m e g p)
  show ?case
  proof (cases "q = p")
    case False
    then obtain t where t: "t \<in> set (m p)" "length (snd t) < length (snd p)" "q \<in> set (reps m 0 e g t)"
      using 3(2) by (auto simp: Let_def split: if_splits)
    have b: "\<forall>h. map_option (\<lambda>h. h - 1) hi = Some h \<longrightarrow> 0 + e \<le> h"
      using 3(4) by (cases hi) simp_all
    have hi: "hi \<noteq> Some 0" using 3(4) by auto
    have d: "rx_denotes ci r p t" using 3(3) t(1) by blast
    have rest: "rx_denotes ci (Rep r (0 - 1) (map_option (\<lambda>h. h - 1) hi) g') t q"
      using 3(1)[OF t 3(3) b] by simp
    show ?thesis by (rule rel_again[OF d hi rest])
  qed (simp add: rel_stop)
qed

lemma reps_complete:
  assumes m: "\<And>p q. rx_denotes ci r p q \<Longrightarrow> q \<in> set (m p) \<and> length (snd q) < length (snd p)"
  shows "rx_denotes ci R p q \<Longrightarrow> R = Rep r lo hi g' \<Longrightarrow>
    (case hi of None \<Rightarrow> length (snd p) \<le> lo + e | Some h \<Rightarrow> lo \<le> h \<and> h \<le> lo + e) \<Longrightarrow> q \<in> set (reps m lo e g p)"
proof (induction arbitrary: lo hi e rule: rx_denotes.induct)
  case (rel_stop r' hi' g'' p)
  then show ?case by (cases e) (auto simp: Let_def)
next
  case (rel_again r' p q hi' lo' g'' t)
  then have R: "r' = r" "lo' = lo" "hi' = hi" by auto
  have q: "q \<in> set (m p)" "length (snd q) < length (snd p)" using m rel_again.hyps(1) R by auto
  show ?case
  proof (cases lo)
    case (Suc k)
    have "t \<in> set (reps m k e g q)"
      using rel_again.prems q(2) Suc R rel_again.hyps(2)
      by (intro rel_again.IH(2)[of _ "map_option (\<lambda>h. h - 1) hi"]) (auto split: option.splits)
    then show ?thesis using q(1) Suc by auto
  next
    case 0
    obtain e' where e: "e = Suc e'"
      using rel_again.prems q(2) 0 R rel_again.hyps(2) by (cases e) (auto split: option.splits)
    have "t \<in> set (reps m 0 e' g q)"
      using rel_again.prems q(2) 0 R e rel_again.hyps(2)
      by (intro rel_again.IH(2)[of _ "map_option (\<lambda>h. h - 1) hi"]) (auto split: option.splits)
    then show ?thesis using q 0 e by (auto simp: Let_def)
  qed
qed (auto simp: char_matches_def)

text \<open>The matcher finds the matches there are, and only these.\<close>

lemma rx_correct: "rx_wf r \<Longrightarrow> q \<in> set (rx ci r p) \<longleftrightarrow> rx_denotes ci r p q"
proof (induction r arbitrary: p q)
  case (Seq r s)
  then have "\<And>p q. q \<in> set (rx ci r p) \<longleftrightarrow> rx_denotes ci r p q" "\<And>p q. q \<in> set (rx ci s p) \<longleftrightarrow> rx_denotes ci s p q"
    by (auto simp del: split_paired_All)
  then show ?case by (simp add: rx_denotes_simps char_matches_def Bex_def)
next
  case (Alt r s)
  then show ?case by (auto simp: rx_denotes_simps char_matches_def)
next
  case (Rep r lo hi g)
  have IH: "\<And>p q. q \<in> set (rx ci r p) \<longleftrightarrow> rx_denotes ci r p q" and c: "consumes r"
    using Rep by auto
  let ?e = "case hi of None \<Rightarrow> length (snd p) | Some h \<Rightarrow> h - lo"
  have "q \<in> set (reps (rx ci r) lo ?e g p)" if "rx_denotes ci (Rep r lo hi g) p q"
    using Rep.prems IH c by (intro reps_complete[OF _ that refl]) (auto dest: rx_denotes_consumes split: option.splits)
  moreover have "rx_denotes ci (Rep r lo hi g) p q" if "q \<in> set (reps (rx ci r) lo ?e g p)"
    using Rep.prems IH by (intro reps_sound[OF that]) (auto split: option.splits)
  ultimately show ?case by auto
qed (auto simp: rx_denotes_simps char_step_iff char_matches_def)

section \<open>Searching\<close>

text \<open>The position after the prefix \<open>u\<close> of a text that is preceded by \<open>b\<close>.\<close>

definition pos_after :: "char option \<Rightarrow> string \<Rightarrow> string \<Rightarrow> pos" where
  "pos_after b u v = (if u = [] then b else Some (last u), v)"

lemma pos_after_Nil [simp]: "pos_after b [] v = (b, v)"
  by (simp add: pos_after_def)

lemma pos_after_Cons: "pos_after b (c # u) v = pos_after (Some c) u v"
  by (simp add: pos_after_def)

lemma all_splits_Cons:
  "(\<forall>u v. c # s = u @ v \<longrightarrow> P u v) \<longleftrightarrow> P [] (c # s) \<and> (\<forall>u v. s = u @ v \<longrightarrow> P (c # u) v)"
proof
  assume all: "\<forall>u v. c # s = u @ v \<longrightarrow> P u v"
  have "P (c # u) v" if "s = u @ v" for u v using all that by simp
  then show "P [] (c # s) \<and> (\<forall>u v. s = u @ v \<longrightarrow> P (c # u) v)" using all by simp
qed (auto simp: Cons_eq_append_conv)

lemma rx_search_from_None_iff:
  "rx_search_from ci r b s = None \<longleftrightarrow> (\<forall>u v. s = u @ v \<longrightarrow> rx ci r (pos_after b u v) = [])"
proof (induction s arbitrary: b)
  case Nil
  then show ?case by simp
next
  case (Cons c s)
  show ?case
    unfolding all_splits_Cons using Cons.IH[of "Some c"]
    by (simp add: pos_after_Cons split: list.splits)
qed

lemma rx_search_from_Some:
  assumes "rx_wf r"
  shows "rx_search_from ci r b s = Some w \<Longrightarrow>
    \<exists>u v q. s = u @ w @ v \<and> q \<in> set (rx ci r (pos_after b u (w @ v))) \<and> length (snd q) = length v"
proof (induction s arbitrary: b)
  case Nil
  then obtain q where w: "w = []" and q: "q \<in> set (rx ci r (b, []))"
    by (cases "rx ci r (b, [])") (auto split: if_splits)
  have "snd q = []" using rx_denotes_length[of ci r "(b, [])" q] q rx_correct[OF assms] by simp
  with w q show ?case by (intro exI[of _ "[]"] exI[of _ q]) simp
next
  case (Cons c s)
  show ?case
  proof (cases "rx ci r (b, c # s)")
    case Nil
    with Cons.prems have "rx_search_from ci r (Some c) s = Some w" by simp
    from Cons.IH[OF this] obtain u v q where "s = u @ w @ v" "q \<in> set (rx ci r (pos_after (Some c) u (w @ v)))"
      "length (snd q) = length v" by blast
    then show ?thesis by (intro exI[of _ "c # u"] exI[of _ v] exI[of _ q]) (simp add: pos_after_Cons)
  next
    case (Cons q qs)
    let ?n = "length (c # s) - length (snd q)"
    have w: "w = take ?n (c # s)" using Cons.prems local.Cons by simp
    have len: "length (snd q) \<le> length (c # s)"
      using rx_correct[OF assms, of q ci "(b, c # s)"] rx_denotes_length[of ci r "(b, c # s)" q] local.Cons by simp
    have "w @ drop ?n (c # s) = c # s" unfolding w by (rule append_take_drop_id)
    then show ?thesis using local.Cons len
      by (intro exI[of _ "[]"] exI[of _ "drop ?n (c # s)"] exI[of _ q]) simp
  qed
qed

text \<open>
  A search finds nothing exactly when no position of the text starts a match; what it finds
  is a part of the text between two positions related by the pattern.
\<close>

lemma rx_search_None_iff:
  assumes "rx_wf r"
  shows "rx_search ci r s = None \<longleftrightarrow> (\<forall>u v q. s = u @ v \<longrightarrow> \<not> rx_denotes ci r (pos_after None u v) q)"
proof -
  have "rx ci r p = [] \<longleftrightarrow> (\<forall>q. \<not> rx_denotes ci r p q)" for p
    unfolding rx_correct[OF assms, symmetric] by (cases "rx ci r p") auto
  then show ?thesis by (simp add: rx_search_def rx_search_from_None_iff)
qed

lemma rx_search_found_iff:
  "rx_wf r \<Longrightarrow> rx_search ci r s \<noteq> None \<longleftrightarrow> (\<exists>u v q. s = u @ v \<and> rx_denotes ci r (pos_after None u v) q)"
  unfolding rx_search_None_iff by blast

lemma rx_search_Some:
  assumes "rx_wf r" "rx_search ci r s = Some w"
  shows "\<exists>u v q. s = u @ w @ v \<and> rx_denotes ci r (pos_after None u (w @ v)) q \<and> snd q = v"
proof -
  from rx_search_from_Some[OF assms(1) assms(2)[unfolded rx_search_def]] obtain u v q where
    1: "s = u @ w @ v" "q \<in> set (rx ci r (pos_after None u (w @ v)))" "length (snd q) = length v" by blast
  then have d: "rx_denotes ci r (pos_after None u (w @ v)) q" using rx_correct[OF assms(1)] by blast
  obtain x where x: "w @ v = x @ snd q" using rx_denotes_suffix[OF d] by (auto simp: pos_after_def)
  then have "snd q = v" using 1(3) by (metis append_eq_append_conv)
  with 1 d show ?thesis by blast
qed

text \<open>A sequence of literals matches exactly itself.\<close>

lemma rx_lits: "rx_denotes False (lits w) (b, w @ v) (pos_after b w v)"
proof (induction w arbitrary: b)
  case Nil
  then show ?case by (simp add: rx_denotes_simps char_matches_def)
next
  case (Cons c w)
  have "rx_denotes False (Lit c) (b, c # w @ v) (Some c, w @ v)"
    by (intro rel_char) (simp add: char_matches_def)
  then show ?case using Cons[of "Some c"] by (auto simp: pos_after_Cons intro: rel_seq)
qed

lemma rx_wf_lits [simp]: "rx_wf (lits w)"
  by (induction w) auto

end
