(* ===== verification/RiskScore.thy ===== *)
theory RiskScore
  imports Classifier "HOL-Library.Sublist"
begin

text \<open>
  The numeric and textual helpers at the end of src/src/sentinel/core/pipeline.py: the
  aggregation of risk factors into one score, in binary64 arithmetic, the remediation text
  and the references of a decision.
\<close>

section \<open>Scores and references\<close>

definition DENY_THRESHOLD :: rat where
  "DENY_THRESHOLD = fl (85/100)"

definition ESCALATE_THRESHOLD :: rat where
  "ESCALATE_THRESHOLD = fl (55/100)"

definition THROTTLE_THRESHOLD :: rat where
  "THROTTLE_THRESHOLD = fl (35/100)"

text \<open>\<open>p_safe\<close> after the loop of \<^verbatim>\<open>_aggregate_risk\<close> over the factors, from \<open>p\<close>.\<close>

fun safe_product :: "rat \<Rightarrow> risk_factor list \<Rightarrow> rat" where
  "safe_product p [] = p"
| "safe_product p (f # fs) = safe_product (fl (p * fl (1 - clamp01 (severity f)))) fs"

definition aggregate_risk :: "risk_factor list \<Rightarrow> rat" where
  "aggregate_risk fs = (if fs = [] then 0 else py_round 4 (fl (1 - safe_product 1 fs)))"

text \<open>\<^verbatim>\<open>max(factors, key=severity)\<close>: the first of the greatest.\<close>

definition top_factor :: "risk_factor \<Rightarrow> risk_factor list \<Rightarrow> risk_factor" where
  "top_factor f fs = foldl (\<lambda>m g. if severity m < severity g then g else m) f fs"

definition remediation :: "verdict \<Rightarrow> risk_factor list \<Rightarrow> string option" where
  "remediation v fs =
     (if v = ALLOW then None
      else (case fs of
        [] \<Rightarrow> Some ''Review the triggered policy rule(s) and adjust agent behavior.''
      | f # gs \<Rightarrow> (let top = top_factor f gs in
          Some (''Top risk factor: '' @ rf_code top @ '' ('' @ detector top @ ''). '' @ rf_message top))))"

definition refs_for :: "risk_factor \<Rightarrow> string list" where
  "refs_for f = (case map_of (evidence f) ''references'' of
     None \<Rightarrow> []
   | Some s \<Rightarrow> if s = [] then [] else split_on CHR '','' s)"

fun unique_loop :: "string list \<Rightarrow> string list \<Rightarrow> string list" where
  "unique_loop seen [] = []"
| "unique_loop seen (x # xs) =
     (if x \<noteq> [] \<and> x \<notin> set seen then x # unique_loop (x # seen) xs else unique_loop seen xs)"

definition unique :: "string list \<Rightarrow> string list" where
  "unique xs = unique_loop [] xs"

section \<open>The probability of being safe\<close>

definition unsafe_share :: "risk_factor \<Rightarrow> rat" where
  "unsafe_share f = fl (1 - clamp01 (severity f))"

lemma unsafe_share_unit [simp]: "0 \<le> unsafe_share f" "unsafe_share f \<le> 1"
  by (auto simp: unsafe_share_def intro: fl_nonneg fl_le_1)

lemma safe_product_Cons: "safe_product p (f # fs) = safe_product (fl (p * unsafe_share f)) fs"
  by (simp add: unsafe_share_def)

declare safe_product.simps(2) [simp del]

lemma safe_product_append: "safe_product p (fs @ gs) = safe_product (safe_product p fs) gs"
  by (induction fs arbitrary: p) (auto simp: safe_product_Cons)

lemma fl_mult_le:
  assumes "0 \<le> p" "is_double p" "0 \<le> q" "q \<le> 1"
  shows "fl (p * q) \<le> p"
  using assms by (intro fl_le_double) (auto simp: mult_left_le)

lemma safe_product_mono: "p \<le> q \<Longrightarrow> safe_product p fs \<le> safe_product q fs"
proof (induction fs arbitrary: p q)
  case (Cons f fs)
  have "fl (p * unsafe_share f) \<le> fl (q * unsafe_share f)"
    using Cons.prems by (intro fl_mono mult_right_mono) simp_all
  from Cons.IH[OF this] show ?case by (simp add: safe_product_Cons)
qed simp

lemma safe_product_nonneg: "0 \<le> p \<Longrightarrow> 0 \<le> safe_product p fs"
proof (induction fs arbitrary: p)
  case (Cons f fs)
  have "0 \<le> fl (p * unsafe_share f)" using Cons.prems by (intro fl_nonneg mult_nonneg_nonneg) simp_all
  from Cons.IH[OF this] show ?case by (simp add: safe_product_Cons)
qed simp

lemma safe_product_le:
  "0 \<le> p \<Longrightarrow> is_double p \<Longrightarrow> safe_product p fs \<le> p"
proof (induction fs arbitrary: p)
  case (Cons f fs)
  have "safe_product (fl (p * unsafe_share f)) fs \<le> fl (p * unsafe_share f)"
    using Cons.prems by (intro Cons.IH fl_nonneg) auto
  also have "\<dots> \<le> p" using Cons.prems by (intro fl_mult_le) auto
  finally show ?case by (simp add: safe_product_Cons)
qed simp

lemma safe_product_double: "is_double p \<Longrightarrow> is_double (safe_product p fs)"
  by (induction fs arbitrary: p) (auto simp: safe_product_Cons)

lemma safe_product_subseq: "subseq fs gs \<Longrightarrow> 0 \<le> p \<Longrightarrow> is_double p \<Longrightarrow> safe_product p gs \<le> safe_product p fs"
proof (induction arbitrary: p rule: list_emb.induct)
  case (list_emb_Nil ys)
  then show ?case by (simp add: safe_product_le)
next
  case (list_emb_Cons xs ys y)
  have "safe_product (fl (p * unsafe_share y)) ys \<le> safe_product p ys"
    using list_emb_Cons.prems by (intro safe_product_mono fl_mult_le) auto
  then show ?case using list_emb_Cons.IH[OF list_emb_Cons.prems] by (simp add: safe_product_Cons)
next
  case (list_emb_Cons2 x y xs ys)
  then show ?case by (simp add: safe_product_Cons fl_nonneg)
qed

lemma safe_product_member:
  assumes "f \<in> set fs"
  shows "safe_product 1 fs \<le> unsafe_share f"
proof -
  from assms have "subseq [f] fs" by (simp add: subseq_singleton_left)
  from safe_product_subseq[OF this, of 1] show ?thesis by (simp add: safe_product_Cons unsafe_share_def)
qed

section \<open>The aggregate\<close>

lemma aggregate_risk_eq: "aggregate_risk fs = py_round 4 (fl (1 - safe_product 1 fs))"
  by (simp add: aggregate_risk_def)

lemma aggregate_risk_unit [simp]: "0 \<le> aggregate_risk fs" "aggregate_risk fs \<le> 1"
  using safe_product_nonneg[of 1 fs] safe_product_le[of 1 fs]
  by (auto simp: aggregate_risk_eq intro!: py_round_unit fl_nonneg fl_le_1)

lemma aggregate_risk_subseq: "subseq fs gs \<Longrightarrow> aggregate_risk fs \<le> aggregate_risk gs"
  unfolding aggregate_risk_eq using safe_product_subseq[of fs gs 1] by (intro py_round_mono fl_mono) auto

lemma aggregate_risk_lower:
  assumes "f \<in> set fs" "risk_ok f" "1/2 \<le> severity f"
  shows "py_round 4 (severity f) \<le> aggregate_risk fs"
proof -
  have s: "clamp01 (severity f) = severity f" "fl (1 - severity f) = 1 - severity f"
    using assms(2,3) by (auto simp: risk_ok_def clamp01_id fl_one_minus_exact)
  have "safe_product 1 fs \<le> 1 - severity f"
    using safe_product_member[OF assms(1)] by (simp add: unsafe_share_def s)
  then have "fl (severity f) \<le> fl (1 - safe_product 1 fs)" by (intro fl_mono) simp
  then show ?thesis
    using assms(2) unfolding aggregate_risk_eq by (intro py_round_mono) (simp add: risk_ok_def is_double_def)
qed

lemma threshold_values:
  "DENY_THRESHOLD = 7656119366529843 / 9007199254740992"
  "ESCALATE_THRESHOLD = 2476979795053773 / 4503599627370496"
  "THROTTLE_THRESHOLD = 3152519739159347 / 9007199254740992"
  by code_simp+

lemma threshold_rounded:
  "py_round 4 DENY_THRESHOLD = DENY_THRESHOLD"
  "py_round 4 ESCALATE_THRESHOLD = ESCALATE_THRESHOLD"
  by code_simp+

text \<open>One factor at or above a threshold lifts the aggregate to it.\<close>

lemma aggregate_risk_threshold:
  assumes "f \<in> set fs" "risk_ok f" "t \<le> severity f" "py_round 4 t = t" "1/2 \<le> t"
  shows "t \<le> aggregate_risk fs"
  using py_round_mono[OF assms(3), of 4] aggregate_risk_lower[OF assms(1,2)] assms(3-5) by simp

lemma aggregate_risk_certain:
  assumes "f \<in> set fs" "severity f = 1"
  shows "aggregate_risk fs = 1"
proof -
  have "aggregate_risk [f] = 1"
    using assms(2) by (simp add: aggregate_risk_eq safe_product_Cons unsafe_share_def clamp01_def)
  moreover have "aggregate_risk [f] \<le> aggregate_risk fs"
    using assms(1) by (intro aggregate_risk_subseq) (simp add: subseq_singleton_left)
  ultimately show ?thesis by (simp add: antisym)
qed

section \<open>References\<close>

lemma set_unique_loop: "set (unique_loop seen xs) = {x \<in> set xs. x \<noteq> [] \<and> x \<notin> set seen}"
  by (induction xs arbitrary: seen) auto

lemma distinct_unique_loop: "distinct (unique_loop seen xs)"
  by (induction xs arbitrary: seen) (auto simp: set_unique_loop)

lemma unique_spec: "set (unique xs) = {x \<in> set xs. x \<noteq> []}" "distinct (unique xs)"
  by (simp_all add: unique_def set_unique_loop distinct_unique_loop)

lemma top_factor_max:
  "top_factor f fs \<in> set (f # fs) \<and> (\<forall>g \<in> set (f # fs). severity g \<le> severity (top_factor f fs))"
proof (induction fs arbitrary: f)
  case (Cons g fs)
  show ?case using Cons[of "if severity f < severity g then g else f"]
    by (auto simp: top_factor_def split: if_splits)
qed (simp add: top_factor_def)

section \<open>Properties\<close>

text \<open>
  C18: The aggregate of any risk factors is a score in the unit interval; leaving factors out
  never raises it; a factor of severity 1 makes it 1; and it is at least the severity, rounded
  to four places, of every factor from one half up, despite the rounding errors of the
  floating-point product.
\<close>

theorem aggregate_risk_bounds:
  "0 \<le> aggregate_risk gs \<and> aggregate_risk gs \<le> 1 \<and>
   (subseq fs gs \<longrightarrow> aggregate_risk fs \<le> aggregate_risk gs) \<and>
   (\<forall>f \<in> set gs. (severity f = 1 \<longrightarrow> aggregate_risk gs = 1) \<and>
      (risk_ok f \<and> 1/2 \<le> severity f \<longrightarrow> py_round 4 (severity f) \<le> aggregate_risk gs))"
  using aggregate_risk_subseq[of fs gs] aggregate_risk_certain[of _ gs] aggregate_risk_lower[of _ gs] by auto

theorem aggregate_risk_bounds_witness:
  "aggregate_risk [] \<le> aggregate_risk [classifier_error [] (Exn TypeError [])] \<and>
   py_round 4 (fl (60/100)) \<le> aggregate_risk [classifier_error [] (Exn TypeError [])]"
  using aggregate_risk_bounds[of "[classifier_error [] (Exn TypeError [])]" "[]"]
    classifier_error_ok[of "[]" "Exn TypeError []"]
  by (simp add: classifier_error_def risk_simps)

text \<open>
  Every decision that is not ALLOW says why: without factors it refers to the rules, and
  otherwise it names a factor that no other exceeds in severity.
\<close>

theorem remediation_names_top:
  "(remediation v fs = None \<longleftrightarrow> v = ALLOW) \<and>
   (v \<noteq> ALLOW \<and> fs \<noteq> [] \<longrightarrow> (\<exists>f \<in> set fs. (\<forall>g \<in> set fs. severity g \<le> severity f) \<and>
      remediation v fs = Some (''Top risk factor: '' @ rf_code f @ '' ('' @ detector f @ ''). '' @ rf_message f)))"
proof (cases fs)
  case (Cons f gs)
  then show ?thesis using top_factor_max[of f gs] by (auto simp: remediation_def Let_def)
qed (simp add: remediation_def)

theorem remediation_names_top_witness:
  "\<exists>t. remediation DENY [classifier_error ''c'' (Exn TypeError [])] = Some (''Top risk factor: '' @ t)"
  using remediation_names_top[of DENY "[classifier_error ''c'' (Exn TypeError [])]"] by auto

end
