(* ===== verification/Pipeline.thy ===== *)
theory Pipeline
  imports PolicyEngine TrustScorer CircuitBreaker IdentityResolver IntentClassifier ToolValidator
    AnomalyDetector InjectionDetector DlpScanner RiskScore
begin

text \<open>
  src/src/sentinel/core/pipeline.py. \<open>evaluate\<close> is \<^verbatim>\<open>DecisionPipeline.evaluate\<close>: identity
  resolution behind the circuit breaker, the five classifiers through \<open>safe_run\<close>, the policy
  engine, the reconciliation, the trust gate and the assembly of the decision. What it keeps
  between calls is the identity breaker and the anomaly windows; what it reads from outside
  (clocks, the new decision's id) is the record \<open>readings\<close>, and the identity store is the
  argument \<open>lookup\<close>, the store's answer to a DID. The other two breakers of the code's
  \<^verbatim>\<open>PipelineDeps\<close>, its policy cache, tenants, metrics and approval workflow are never read
  by \<open>evaluate\<close>.
\<close>

record pipeline_deps =
  pd_bundle :: policy_bundle
  pd_scorer :: scorer
  pd_embedding :: "embedding option"
  pd_intent :: intent_config
  pd_schema :: schema_check
  pd_tools :: tool_registry
  pd_log10 :: "rat \<Rightarrow> rat"
  pd_anomaly :: anomaly_config
  pd_model :: "injection_model option"
  pd_injection :: injection_config
  pd_dlp :: dlp_scanner

record pipeline_state =
  ps_breaker :: breaker
  ps_windows :: baseline_store

record readings =
  rd_enter :: rat
  rd_exit :: rat
  rd_wall :: datetime
  rd_window :: rat
  rd_elapsed :: rat
  rd_id :: uuid
  rd_decided :: datetime

type_synonym identity_lookup = "string \<Rightarrow> identity option result"

section \<open>Reconciliation\<close>

definition has_effect :: "rule_effect \<Rightarrow> policy_match list \<Rightarrow> bool" where
  "has_effect e ms \<longleftrightarrow> e \<in> set (map pm_effect ms)"

definition score_summary :: "rat \<Rightarrow> string \<Rightarrow> string" where
  "score_summary score which =
     ''Aggregate risk score '' @ fmt_fixed 2 score @ '' exceeded '' @ which @ '' threshold.''"

definition reconcile ::
  "policy_match list \<Rightarrow> risk_factor list \<Rightarrow> identity option \<Rightarrow> verdict \<times> string \<times> string list" where
  "reconcile ms fs ident =
     (let rule_ids = map (rule_id \<circ> pm_rule) ms; ids = join '', '' rule_ids in
      if has_effect E_DENY ms then (DENY, ''Action denied by policy rule(s): '' @ ids, rule_ids)
      else if has_effect E_ESCALATE ms then
        (ESCALATE, ''Action escalated to human review by policy rule(s): '' @ ids, rule_ids)
      else if has_effect E_THROTTLE ms then
        (THROTTLE, ''Action throttled by policy rule(s): '' @ ids, rule_ids)
      else (let score = aggregate_risk fs in
        if DENY_THRESHOLD \<le> score then (DENY, score_summary score ''deny'', rule_ids)
        else if ESCALATE_THRESHOLD \<le> score then (ESCALATE, score_summary score ''escalate'', rule_ids)
        else if THROTTLE_THRESHOLD \<le> score then (THROTTLE, score_summary score ''throttle'', rule_ids)
        else if ident = None then (ESCALATE, ''Agent identity unresolved; escalating.'', rule_ids)
        else (ALLOW, ''Action passed all sentinel checks.'', rule_ids)))"

text \<open>The trust gate: at tier OBSERVE only reads stay allowed.\<close>

definition read_only :: "action \<Rightarrow> bool" where
  "read_only a \<longleftrightarrow> action_type_value (act_type a) \<in> {''file_read'', ''memory_read'', ''llm_prompt''}"

definition trust_gate :: "identity option \<Rightarrow> action \<Rightarrow> verdict \<times> string \<Rightarrow> verdict \<times> string" where
  "trust_gate adjusted a vs = (case adjusted of
     None \<Rightarrow> vs
   | Some i \<Rightarrow>
       if tier i = OBSERVE \<and> fst vs = ALLOW \<and> \<not> read_only a
       then (DENY, ''Identity demoted to OBSERVE tier; write actions denied.'') else vs)"

section \<open>evaluate\<close>

text \<open>
  Resolution: the outcome of \<^verbatim>\<open>identity_breaker.call\<close> sorted by the two \<open>except\<close> clauses into
  the identity, \<open>degraded\<close> and \<open>identity_unknown\<close>; any other exception leaves \<open>evaluate\<close>.
\<close>

definition resolve_step ::
  "identity result \<Rightarrow> (identity option \<times> bool \<times> bool) result" where
  "resolve_step r = (case r of
     Inr i \<Rightarrow> Inr (Some i, False, False)
   | Inl e \<Rightarrow>
       if catches DependencyUnavailableError e then Inr (None, True, False)
       else if catches IdentityError e then Inr (None, False, True)
       else Inl e)"

definition unknown_identity :: "action \<Rightarrow> risk_factor" where
  "unknown_identity a = \<lparr>rf_code = ''identity.unknown'', severity = fl (60/100), detector = ''identity_resolver'',
     rf_message = ''Unknown or anonymous agent DID: '' @ agent_did a,
     evidence = [(''references'', ''OWASP-AGENT-04'')]\<rparr>"

text \<open>\<^verbatim>\<open>asyncio.gather\<close> of the guarded calls and the loop that joins the batches.\<close>

fun gather :: "classifier_result list \<Rightarrow> classifier_result" where
  "gather [] = Inr []"
| "gather (r # rs) = bindR r (\<lambda>fs. bindR (gather rs) (\<lambda>gs. Inr (fs @ gs)))"

text \<open>What the five classifiers answer, before \<open>safe_run\<close>, and the windows after.\<close>

definition classifier_answers ::
  "pipeline_deps \<Rightarrow> readings \<Rightarrow> action \<Rightarrow> identity option \<Rightarrow> baseline_store \<Rightarrow>
   (string \<times> classifier_result) list \<times> baseline_store" where
  "classifier_answers deps rd a ident win =
     (let (anomaly, win') = anomaly_score (pd_log10 deps) (pd_anomaly deps) (rd_window rd) a win in
      ([(''IntentClassifier.classify'', intent_classify (pd_embedding deps) (pd_intent deps) a ident),
        (''ToolValidator.validate'', tool_validate (pd_schema deps) (rd_wall rd) (pd_tools deps) a ident),
        (''AnomalyDetector.score'', anomaly),
        (''PromptInjectionDetector.scan'', injection_scan (pd_model deps) (pd_injection deps) a ident),
        (''DLPScanner.scan'', dlp_scan (pd_dlp deps) a ident)], win'))"

definition run_classifiers ::
  "pipeline_deps \<Rightarrow> readings \<Rightarrow> action \<Rightarrow> identity option \<Rightarrow> baseline_store \<Rightarrow>
   classifier_result \<times> baseline_store" where
  "run_classifiers deps rd a ident win =
     (let (answers, win') = classifier_answers deps rd a ident win in
      (gather (map (\<lambda>(q, r). safe_run q r) answers), win'))"

text \<open>From the factors on: the policy engine, the verdict, the gate and the decision.\<close>

definition assemble ::
  "pipeline_deps \<Rightarrow> readings \<Rightarrow> action \<Rightarrow> identity option \<Rightarrow> bool \<Rightarrow> risk_factor list \<Rightarrow> decision result" where
  "assemble deps rd a ident degr fs =
     bindR (policy_evaluate (pd_bundle deps) a ident fs) (\<lambda>ms.
       let (v0, summary0, rule_ids) = reconcile ms fs ident;
           adjusted = adjust (pd_scorer deps) ident fs v0;
           (v, s) = trust_gate adjusted a (v0, summary0)
       in bindR (mk_explanation s rule_ids fs (aggregate_risk fs) (remediation v fs)
                  (unique (concat (map refs_for fs)))) (\<lambda>expl.
            Inr \<lparr>dec_id = rd_id rd, action_id = act_id a, verdict = v, decided_at = rd_decided rd,
                 decided_by = ''sentinel.pipeline'', explanation = expl,
                 latency_ms = Some (rd_elapsed rd), cache_hit = False, degraded = degr\<rparr>))"

definition evaluate ::
  "pipeline_deps \<Rightarrow> identity_lookup \<Rightarrow> readings \<Rightarrow> action \<Rightarrow> pipeline_state \<Rightarrow>
   decision result \<times> pipeline_state" where
  "evaluate deps lookup rd a st =
     (let (r, br) = breaker_call (rd_enter rd) (rd_exit rd)
                      (resolve (lookup (agent_did a)) (agent_did a)) (ps_breaker st);
          st1 = st\<lparr>ps_breaker := br\<rparr>
      in case resolve_step r of
        Inl e \<Rightarrow> (Inl e, st1)
      | Inr (ident, degr, unknown) \<Rightarrow>
          (let (batch, win) = run_classifiers deps rd a ident (ps_windows st);
               st2 = st1\<lparr>ps_windows := win\<rparr>
           in (bindR batch (\<lambda>fs.
                 assemble deps rd a ident degr ((if unknown then [unknown_identity a] else []) @ fs)), st2)))"

section \<open>The specification of the verdict\<close>

fun effect_verdict :: "rule_effect \<Rightarrow> verdict" where
  "effect_verdict E_ALLOW = ALLOW"
| "effect_verdict E_DENY = DENY"
| "effect_verdict E_ESCALATE = ESCALATE"
| "effect_verdict E_THROTTLE = THROTTLE"

text \<open>The strictest effect of the matching rules; ALLOW when there is none.\<close>

definition policy_verdict :: "policy_match list \<Rightarrow> verdict" where
  "policy_verdict ms = foldr (\<lambda>m v. max (effect_verdict (pm_effect m)) v) ms ALLOW"

definition risk_band :: "rat \<Rightarrow> verdict" where
  "risk_band score = (if DENY_THRESHOLD \<le> score then DENY else if ESCALATE_THRESHOLD \<le> score then ESCALATE
     else if THROTTLE_THRESHOLD \<le> score then THROTTLE else ALLOW)"

definition reconciled_verdict :: "policy_match list \<Rightarrow> rat \<Rightarrow> bool \<Rightarrow> verdict" where
  "reconciled_verdict ms score known =
     (if policy_verdict ms \<noteq> ALLOW then policy_verdict ms
      else if risk_band score = ALLOW \<and> \<not> known then ESCALATE else risk_band score)"

lemma max_verdict_simps [simp]:
  "max DENY v = DENY" "max v DENY = DENY" "max ALLOW v = v" "max v ALLOW = v"
  "max ESCALATE THROTTLE = ESCALATE" "max THROTTLE ESCALATE = ESCALATE"
  by (cases v; simp add: max_def less_eq_verdict_def)+

lemma policy_verdict_cases:
  "policy_verdict ms = (if has_effect E_DENY ms then DENY else if has_effect E_ESCALATE ms then ESCALATE
     else if has_effect E_THROTTLE ms then THROTTLE else ALLOW)"
proof (induction ms)
  case Nil
  then show ?case by (simp add: policy_verdict_def has_effect_def)
next
  case (Cons m ms)
  have step: "policy_verdict (m # ms) = max (effect_verdict (pm_effect m)) (policy_verdict ms)"
    by (simp add: policy_verdict_def)
  have eff: "has_effect e (m # ms) \<longleftrightarrow> e = pm_effect m \<or> has_effect e ms" for e
    by (simp add: has_effect_def)
  show ?case unfolding step Cons.IH eff by (cases "pm_effect m") simp_all
qed

lemma policy_verdict_ALLOW_iff: "policy_verdict ms = ALLOW \<longleftrightarrow> (\<forall>m \<in> set ms. pm_effect m = E_ALLOW)"
proof (induction ms)
  case (Cons m ms)
  then show ?case by (cases "pm_effect m"; cases "policy_verdict ms") (auto simp: policy_verdict_def max_def less_eq_verdict_def)
qed (simp add: policy_verdict_def)

lemma policy_verdict_upper: "m \<in> set ms \<Longrightarrow> effect_verdict (pm_effect m) \<le> policy_verdict ms"
  by (induction ms) (auto simp: policy_verdict_def le_max_iff_disj)

lemma reconcile_verdict: "fst (reconcile ms fs ident) = reconciled_verdict ms (aggregate_risk fs) (ident \<noteq> None)"
  by (simp add: reconcile_def reconciled_verdict_def policy_verdict_cases risk_band_def Let_def)

lemma reconcile_rules: "snd (snd (reconcile ms fs ident)) = map (rule_id \<circ> pm_rule) ms"
  by (simp add: reconcile_def Let_def)

lemma reconciled_ALLOW_iff:
  "reconciled_verdict ms score known = ALLOW \<longleftrightarrow>
     (\<forall>m \<in> set ms. pm_effect m = E_ALLOW) \<and> score < THROTTLE_THRESHOLD \<and> known"
  by (auto simp: reconciled_verdict_def policy_verdict_ALLOW_iff risk_band_def threshold_values split: if_splits)

lemma risk_band_mono: "x \<le> y \<Longrightarrow> risk_band x \<le> risk_band y"
  by (auto simp: risk_band_def less_eq_verdict_def)

section \<open>The stages\<close>

definition deps_ok :: "pipeline_deps \<Rightarrow> bool" where
  "deps_ok deps \<longleftrightarrow> tools_ok (pd_tools deps) \<and> dlp_rules_ok (dlp_rules (pd_dlp deps))"

lemma gather_Inr_iff:
  "gather rs = Inr fs \<longleftrightarrow> (\<exists>fss. rs = map Inr fss \<and> fs = concat fss)"
proof (induction rs arbitrary: fs)
  case (Cons r rs)
  have "gather (r # rs) = Inr fs \<longleftrightarrow> (\<exists>gs hs. r = Inr gs \<and> gather rs = Inr hs \<and> fs = gs @ hs)"
    by (auto simp: bindR_Inr_iff)
  also have "\<dots> \<longleftrightarrow> (\<exists>gs fss. r = Inr gs \<and> rs = map Inr fss \<and> fs = gs @ concat fss)"
    unfolding Cons.IH by blast
  also have "\<dots> \<longleftrightarrow> (\<exists>fss. r # rs = map Inr fss \<and> fs = concat fss)"
    by (force simp: Cons_eq_map_conv)
  finally show ?case .
qed auto

lemma safe_run_cases:
  "safe_run q r = Inr fs \<Longrightarrow> r = Inr fs \<or> (\<exists>e. r = Inl e \<and> catches Exception e \<and> fs = [classifier_error q e])"
  by (auto simp: safe_run_def split: sum.splits if_splits)

lemma answers_ok:
  assumes "deps_ok deps" "(q, Inr fs) \<in> set (fst (classifier_answers deps rd a ident win))"
  shows "risks_ok fs"
proof -
  have "fst (anomaly_score (pd_log10 deps) (pd_anomaly deps) (rd_window rd) a win) = Inr gs \<Longrightarrow> risks_ok gs" for gs
    by (rule anomaly_score_ok)
  then show ?thesis
    using assms intent_classify_ok[of "pd_embedding deps" "pd_intent deps" a ident]
      tool_validate_ok[of "pd_tools deps" "pd_schema deps" "rd_wall rd" a ident]
      injection_scan_ok[of "pd_model deps" "pd_injection deps" a ident] dlp_scan_ok[of "pd_dlp deps" a ident]
    by (simp add: classifier_answers_def deps_ok_def split_def Let_def) metis
qed

text \<open>What the guarded classifiers answered together is what each answered, or its error factor.\<close>

lemma run_classifiers_members:
  assumes "fst (run_classifiers deps rd a ident win) = Inr fs"
    and "(q, r) \<in> set (fst (classifier_answers deps rd a ident win))"
  shows "(\<exists>gs. r = Inr gs \<and> set gs \<subseteq> set fs) \<or> (\<exists>e. r = Inl e \<and> catches Exception e \<and> classifier_error q e \<in> set fs)"
proof -
  from assms(1) obtain fss where fss: "map (\<lambda>(q, r). safe_run q r) (fst (classifier_answers deps rd a ident win)) = map Inr fss"
      "fs = concat fss"
    by (auto simp: run_classifiers_def gather_Inr_iff split_def Let_def)
  have "safe_run q r \<in> set (map (\<lambda>(q, r). safe_run q r) (fst (classifier_answers deps rd a ident win)))"
    using assms(2) by force
  then obtain gs where "safe_run q r = Inr gs" "set gs \<subseteq> set fs"
    unfolding fss(1) using fss(2) by auto
  from safe_run_cases[OF this(1)] this(2) show ?thesis by auto
qed

lemma run_classifiers_ok:
  assumes "deps_ok deps" "fst (run_classifiers deps rd a ident win) = Inr fs"
  shows "risks_ok fs"
proof -
  from assms(2) obtain fss where fss: "map (\<lambda>(q, r). safe_run q r) (fst (classifier_answers deps rd a ident win)) = map Inr fss"
      "fs = concat fss"
    by (auto simp: run_classifiers_def gather_Inr_iff split_def Let_def)
  have "risks_ok gs" if "gs \<in> set fss" for gs
  proof -
    have "Inr gs \<in> set (map (\<lambda>(q, r). safe_run q r) (fst (classifier_answers deps rd a ident win)))"
      unfolding fss(1) using that by simp
    then obtain q r where qr: "(q, r) \<in> set (fst (classifier_answers deps rd a ident win))" "safe_run q r = Inr gs"
      by force
    from safe_run_cases[OF qr(2)] show ?thesis
      using answers_ok[OF assms(1), of q gs] qr(1) classifier_error_ok by auto
  qed
  then show ?thesis using fss(2) by auto
qed

section \<open>A whole evaluation\<close>

text \<open>What resolution through the breaker comes to.\<close>

definition resolution ::
  "identity_lookup \<Rightarrow> readings \<Rightarrow> action \<Rightarrow> pipeline_state \<Rightarrow> (identity option \<times> bool \<times> bool) result" where
  "resolution lookup rd a st = resolve_step (fst (breaker_call (rd_enter rd) (rd_exit rd)
     (resolve (lookup (agent_did a)) (agent_did a)) (ps_breaker st)))"

definition with_unknown :: "bool \<Rightarrow> action \<Rightarrow> risk_factor list \<Rightarrow> risk_factor list" where
  "with_unknown unknown a fs = (if unknown then [unknown_identity a] else []) @ fs"

text \<open>The trust gate closes on an allowed action.\<close>

definition gate_closes :: "scorer \<Rightarrow> identity option \<Rightarrow> risk_factor list \<Rightarrow> action \<Rightarrow> bool" where
  "gate_closes sc ident fs a \<longleftrightarrow> \<not> read_only a \<and>
     (case adjust sc ident fs ALLOW of None \<Rightarrow> False | Some j \<Rightarrow> tier j = OBSERVE)"

definition final_verdict ::
  "pipeline_deps \<Rightarrow> action \<Rightarrow> identity option \<Rightarrow> risk_factor list \<Rightarrow> policy_match list \<Rightarrow> verdict" where
  "final_verdict deps a ident fs ms =
     (let v = reconciled_verdict ms (aggregate_risk fs) (ident \<noteq> None) in
      if v = ALLOW \<and> gate_closes (pd_scorer deps) ident fs a then DENY else v)"

lemma trust_gate_verdict:
  "fst (trust_gate (adjust sc ident fs v) a (v, s)) = (if v = ALLOW \<and> gate_closes sc ident fs a then DENY else v)"
  by (auto simp: trust_gate_def gate_closes_def split: option.splits)

lemma assemble_Inr_iff:
  "assemble deps rd a ident degr fs = Inr d \<longleftrightarrow>
     (\<exists>ms. policy_evaluate (pd_bundle deps) a ident fs = Inr ms \<and>
        (let (v0, s0, ids) = reconcile ms fs ident;
             (v, s) = trust_gate (adjust (pd_scorer deps) ident fs v0) a (v0, s0) in
         d = \<lparr>dec_id = rd_id rd, action_id = act_id a, verdict = v, decided_at = rd_decided rd,
              decided_by = ''sentinel.pipeline'',
              explanation = \<lparr>summary = s, triggered_rule_ids = ids, risk_factors = fs,
                risk_score = aggregate_risk fs, recommended_remediation = remediation v fs,
                references = unique (concat (map refs_for fs))\<rparr>,
              latency_ms = Some (rd_elapsed rd), cache_hit = False, degraded = degr\<rparr>))"
  by (auto simp: assemble_def bindR_Inr_iff mk_explanation_def split_def Let_def)

lemma assemble_fields:
  assumes "assemble deps rd a ident degr fs = Inr d"
  obtains ms where "policy_evaluate (pd_bundle deps) a ident fs = Inr ms"
    "verdict d = final_verdict deps a ident fs ms" "risk_factors (explanation d) = fs"
    "risk_score (explanation d) = aggregate_risk fs" "degraded d = degr" "action_id d = act_id a"
    "triggered_rule_ids (explanation d) = map (rule_id \<circ> pm_rule) ms"
    "recommended_remediation (explanation d) = remediation (verdict d) fs"
    "references (explanation d) = unique (concat (map refs_for fs))"
proof -
  from assms obtain ms where ms: "policy_evaluate (pd_bundle deps) a ident fs = Inr ms"
    and d: "let (v0, s0, ids) = reconcile ms fs ident;
             (v, s) = trust_gate (adjust (pd_scorer deps) ident fs v0) a (v0, s0) in
         d = \<lparr>dec_id = rd_id rd, action_id = act_id a, verdict = v, decided_at = rd_decided rd,
              decided_by = ''sentinel.pipeline'',
              explanation = \<lparr>summary = s, triggered_rule_ids = ids, risk_factors = fs,
                risk_score = aggregate_risk fs, recommended_remediation = remediation v fs,
                references = unique (concat (map refs_for fs))\<rparr>,
              latency_ms = Some (rd_elapsed rd), cache_hit = False, degraded = degr\<rparr>"
    unfolding assemble_Inr_iff by blast
  obtain v0 s0 ids where r: "reconcile ms fs ident = (v0, s0, ids)" by (cases "reconcile ms fs ident")
  have v0: "v0 = reconciled_verdict ms (aggregate_risk fs) (ident \<noteq> None)"
    using reconcile_verdict[of ms fs ident] by (simp add: r)
  have ids: "ids = map (rule_id \<circ> pm_rule) ms" using reconcile_rules[of ms fs ident] by (simp add: r)
  have "fst (trust_gate (adjust (pd_scorer deps) ident fs v0) a (v0, s0)) = final_verdict deps a ident fs ms"
    by (simp add: trust_gate_verdict final_verdict_def v0 Let_def)
  with d show ?thesis by (intro that[OF ms]) (auto simp: r ids split_def Let_def)
qed

lemma assemble_total:
  assumes "bundle_typed (pd_bundle deps)"
  shows "\<exists>d. assemble deps rd a ident degr fs = Inr d"
  unfolding assemble_Inr_iff policy_evaluate_typed[OF assms] by (auto simp: split_def Let_def)

lemma evaluate_eq:
  "evaluate deps lookup rd a st =
    (let br = snd (breaker_call (rd_enter rd) (rd_exit rd) (resolve (lookup (agent_did a)) (agent_did a)) (ps_breaker st)) in
     case resolution lookup rd a st of
       Inl e \<Rightarrow> (Inl e, st\<lparr>ps_breaker := br\<rparr>)
     | Inr (ident, degr, unknown) \<Rightarrow>
        (let (batch, win) = run_classifiers deps rd a ident (ps_windows st) in
         (bindR batch (\<lambda>fs. assemble deps rd a ident degr (with_unknown unknown a fs)),
          st\<lparr>ps_breaker := br, ps_windows := win\<rparr>)))"
  by (simp add: evaluate_def resolution_def with_unknown_def split_def Let_def split: sum.splits)

lemma evaluate_cases:
  assumes "evaluate deps lookup rd a st = (Inr d, st')"
  obtains ident degr unknown fs where "resolution lookup rd a st = Inr (ident, degr, unknown)"
    "fst (run_classifiers deps rd a ident (ps_windows st)) = Inr fs"
    "assemble deps rd a ident degr (with_unknown unknown a fs) = Inr d"
proof (cases "resolution lookup rd a st")
  case (Inl e)
  then show ?thesis using assms by (simp add: evaluate_eq Let_def)
next
  case (Inr r)
  obtain ident degr unknown where r: "r = (ident, degr, unknown)" by (cases r)
  have "bindR (fst (run_classifiers deps rd a ident (ps_windows st)))
      (\<lambda>fs. assemble deps rd a ident degr (with_unknown unknown a fs)) = Inr d"
    using assms Inr r by (simp add: evaluate_eq split_def Let_def)
  then show ?thesis using that Inr r by (auto simp: bindR_Inr_iff)
qed

lemma evaluate_breaker:
  "ps_breaker (snd (evaluate deps lookup rd a st)) =
     snd (breaker_call (rd_enter rd) (rd_exit rd) (resolve (lookup (agent_did a)) (agent_did a)) (ps_breaker st))"
  by (simp add: evaluate_eq split_def Let_def split: sum.splits)

lemma breaker_call_Inr:
  "fst (breaker_call t0 t1 r b) = Inr x \<Longrightarrow> r = Inr x"
  by (auto simp: breaker_call_def split: prod.splits sum.splits)

lemma breaker_call_Inl:
  "fst (breaker_call t0 t1 r b) = Inl e \<Longrightarrow> r = Inl e \<or> exn_class e = DependencyUnavailableError"
  by (auto simp: breaker_call_def dest: call_enter_Inl split: prod.splits sum.splits)

lemma resolution_known:
  assumes "resolution lookup rd a st = Inr (Some i, degr, unknown)"
  shows "lookup (agent_did a) = Inr (Some i)" "\<not> revoked i" "\<not> degr" "\<not> unknown"
proof -
  have r: "fst (breaker_call (rd_enter rd) (rd_exit rd) (resolve (lookup (agent_did a)) (agent_did a)) (ps_breaker st)) = Inr i"
    and "\<not> degr" "\<not> unknown"
    using assms by (auto simp: resolution_def resolve_step_def split: sum.splits if_splits)
  then show "lookup (agent_did a) = Inr (Some i)" "\<not> revoked i" "\<not> degr" "\<not> unknown"
    using breaker_call_Inr[OF r] by (auto simp: resolve_Inr_iff)
qed

lemma resolution_unknown: "resolution lookup rd a st = Inr (None, degr, unknown) \<Longrightarrow> degr \<noteq> unknown"
  by (auto simp: resolution_def resolve_step_def split: sum.splits if_splits)

lemma unknown_identity_ok: "risk_ok (unknown_identity a)"
  using is_double_fl[of "3/5"] by (simp add: risk_ok_def unknown_identity_def risk_simps)

lemma with_unknown_ok: "risks_ok fs \<Longrightarrow> risks_ok (with_unknown unknown a fs)"
  by (auto simp: with_unknown_def unknown_identity_ok)

end
