(* ===== verification/Concurrent.thy ===== *)
theory Concurrent
  imports FailClosed
begin

text \<open>
  Evaluations of one pipeline (src/src/sentinel/core/pipeline.py) in flight at the same time, as the
  event loop interleaves them. An evaluation gives way to others while it waits for the identity store,
  inside the breaker's call, and before and after the classifiers; between these points it runs
  alone. So it is three steps: entering the breaker, the store's answer and the
  breaker's bookkeeping, and the rest, which touches shared state only in the detector's window. The
  store may change in between. \<open>cs_answers\<close> is the history of identities the store answered with.
\<close>

section \<open>The rest of an evaluation\<close>

definition evaluate_rest ::
  "pipeline_deps \<Rightarrow> readings \<Rightarrow> action \<Rightarrow> identity result \<Rightarrow> baseline_store \<Rightarrow> decision result \<times> baseline_store" where
  "evaluate_rest deps rd a r win = (case resolve_step r of
     Inl e \<Rightarrow> (Inl e, win)
   | Inr (ident, degr, unknown) \<Rightarrow>
       (let (batch, win') = run_classifiers deps rd a ident win
        in (bindR batch (\<lambda>fs.
              assemble deps rd a ident degr ((if unknown then [unknown_identity a] else []) @ fs)), win')))"

lemma evaluate_stages:
  "evaluate deps lookup rd a st =
     (let (r, br) = breaker_call (rd_enter rd) (rd_exit rd) (resolve (lookup (agent_did a)) (agent_did a)) (ps_breaker st);
          (d, win) = evaluate_rest deps rd a r (ps_windows st)
      in (d, \<lparr>ps_breaker = br, ps_windows = win\<rparr>))"
  by (cases st) (simp add: evaluate_def evaluate_rest_def split_def Let_def split: sum.split)

lemma rest_allowed:
  assumes "fst (evaluate_rest deps rd a r win) = Inr d" "verdict d = ALLOW"
  obtains i ms where "r = Inr i" "\<not> degraded d"
    "policy_evaluate (pd_bundle deps) a (Some i) (risk_factors (explanation d)) = Inr ms"
    "\<forall>m \<in> set ms. pm_effect m = E_ALLOW" "risk_score (explanation d) < THROTTLE_THRESHOLD"
proof -
  obtain ident degr unknown fs where res: "resolve_step r = Inr (ident, degr, unknown)"
    and asm: "assemble deps rd a ident degr fs = Inr d"
    using assms(1) by (auto simp: evaluate_rest_def split_def Let_def bindR_Inr_iff split: sum.splits)
  obtain ms where ms: "policy_evaluate (pd_bundle deps) a ident fs = Inr ms"
    and v: "verdict d = final_verdict deps a ident fs ms"
    and d: "risk_factors (explanation d) = fs" "risk_score (explanation d) = aggregate_risk fs" "degraded d = degr"
    using asm by (rule assemble_fields)
  have allow: "(\<forall>m \<in> set ms. pm_effect m = E_ALLOW) \<and> aggregate_risk fs < THROTTLE_THRESHOLD \<and> ident \<noteq> None"
    using v assms(2) final_ALLOW_iff[of deps a ident fs ms] by simp
  then obtain i where i: "ident = Some i" by auto
  with res have "r = Inr i" "\<not> degr" by (auto simp: resolve_step_def split: sum.splits if_splits)
  then show ?thesis using ms d allow i by (intro that[of i ms]) simp_all
qed

section \<open>Interleavings\<close>

datatype phase = Resolving action | Resolved action "identity result"

record con_sys =
  cs_state :: pipeline_state
  cs_db :: identity_db
  cs_running :: "nat \<Rightarrow> phase option"
  cs_decided :: "(action \<times> decision result) list"
  cs_answers :: "(action \<times> identity) list"

definition con_start :: "pipeline_state \<Rightarrow> identity_db \<Rightarrow> con_sys" where
  "con_start st db = \<lparr>cs_state = st, cs_db = db, cs_running = (\<lambda>_. None), cs_decided = [], cs_answers = []\<rparr>"

text \<open>The breaker lets the call in, or its refusal is the outcome of the resolution.\<close>

definition arrive :: "nat \<Rightarrow> rat \<Rightarrow> action \<Rightarrow> con_sys \<Rightarrow> con_sys" where
  "arrive n now a s = (let (r, br) = call_enter now (ps_breaker (cs_state s)) in
     s\<lparr>cs_state := (cs_state s)\<lparr>ps_breaker := br\<rparr>,
       cs_running := (cs_running s)(n \<mapsto> (case r of Inl e \<Rightarrow> Resolved a (Inl e) | Inr _ \<Rightarrow> Resolving a))\<rparr>)"

definition answered :: "nat \<Rightarrow> rat \<Rightarrow> action \<Rightarrow> identity option result \<Rightarrow> con_sys \<Rightarrow> con_sys" where
  "answered n now a ans s = (let r = resolve ans (agent_did a) in
     s\<lparr>cs_state := (cs_state s)\<lparr>ps_breaker := call_exit now r (ps_breaker (cs_state s))\<rparr>,
       cs_running := (cs_running s)(n \<mapsto> Resolved a r),
       cs_answers := cs_answers s @ (case r of Inl e \<Rightarrow> [] | Inr i \<Rightarrow> [(a, i)])\<rparr>)"

definition dropped :: "nat \<Rightarrow> con_sys \<Rightarrow> con_sys" where
  "dropped n s = s\<lparr>cs_running := (cs_running s)(n := None)\<rparr>"

definition finish :: "pipeline_deps \<Rightarrow> readings \<Rightarrow> nat \<Rightarrow> action \<Rightarrow> identity result \<Rightarrow> con_sys \<Rightarrow> con_sys" where
  "finish deps rd n a r s = (let (d, win) = evaluate_rest deps rd a r (ps_windows (cs_state s)) in
     s\<lparr>cs_state := (cs_state s)\<lparr>ps_windows := win\<rparr>, cs_running := (cs_running s)(n := None),
       cs_decided := cs_decided s @ [(a, d)]\<rparr>)"

text \<open>The store answers with what it holds at that time, or fails; a cancelled call leaves the breaker as it is.\<close>

inductive con_step :: "pipeline_deps \<Rightarrow> con_sys \<Rightarrow> con_sys \<Rightarrow> bool" for deps where
  arrives: "cs_running s n = None \<Longrightarrow> con_step deps s (arrive n now a s)"
| answers: "cs_running s n = Some (Resolving a) \<Longrightarrow>
     con_step deps s (answered n now a (Inr (store_get (cs_db s) (agent_did a))) s)"
| fails: "cs_running s n = Some (Resolving a) \<Longrightarrow> con_step deps s (answered n now a (Inl e) s)"
| cancels: "cs_running s n = Some ph \<Longrightarrow> con_step deps s (dropped n s)"
| finishes: "cs_running s n = Some (Resolved a r) \<Longrightarrow> con_step deps s (finish deps rd n a r s)"
| puts: "con_step deps s (s\<lparr>cs_db := store_put i (cs_db s)\<rparr>)"
| revokes: "con_step deps s (s\<lparr>cs_db := store_revoke d (cs_db s)\<rparr>)"

inductive_cases con_stepE: "con_step deps s s'"

section \<open>Invariants\<close>

text \<open>Every decision ALLOW rests on an answer of the store with an identity not revoked at that time.\<close>

definition allow_grounded :: "pipeline_deps \<Rightarrow> (action \<times> identity) list \<Rightarrow> action \<Rightarrow> decision \<Rightarrow> bool" where
  "allow_grounded deps ans a d \<longleftrightarrow> (\<exists>i ms. (a, i) \<in> set ans \<and> \<not> degraded d \<and>
     policy_evaluate (pd_bundle deps) a (Some i) (risk_factors (explanation d)) = Inr ms \<and>
     (\<forall>m \<in> set ms. pm_effect m = E_ALLOW) \<and> risk_score (explanation d) < THROTTLE_THRESHOLD)"

definition con_inv :: "pipeline_deps \<Rightarrow> con_sys \<Rightarrow> bool" where
  "con_inv deps s \<longleftrightarrow> breaker_ok (ps_breaker (cs_state s)) \<and>
     (\<forall>(a, i) \<in> set (cs_answers s). \<not> revoked i) \<and>
     (\<forall>n a i. cs_running s n = Some (Resolved a (Inr i)) \<longrightarrow> (a, i) \<in> set (cs_answers s)) \<and>
     (\<forall>(a, r) \<in> set (cs_decided s). \<forall>d. r = Inr d \<and> verdict d = ALLOW \<longrightarrow> allow_grounded deps (cs_answers s) a d)"

lemma allow_grounded_mono: "allow_grounded deps xs a d \<Longrightarrow> set xs \<subseteq> set ys \<Longrightarrow> allow_grounded deps ys a d"
  unfolding allow_grounded_def by blast

lemma resolve_Inr: "resolve ans d = Inr i \<Longrightarrow> \<not> revoked i"
  by (auto simp: resolve_def bindR_Inr_iff split: option.splits if_splits)

lemma con_inv_arrive: "con_inv deps s \<Longrightarrow> con_inv deps (arrive n now a s)"
  using breaker_ok_enter[of "ps_breaker (cs_state s)" now]
  by (auto simp: con_inv_def arrive_def split_def Let_def split: sum.splits if_splits)

lemma con_inv_answered:
  assumes "con_inv deps s"
  shows "con_inv deps (answered n now a ans s)"
proof -
  have sub: "set (cs_answers s) \<subseteq> set (cs_answers (answered n now a ans s))" by (auto simp: answered_def Let_def)
  have "breaker_ok (ps_breaker (cs_state (answered n now a ans s)))"
    using assms by (simp add: con_inv_def answered_def Let_def breaker_ok_exit)
  moreover have "\<forall>(b, i) \<in> set (cs_answers (answered n now a ans s)). \<not> revoked i"
    using assms by (auto simp: con_inv_def answered_def Let_def resolve_Inr split: sum.splits)
  moreover have "\<forall>m b i. cs_running (answered n now a ans s) m = Some (Resolved b (Inr i)) \<longrightarrow>
      (b, i) \<in> set (cs_answers (answered n now a ans s))"
    using assms by (auto simp: con_inv_def answered_def Let_def split: sum.splits)
  moreover have "cs_decided (answered n now a ans s) = cs_decided s" by (simp add: answered_def Let_def)
  ultimately show ?thesis using assms allow_grounded_mono[OF _ sub] unfolding con_inv_def by fastforce
qed

lemma con_inv_finish:
  assumes "con_inv deps s" "cs_running s n = Some (Resolved a r)"
  shows "con_inv deps (finish deps rd n a r s)"
proof -
  let ?d = "fst (evaluate_rest deps rd a r (ps_windows (cs_state s)))"
  have "allow_grounded deps (cs_answers s) a d" if "?d = Inr d" "verdict d = ALLOW" for d
    using that by (rule rest_allowed) (use assms in \<open>unfold con_inv_def allow_grounded_def, blast\<close>)
  then show ?thesis using assms(1) by (auto simp: con_inv_def finish_def split_def Let_def split: if_splits)
qed

lemma con_inv_step: "con_step deps s s' \<Longrightarrow> con_inv deps s \<Longrightarrow> con_inv deps s'"
proof (induction rule: con_step.induct)
  case (cancels s n ph)
  then show ?case by (auto simp: con_inv_def dropped_def split: if_splits)
qed (simp_all add: con_inv_arrive con_inv_answered con_inv_finish, simp_all add: con_inv_def)

lemma con_inv_steps: "(con_step deps)\<^sup>*\<^sup>* s s' \<Longrightarrow> con_inv deps s \<Longrightarrow> con_inv deps s'"
  by (induction rule: rtranclp_induct) (auto intro: con_inv_step)

lemma con_inv_start: "breaker_ok (ps_breaker st) \<Longrightarrow> con_inv deps (con_start st db)"
  by (simp add: con_inv_def con_start_def)

section \<open>One evaluation alone\<close>

text \<open>With nothing in between the steps are \<open>evaluate\<close>.\<close>

lemma evaluate_simulated:
  assumes "cs_running s n = None"
  shows "\<exists>s'. (con_step deps)\<^sup>*\<^sup>* s s' \<and> cs_state s' = snd (evaluate deps (mem_lookup (cs_db s)) rd a (cs_state s)) \<and>
    cs_decided s' = cs_decided s @ [(a, fst (evaluate deps (mem_lookup (cs_db s)) rd a (cs_state s)))] \<and>
    cs_running s' = cs_running s \<and> cs_db s' = cs_db s"
proof -
  let ?r = "resolve (Inr (store_get (cs_db s) (agent_did a))) (agent_did a)"
  obtain e br where enter: "call_enter (rd_enter rd) (ps_breaker (cs_state s)) = (e, br)"
    by (cases "call_enter (rd_enter rd) (ps_breaker (cs_state s))")
  let ?s1 = "arrive n (rd_enter rd) a s"
  have st1: "con_step deps s ?s1" using assms by (rule con_step.arrives)
  show ?thesis
  proof (cases e)
    case (Inl x)
    have "con_step deps ?s1 (finish deps rd n a (Inl x) ?s1)"
      by (rule con_step.finishes) (simp add: arrive_def enter Inl)
    with st1 have "(con_step deps)\<^sup>*\<^sup>* s (finish deps rd n a (Inl x) ?s1)" by simp
    then show ?thesis
      by (intro exI[of _ "finish deps rd n a (Inl x) ?s1"])
         (use assms in \<open>auto simp: finish_def arrive_def enter Inl evaluate_stages breaker_call_def mem_lookup_def split_def Let_def fun_eq_iff\<close>)
  next
    case (Inr u)
    let ?s2 = "answered n (rd_exit rd) a (Inr (store_get (cs_db ?s1) (agent_did a))) ?s1"
    have db: "cs_db ?s1 = cs_db s" by (simp add: arrive_def enter)
    have "con_step deps ?s1 ?s2" by (rule con_step.answers) (simp add: arrive_def enter Inr)
    moreover have "con_step deps ?s2 (finish deps rd n a ?r ?s2)"
      by (rule con_step.finishes) (simp add: answered_def Let_def db)
    ultimately have "(con_step deps)\<^sup>*\<^sup>* s (finish deps rd n a ?r ?s2)" using st1 by (meson converse_rtranclp_into_rtranclp r_into_rtranclp)
    then show ?thesis
      by (intro exI[of _ "finish deps rd n a ?r ?s2"])
         (use assms in \<open>auto simp: finish_def answered_def arrive_def enter Inr evaluate_stages breaker_call_def mem_lookup_def split_def Let_def fun_eq_iff\<close>)
  qed
qed

section \<open>Properties\<close>

text \<open>
  C14: Evaluations in flight together. However evaluations of one pipeline, failures and cancellations
  of its store, and changes of the store interleave, the counters of the breaker stay in their
  bounds, and a decision ALLOW rests on an identity the store answered with for that very action, which was
  not revoked at that time, under rules that all allow and a score below the throttle threshold. An
  evaluation with nothing in between is a path of the relation with the decision and state of
  \<open>evaluate\<close>.
\<close>

theorem concurrent_evaluations:
  assumes "(con_step deps)\<^sup>*\<^sup>* (con_start st db) s" "breaker_ok (ps_breaker st)"
  shows "breaker_ok (ps_breaker (cs_state s)) \<and>
    (\<forall>(a, r) \<in> set (cs_decided s). \<forall>d. r = Inr d \<and> verdict d = ALLOW \<longrightarrow>
       (\<exists>i ms. (a, i) \<in> set (cs_answers s) \<and> \<not> revoked i \<and> \<not> degraded d \<and>
          policy_evaluate (pd_bundle deps) a (Some i) (risk_factors (explanation d)) = Inr ms \<and>
          (\<forall>m \<in> set ms. pm_effect m = E_ALLOW) \<and> risk_score (explanation d) < THROTTLE_THRESHOLD)) \<and>
    (cs_running s n = None \<longrightarrow>
       (\<exists>s'. (con_step deps)\<^sup>*\<^sup>* s s' \<and> cs_state s' = snd (evaluate deps (mem_lookup (cs_db s)) rd a (cs_state s)) \<and>
          cs_decided s' = cs_decided s @ [(a, fst (evaluate deps (mem_lookup (cs_db s)) rd a (cs_state s)))]))"
proof (intro conjI impI)
  have v: "con_inv deps s" using assms con_inv_steps con_inv_start by blast
  then show "breaker_ok (ps_breaker (cs_state s))" by (simp add: con_inv_def)
  show "\<forall>(a, r) \<in> set (cs_decided s). \<forall>d. r = Inr d \<and> verdict d = ALLOW \<longrightarrow>
       (\<exists>i ms. (a, i) \<in> set (cs_answers s) \<and> \<not> revoked i \<and> \<not> degraded d \<and>
          policy_evaluate (pd_bundle deps) a (Some i) (risk_factors (explanation d)) = Inr ms \<and>
          (\<forall>m \<in> set ms. pm_effect m = E_ALLOW) \<and> risk_score (explanation d) < THROTTLE_THRESHOLD)"
    using v unfolding con_inv_def allow_grounded_def by fast
  show "\<exists>s'. (con_step deps)\<^sup>*\<^sup>* s s' \<and> cs_state s' = snd (evaluate deps (mem_lookup (cs_db s)) rd a (cs_state s)) \<and>
      cs_decided s' = cs_decided s @ [(a, fst (evaluate deps (mem_lookup (cs_db s)) rd a (cs_state s)))]" if "cs_running s n = None"
    using evaluate_simulated[OF that, of deps rd a] by blast
qed

text \<open>
  A run in which the agent is revoked while its evaluation is under way: the decision is still ALLOW,
  on the answer the store gave before.
\<close>

theorem concurrent_evaluations_witness:
  "\<exists>s1 s2 d i. (con_step (example_deps []))\<^sup>*\<^sup>* (con_start fresh_state example_db) s1 \<and> cs_decided s1 = [] \<and>
     resolve (Inr (store_get (cs_db s1) (agent_did calm_action))) (agent_did calm_action) = Inl i \<and>
     con_step (example_deps []) s1 s2 \<and> cs_decided s2 = [(calm_action, Inr d)] \<and> verdict d = ALLOW \<and>
     risk_score (explanation d) < THROTTLE_THRESHOLD"
proof -
  let ?deps = "example_deps []" let ?i = "agent_identity ''did:test:t'' ELEVATED (3/4) False"
  let ?s0 = "con_start fresh_state example_db"
  have did: "agent_did calm_action = ''did:test:t''" by (simp add: calm_action_def example_action_def)
  have get: "store_get example_db ''did:test:t'' = Some ?i" using calm_lookup by (simp add: mem_lookup_def)
  have live: "\<not> revoked ?i" by (simp add: agent_identity_def)
  define br where "br = snd (breaker_call 1 1 (Inr ?i) (ps_breaker fresh_state))"
  have enter: "call_enter 1 (ps_breaker fresh_state) = (Inr (), ps_breaker fresh_state)"
    by (simp add: fresh_state_def call_enter_def maybe_transition_to_half_open_def new_breaker_def)
  let ?s1 = "arrive 0 1 calm_action ?s0"
  let ?s2 = "answered 0 1 calm_action (Inr (store_get (cs_db ?s1) (agent_did calm_action))) ?s1"
  let ?s3 = "?s2\<lparr>cs_db := store_revoke ''did:test:t'' (cs_db ?s2)\<rparr>"
  let ?s4 = "finish ?deps (example_readings 1) 0 calm_action (Inr ?i) ?s3"
  have db: "cs_db ?s1 = example_db" "cs_db ?s2 = example_db" by (simp_all add: arrive_def enter con_start_def answered_def Let_def)
  have r: "resolve (Inr (store_get (cs_db ?s1) (agent_did calm_action))) (agent_did calm_action) = Inr ?i"
    using live by (simp add: db did get resolve_def)
  have "con_step ?deps ?s0 ?s1" by (rule con_step.arrives) (simp add: con_start_def)
  moreover have "con_step ?deps ?s1 ?s2" by (rule con_step.answers) (simp add: arrive_def enter con_start_def)
  moreover have "con_step ?deps ?s2 ?s3" by (rule con_step.revokes)
  ultimately have to3: "(con_step ?deps)\<^sup>*\<^sup>* ?s0 ?s3" by (meson converse_rtranclp_into_rtranclp r_into_rtranclp)
  have last: "con_step ?deps ?s3 ?s4" by (rule con_step.finishes) (simp add: answered_def Let_def r)
  obtain d where d: "fst (evaluate ?deps (mem_lookup example_db) (example_readings 1) calm_action fresh_state) = Inr d"
      "verdict d = ALLOW" using calm_evaluation by blast
  have rd: "rd_enter (example_readings 1) = 1" "rd_exit (example_readings 1) = 1" by (simp_all add: example_readings_def)
  have rest: "fst (evaluate_rest ?deps (example_readings 1) calm_action (Inr ?i) (ps_windows fresh_state)) = Inr d"
    using d(1) live by (simp add: evaluate_stages rd breaker_call_def enter mem_lookup_def did get resolve_def split_def Let_def)
  have w: "ps_windows (cs_state ?s3) = ps_windows fresh_state"
    by (simp add: answered_def Let_def arrive_def enter con_start_def)
  have none: "cs_decided ?s3 = []" by (simp add: answered_def Let_def arrive_def enter con_start_def)
  have decided: "cs_decided ?s4 = [(calm_action, Inr d)]" 
    using w none rest by (simp add: finish_def split_def Let_def)
  have "(con_step ?deps)\<^sup>*\<^sup>* ?s0 ?s4" using to3 last by simp
  moreover have "breaker_ok (ps_breaker fresh_state)" by (simp add: fresh_state_def breaker_ok_new)
  ultimately have score: "risk_score (explanation d) < THROTTLE_THRESHOLD"
    using concurrent_evaluations[of ?deps fresh_state example_db ?s4] decided d(2) by fastforce
  have "store_get (store_revoke ''did:test:t'' example_db) ''did:test:t'' = Some (?i\<lparr>revoked := True\<rparr>)"
    using get by (simp add: store_revoke_def store_get_def)
  moreover have "cs_db ?s3 = store_revoke ''did:test:t'' example_db"
    by (simp add: arrive_def enter con_start_def answered_def Let_def)
  ultimately have "\<exists>e. resolve (Inr (store_get (cs_db ?s3) (agent_did calm_action))) (agent_did calm_action) = Inl e"
    unfolding did by (simp only:) (simp add: resolve_def)
  with to3 none last decided d(2) score show ?thesis by blast
qed

end
