(* ===== verification/SafeMode.thy ===== *)
theory SafeMode
  imports FailClosed
begin

text \<open>
  src/src/sentinel/resilience/safe_mode.py: the fail-closed decision taken without any
  collaborator. A \<open>stamp\<close> holds what the constructor of a decision draws: its fresh id and the
  clock.
\<close>

type_synonym stamp = "uuid \<times> datetime"

definition safe_allow_types :: "action_type list" where
  "safe_allow_types = [MEMORY_READ, FILE_READ, LLM_PROMPT]"

record safe_mode_config =
  allow_action_types :: "action_type list"
  sm_reason :: string

definition default_safe_mode :: safe_mode_config where
  "default_safe_mode = \<lparr>allow_action_types = safe_allow_types,
     sm_reason = ''sentinel safe-mode: upstream control plane unavailable''\<rparr>"

definition safe_mode_factor :: "safe_mode_config \<Rightarrow> action \<Rightarrow> risk_factor" where
  "safe_mode_factor cfg a = \<lparr>rf_code = ''safe_mode.deny'', severity = 1, detector = ''safe_mode'',
     rf_message = sm_reason cfg, evidence = [(''action_type'', action_type_value (act_type a))]\<rparr>"

definition evaluate_safe_mode :: "stamp \<Rightarrow> action \<Rightarrow> safe_mode_config option \<Rightarrow> decision" where
  "evaluate_safe_mode s a config =
     (let cfg = (case config of None \<Rightarrow> default_safe_mode | Some c \<Rightarrow> c) in
      if act_type a \<in> set (allow_action_types cfg)
      then \<lparr>dec_id = fst s, action_id = act_id a, verdict = ALLOW, decided_at = snd s,
            decided_by = ''sentinel.safe_mode'',
            explanation = \<lparr>summary = ''safe-mode allow (read-only verb)'', triggered_rule_ids = [],
              risk_factors = [], risk_score = 0, recommended_remediation = None, references = []\<rparr>,
            latency_ms = None, cache_hit = False, degraded = True\<rparr>
      else \<lparr>dec_id = fst s, action_id = act_id a, verdict = DENY, decided_at = snd s,
            decided_by = ''sentinel.safe_mode'',
            explanation = \<lparr>summary = sm_reason cfg, triggered_rule_ids = [],
              risk_factors = [safe_mode_factor cfg a], risk_score = 1,
              recommended_remediation = None, references = []\<rparr>,
            latency_ms = None, cache_hit = False, degraded = True\<rparr>)"

definition safe_mode_decisions :: "(stamp \<times> action) list \<Rightarrow> safe_mode_config option \<Rightarrow> decision list" where
  "safe_mode_decisions xs config = map (\<lambda>(s, a). evaluate_safe_mode s a config) xs"

lemma read_only_iff: "read_only a \<longleftrightarrow> act_type a \<in> set safe_allow_types"
  by (cases "act_type a") (simp_all add: read_only_def safe_allow_types_def)

lemma safe_mode_verdict:
  "verdict (evaluate_safe_mode s a config) =
     (if act_type a \<in> set (allow_action_types (case config of None \<Rightarrow> default_safe_mode | Some c \<Rightarrow> c))
      then ALLOW else DENY)"
  by (simp add: evaluate_safe_mode_def Let_def)

section \<open>Properties\<close>

text \<open>
  Safe mode is fail closed. Every decision is degraded and is ALLOW or DENY; the denied ones
  carry risk score 1 and one factor naming the action type; under the default configuration
  exactly the action types the trust gate of the pipeline leaves to the OBSERVE tier are allowed,
  so whatever safe mode allows the gate never closes on; and a batch is the list of the
  decisions.
\<close>

theorem safe_mode_fails_closed:
  "degraded (evaluate_safe_mode s a config) \<and> action_id (evaluate_safe_mode s a config) = act_id a \<and>
   (allowed (evaluate_safe_mode s a None) \<longleftrightarrow> read_only a) \<and>
   (if allowed (evaluate_safe_mode s a config) then
      \<not> (config = None \<and> gate_closes sc ident fs a)
    else verdict (evaluate_safe_mode s a config) = DENY \<and>
      risk_score (explanation (evaluate_safe_mode s a config)) = 1 \<and>
      map severity (risk_factors (explanation (evaluate_safe_mode s a config))) = [1] \<and>
      map evidence (risk_factors (explanation (evaluate_safe_mode s a config))) =
        [[(''action_type'', action_type_value (act_type a))]]) \<and>
   map verdict (safe_mode_decisions xs config) = map (\<lambda>(s, a). verdict (evaluate_safe_mode s a config)) xs"
proof -
  have "allowed (evaluate_safe_mode s a None) \<longleftrightarrow> read_only a"
    by (simp add: allowed_def safe_mode_verdict default_safe_mode_def read_only_iff)
  moreover from this have "allowed (evaluate_safe_mode s a config) \<Longrightarrow> \<not> (config = None \<and> gate_closes sc ident fs a)"
    by (auto simp: gate_closes_def)
  ultimately show ?thesis
    by (auto simp: allowed_def safe_mode_verdict evaluate_safe_mode_def safe_mode_decisions_def
        safe_mode_factor_def Let_def)
qed

end
