(* ===== verification/Sandbox.thy ===== *)
theory Sandbox
  imports Registry
begin

text \<open>
  src/src/sentinel/gateway/sandbox.py. The workload's outcome is the value it returned or the
  exception it raised: under the engine's guard for \<open>run_native\<close>, as \<^verbatim>\<open>asyncio.wait_for\<close> reports
  it, \<^verbatim>\<open>TimeoutError\<close> included, for \<open>run_python\<close>. \<open>encoded\<close> is \<^verbatim>\<open>str(output).encode("utf-8")\<close>:
  its length or what either call raised. \<open>t0\<close> and \<open>t1\<close> are the readings of the performance counter.
\<close>

datatype execution_ring = R0_TRUSTED | R1_NAMESPACED | R2_CONTAINER | R3_REMOTE_VM

fun ring_value :: "execution_ring \<Rightarrow> string" where
  "ring_value R0_TRUSTED = ''R0''"
| "ring_value R1_NAMESPACED = ''R1''"
| "ring_value R2_CONTAINER = ''R2''"
| "ring_value R3_REMOTE_VM = ''R3''"

record 'a sandbox_result =
  sb_output :: "'a option"
  duration_ms :: rat
  ring :: execution_ring
  truncated :: bool
  error :: "string option"

definition elapsed_ms :: "rat \<Rightarrow> rat \<Rightarrow> rat" where
  "elapsed_ms t0 t1 = fl (fl (t1 - t0) * 1000)"

definition run_native :: "rat \<Rightarrow> rat \<Rightarrow> 'a result \<Rightarrow> execution_ring \<Rightarrow> 'a sandbox_result result" where
  "run_native t0 t1 outcome r = (case outcome of
     Inl e \<Rightarrow> (if catches Exception e
       then Inr \<lparr>sb_output = None, duration_ms = elapsed_ms t0 t1, ring = r, truncated = False, error = Some (exn_msg e)\<rparr>
       else Inl e)
   | Inr x \<Rightarrow> Inr \<lparr>sb_output = Some x, duration_ms = elapsed_ms t0 t1, ring = r, truncated = False, error = None\<rparr>)"

definition output_size :: "nat result \<Rightarrow> nat result" where
  "output_size encoded = (case encoded of Inr n \<Rightarrow> Inr n | Inl e \<Rightarrow> if catches Exception e then Inr 0 else Inl e)"

definition run_python ::
  "('a \<Rightarrow> nat result) \<Rightarrow> rat \<Rightarrow> rat \<Rightarrow> 'a result \<Rightarrow> execution_ring \<Rightarrow> int \<Rightarrow> 'a sandbox_result result" where
  "run_python encoded t0 t1 outcome r max_result_bytes = (case outcome of
     Inl e \<Rightarrow>
       (if catches TimeoutError e
        then Inr \<lparr>sb_output = None, duration_ms = elapsed_ms t0 t1, ring = r, truncated = False, error = Some ''timeout''\<rparr>
        else if catches Exception e
        then Inr \<lparr>sb_output = None, duration_ms = elapsed_ms t0 t1, ring = r, truncated = False, error = Some (exn_msg e)\<rparr>
        else Inl e)
   | Inr x \<Rightarrow> bindR (output_size (encoded x)) (\<lambda>size.
       let big = max_result_bytes < int size in
       Inr \<lparr>sb_output = (if big then None else Some x), duration_ms = elapsed_ms t0 t1, ring = r, truncated = big,
            error = None\<rparr>))"

text \<open>The constructor: \<open>imports\<close> is how importing \<^verbatim>\<open>sentinel_engine\<close> ends.\<close>

definition new_sandbox :: "unit result \<Rightarrow> bool result" where
  "new_sandbox imports = (case imports of
     Inr _ \<Rightarrow> Inr True
   | Inl e \<Rightarrow> if catches Exception e then Inr False else Inl e)"

text \<open>\<open>engine\<close> tells whether the Rust extension was importable.\<close>

definition sandbox_run ::
  "bool \<Rightarrow> ('a \<Rightarrow> nat result) \<Rightarrow> rat \<Rightarrow> rat \<Rightarrow> 'a result \<Rightarrow> execution_ring \<Rightarrow> int \<Rightarrow> 'a sandbox_result result" where
  "sandbox_run engine encoded t0 t1 outcome r max_result_bytes =
     (if engine then run_native t0 t1 outcome r else run_python encoded t0 t1 outcome r max_result_bytes)"

text \<open>
  The sandbox reports every outcome and leaks no failure: a result carries an output or an
  error but never both; an output is only ever what the workload returned, and without the engine
  never one whose text is longer than the budget; a failing workload, timeouts included, ends
  in a result with an error and no output; and only exceptions outside Exception, such as a
  cancellation, escape.
\<close>

theorem sandbox_outcomes:
  "case sandbox_run engine encoded t0 t1 outcome r budget of
     Inl e \<Rightarrow> \<not> catches Exception e \<and> (outcome = Inl e \<or> (\<exists>x. outcome = Inr x \<and> encoded x = Inl e))
   | Inr res \<Rightarrow> ring res = r \<and> (sb_output res = None \<or> error res = None) \<and>
       (case outcome of
          Inl e \<Rightarrow> sb_output res = None \<and> error res = Some (if \<not> engine \<and> catches TimeoutError e then ''timeout'' else exn_msg e)
        | Inr x \<Rightarrow> error res = None \<and> sb_output res = (if truncated res then None else Some x) \<and>
            truncated res = (\<not> engine \<and> (\<exists>n. encoded x = Inr n \<and> budget < int n) \<or>
              \<not> engine \<and> budget < 0 \<and> (\<exists>e. encoded x = Inl e)))"
  by (cases outcome; cases engine)
     (auto simp: sandbox_run_def run_native_def run_python_def output_size_def bindR_def Let_def
       split: sum.split if_splits)

end
