(* ===== verification/McpValidators.thy ===== *)
theory McpValidators
  imports Registry
begin

text \<open>
  src/src/sentinel/gateway/mcp_validators.py: stateless checks of a raw MCP invocation. Tool names
  matter beyond U+00FF here, so a tool name is its list of code points, and so are the texts of the
  evidence; resource URIs are strings of the development. \<open>url_path\<close> is the path
  component of \<^verbatim>\<open>urllib.parse.urlparse\<close> on such a string; \<open>host_ok\<close> is its check of a
  bracketed host, which raises \<^verbatim>\<open>ValueError\<close>.
\<close>

type_synonym code_points = "nat list"




section \<open>Tool names\<close>


definition ascii_part :: "code_points \<Rightarrow> code_points" where
  "ascii_part name = filter (\<lambda>c. c < 128) name"


section \<open>urlparse\<close>










section \<open>Resources\<close>





section \<open>Capabilities\<close>



section \<open>What the checks amount to\<close>


lemma ascii_part_idem: "ascii_part (ascii_part n) = ascii_part n"
  by (simp add: ascii_part_def)









section \<open>Properties\<close>


end
