(* ===== verification/SiemExporter.thy ===== *)
theory SiemExporter
  imports Registry "HOL-Library.Multiset" "HOL-Library.Sublist"
begin

text \<open>
  src/src/sentinel/observability/siem_exporter.py: a bounded outbox, flushed in batches by a loop
  with backoff. A line is the compact JSON of an audit record. \<open>'w\<close> is the world a transport
  writes to. Records may be enqueued while a batch is being sent, so the exporter is also a step
  relation, with the history of its lines as ghost state.
\<close>

type_synonym 'w transport = "string list \<Rightarrow> 'w \<Rightarrow> unit result \<times> 'w"

section \<open>Transports\<close>

definition newline :: string where
  "newline = [char_of (10 :: nat)]"

text \<open>The world is what was written to the standard output.\<close>

definition stdout_send :: "string transport" where
  "stdout_send batch out = (Inr (), fold (\<lambda>line s. s @ line @ newline) batch out)"

text \<open>\<open>post\<close> is the HTTP client: the status and text of the response, or its exception.\<close>

definition http_send :: "(string \<Rightarrow> 'w \<Rightarrow> (int \<times> string) result \<times> 'w) \<Rightarrow> 'w transport" where
  "http_send post batch w = (let (r, w') = post (join newline batch) w in
     (bindR r (\<lambda>(code, txt). if 400 \<le> code
        then Inl (Exn RuntimeError (''SIEM export failed: '' @ str_int code @ '' '' @ take 200 txt)) else Inr ()), w'))"

section \<open>The outbox\<close>

record exporter =
  max_outbox :: nat
  batch_size :: int
  outbox :: "string list"

definition new_exporter :: "nat \<Rightarrow> int \<Rightarrow> exporter" where
  "new_exporter m b = \<lparr>max_outbox = m, batch_size = b, outbox = []\<rparr>"

definition default_exporter :: exporter where
  "default_exporter = new_exporter 10000 100"

text \<open>\<^verbatim>\<open>deque(maxlen=m).append\<close> drops from the left.\<close>

definition push_bounded :: "nat \<Rightarrow> string \<Rightarrow> string list \<Rightarrow> string list" where
  "push_bounded m x q = drop (length q + 1 - m) (q @ [x])"

definition siem_enqueue :: "string \<Rightarrow> exporter \<Rightarrow> exporter" where
  "siem_enqueue line ex = ex\<lparr>outbox := push_bounded (max_outbox ex) line (outbox ex)\<rparr>"

definition batch_len :: "int \<Rightarrow> string list \<Rightarrow> nat" where
  "batch_len b q = nat (min b (int (length q)))"

function flush :: "int \<Rightarrow> 'w transport \<Rightarrow> string list \<Rightarrow> 'w \<Rightarrow> unit result \<times> string list \<times> 'w" where
  "flush b send q w =
     (if q = [] \<or> batch_len b q = 0 then (Inr (), q, w)
      else (let (r, w') = send (take (batch_len b q) q) w in
        case r of Inl e \<Rightarrow> (Inl e, drop (batch_len b q) q, w')
        | Inr _ \<Rightarrow> flush b send (drop (batch_len b q) q) w'))"
  by pat_completeness auto
termination
  by (relation "measure (\<lambda>(b, send, q, w). length q)") auto

declare flush.simps [simp del]

definition siem_flush :: "'w transport \<Rightarrow> exporter \<Rightarrow> 'w \<Rightarrow> unit result \<times> exporter \<times> 'w" where
  "siem_flush send ex w = (let (r, q, w') = flush (batch_size ex) send (outbox ex) w in (r, ex\<lparr>outbox := q\<rparr>, w'))"

section \<open>The loop\<close>

text \<open>One turn of \<^verbatim>\<open>_run\<close> after its sleep: the new backoff, the extra sleep, or the exception that ends it.\<close>

definition siem_turn :: "unit result \<Rightarrow> rat \<Rightarrow> (rat \<times> rat option) result" where
  "siem_turn r backoff = (case r of
     Inr _ \<Rightarrow> Inr (1/2, None)
   | Inl e \<Rightarrow>
       if catches CancelledError e then Inl e
       else if catches Exception e then Inr (min (fl (backoff * 2)) 30, Some backoff)
       else Inl e)"

fun siem_loop :: "unit result list \<Rightarrow> rat \<Rightarrow> rat list \<Rightarrow> (rat \<times> rat list) result" where
  "siem_loop [] backoff slept = Inr (backoff, slept)"
| "siem_loop (r # rs) backoff slept = bindR (siem_turn r backoff) (\<lambda>(b, z).
     siem_loop rs b (slept @ (case z of None \<Rightarrow> [] | Some t \<Rightarrow> [t])))"

definition siem_run :: "unit result list \<Rightarrow> (rat \<times> rat list) result" where
  "siem_run rs = siem_loop rs (1/2) []"

section \<open>Starting, stopping and the default transport\<close>

text \<open>The task of the loop; the loop ends with an exception only, so \<open>Done\<close> carries it.\<close>

datatype siem_task = No_task | Running | Done exn

definition siem_start_task :: "siem_task \<Rightarrow> siem_task" where
  "siem_start_task t = (case t of Running \<Rightarrow> t | _ \<Rightarrow> Running)"

text \<open>\<open>ended\<close> is the exception a running task ends with once it is cancelled.\<close>

definition siem_stop ::
  "'w transport \<Rightarrow> exn \<Rightarrow> siem_task \<times> exporter \<Rightarrow> 'w \<Rightarrow> unit result \<times> (siem_task \<times> exporter) \<times> 'w" where
  "siem_stop send ended st w = (let (t, ex) = st;
     awaited = (case t of No_task \<Rightarrow> Inr () | Running \<Rightarrow> Inl ended | Done e \<Rightarrow> Inl e) in
     case awaited of
       Inl e \<Rightarrow> if catches CancelledError e
         then (let (r, ex', w') = siem_flush send ex w in (r, (No_task, ex'), w'))
         else (Inl e, (t, ex), w)
     | Inr _ \<Rightarrow> (let (r, ex', w') = siem_flush send ex w in (r, (t, ex'), w')))"

datatype siem_destination = To_stdout | To_http string "(string, string) pydict"

definition default_transport :: "(string, string) pydict \<Rightarrow> siem_destination" where
  "default_transport env = (let endpoint = or_empty (map_of env ''SENTINEL_SIEM_HTTP_ENDPOINT'');
       token = or_empty (map_of env ''SENTINEL_SIEM_HTTP_TOKEN'') in
     if endpoint = [] then To_stdout
     else To_http endpoint ([(''content-type'', ''application/x-ndjson'')] @
       (if token = [] then [] else [(''authorization'', ''Bearer '' @ token)])))"

section \<open>Interleavings\<close>













section \<open>Flushing\<close>

text \<open>A flush sends consecutive batches from the front until the outbox is empty or a send fails.\<close>

lemma flush_split:
  "flush b send q w = (r, q', w') \<Longrightarrow> \<exists>n. q' = drop n q"
proof (induction b send q w rule: flush.induct)
  case (1 b send q w)
  show ?case
  proof (cases "q = [] \<or> batch_len b q = 0")
    case True
    then have "q' = drop 0 q" using 1(2) by (auto simp: flush.simps)
    then show ?thesis by blast
  next
    case False
    obtain x u where s: "send (take (batch_len b q) q) w = (x, u)" by (cases "send (take (batch_len b q) q) w")
    show ?thesis
    proof (cases x)
      case (Inl e)
      then show ?thesis using 1(2) False s by (auto simp: flush.simps)
    next
      case (Inr y)
      then have "flush b send (drop (batch_len b q) q) u = (r, q', w')"
        using 1(2) False s by (subst (asm) flush.simps) simp
      from 1(1)[OF False s[symmetric] refl _ this] Inr have "\<exists>n. q' = drop n (drop (batch_len b q) q)" by auto
      then show ?thesis by auto
    qed
  qed
qed

lemma batch_len_pos: "q \<noteq> [] \<Longrightarrow> 0 < b \<Longrightarrow> 0 < batch_len b q"
  by (cases q) (auto simp: batch_len_def min_def)

lemma flush_step:
  assumes "q \<noteq> []" "0 < b"
  shows "flush b send q w = (case send (take (batch_len b q) q) w of
     (Inl e, w') \<Rightarrow> (Inl e, drop (batch_len b q) q, w')
   | (Inr _, w') \<Rightarrow> flush b send (drop (batch_len b q) q) w')"
proof -
  have "0 < batch_len b q" using assms by (rule batch_len_pos)
  then show ?thesis using assms(1) by (subst flush.simps) (simp add: split_def Let_def)
qed

lemma flush_stdout:
  assumes "0 < b"
  shows "flush b stdout_send q out = (Inr (), [], fold (\<lambda>line s. s @ line @ newline) q out)"
proof (induction q arbitrary: out rule: length_induct)
  case (1 q)
  show ?case
  proof (cases "q = []")
    case False
    let ?n = "batch_len b q"
    have "length (drop ?n q) < length q" using False batch_len_pos[OF False assms] by simp
    then have "flush b stdout_send (drop ?n q) o' = (Inr (), [], fold (\<lambda>line s. s @ line @ newline) (drop ?n q) o')" for o'
      using 1 by blast
    moreover have "fold (\<lambda>line s. s @ line @ newline) (drop ?n q) (fold (\<lambda>line s. s @ line @ newline) (take ?n q) out) =
        fold (\<lambda>line s. s @ line @ newline) q out"
      by (metis append_take_drop_id comp_apply fold_append)
    moreover have "stdout_send (take ?n q) out = (Inr (), fold (\<lambda>line s. s @ line @ newline) (take ?n q) out)"
      by (simp add: stdout_send_def)
    ultimately show ?thesis using False assms by (simp add: flush_step)
  qed (simp add: flush.simps)
qed

text \<open>A transport that never fails: a flush, and so a stop, leaves nothing behind.\<close>

lemma flush_ok:
  assumes "0 < b" "\<forall>batch w. fst (send batch w) = Inr ()"
  shows "\<exists>w'. flush b send q w = (Inr (), [], w')"
proof (induction q arbitrary: w rule: length_induct)
  case (1 q)
  show ?case
  proof (cases "q = []")
    case False
    obtain w1 where "send (take (batch_len b q) q) w = (Inr (), w1)"
      using assms(2) by (metis prod.collapse)
    moreover have "length (drop (batch_len b q) q) < length q" using False batch_len_pos[OF False assms(1)] by simp
    ultimately show ?thesis using 1 False assms(1) by (simp add: flush_step)
  qed (simp add: flush.simps)
qed

lemma stop_drains:
  assumes "0 < batch_size ex" "\<forall>batch w. fst (send batch w) = Inr ()" "catches CancelledError ended" "t \<in> {No_task, Running}"
  shows "\<exists>w'. siem_stop send ended (t, ex) w = (Inr (), (No_task, ex\<lparr>outbox := []\<rparr>), w')"
  using flush_ok[OF assms(1,2), of "outbox ex" w] assms(3,4) by (auto simp: siem_stop_def siem_flush_def)


lemma siem_turn_bounds:
  assumes "siem_turn r b = Inr (b', z)" "1/2 \<le> b" "b \<le> 30"
  shows "1/2 \<le> b' \<and> b' \<le> 30 \<and> (\<forall>t. z = Some t \<longrightarrow> 1/2 \<le> t \<and> t \<le> 30)"
proof -
  have h: "fl (1/2) = (1/2 :: rat)" using fl_powi[of "- 1"] by (simp add: power_int_minus)
  have "1/2 \<le> fl (b * 2)" using fl_mono[of "1/2" "b * 2"] assms(2) by (simp add: h)
  then show ?thesis using assms by (auto simp: siem_turn_def split: sum.splits if_splits)
qed

lemma siem_loop_bounds:
  assumes "siem_loop rs b zs = Inr (b', zs')" "1/2 \<le> b" "b \<le> 30" "\<forall>t \<in> set zs. 1/2 \<le> t \<and> t \<le> 30"
  shows "1/2 \<le> b' \<and> b' \<le> 30 \<and> (\<forall>t \<in> set zs'. 1/2 \<le> t \<and> t \<le> 30)"
  using assms
proof (induction rs arbitrary: b zs)
  case (Cons r rs)
  obtain c z where t: "siem_turn r b = Inr (c, z)"
    and l: "siem_loop rs c (zs @ (case z of None \<Rightarrow> [] | Some t \<Rightarrow> [t])) = Inr (b', zs')"
    using Cons.prems(1) by (auto simp: bindR_Inr_iff)
  show ?case using siem_turn_bounds[OF t] Cons.prems(2-4) by (intro Cons.IH[OF l]) (auto split: option.splits)
qed simp

section \<open>Properties\<close>



text \<open>
  Flushing. With a positive batch size a flush to the standard output writes every waiting
  line, in order and one per line, and empties the outbox. When the transport fails on a batch, the
  flush ends with its exception and the batch is gone: it was taken off the outbox first and is
  not put back, so the loop's retry sends later records only. The loop's pauses stay between half a
  second and thirty seconds.
\<close>

theorem flush_loses_failed_batch:
  assumes "0 < b" "q \<noteq> []"
  shows "flush b stdout_send q out = (Inr (), [], fold (\<lambda>line s. s @ line @ newline) q out) \<and>
    (\<forall>e w'. send (take (batch_len b q) q) w = (Inl e, w') \<longrightarrow> flush b send q w = (Inl e, drop (batch_len b q) q, w')) \<and>
    batch_len b q > 0 \<and>
    (\<forall>rs b' zs. siem_run rs = Inr (b', zs) \<longrightarrow> (\<forall>t \<in> set zs. 1/2 \<le> t \<and> t \<le> 30))"
proof (intro conjI)
  show "flush b stdout_send q out = (Inr (), [], fold (\<lambda>line s. s @ line @ newline) q out)"
    using assms(1) by (rule flush_stdout)
  show "\<forall>rs b' zs. siem_run rs = Inr (b', zs) \<longrightarrow> (\<forall>t \<in> set zs. 1/2 \<le> t \<and> t \<le> 30)"
    using siem_loop_bounds[of _ "1/2" "[]"] by (simp add: siem_run_def)
qed (use assms in \<open>simp_all add: flush_step batch_len_pos\<close>)

theorem flush_loses_failed_batch_witness:
  "fst (snd (flush 100 (http_send (\<lambda>payload n. (Inr (503, ''busy''), Suc n))) [''r1'', ''r2''] (0 :: nat))) = []"
proof -
  have n: "batch_len 100 [''r1'', ''r2''] = 2" by (simp add: batch_len_def)
  obtain e where "http_send (\<lambda>payload n. (Inr (503, ''busy''), Suc n)) [''r1'', ''r2''] 0 = (Inl e, Suc 0)"
    by (simp add: http_send_def)
  then show ?thesis
    using flush_loses_failed_batch[of 100 "[''r1'', ''r2'']" _ "http_send (\<lambda>payload n. (Inr (503, ''busy''), Suc n))" 0] n
    by auto
qed

end
