(* ===== verification/GuardChecker.thy ===== *)
theory GuardChecker
  imports Prelude
begin

text \<open>
  src/src/sentinel/static_analysis/guard_checker.py: the scanner over a Python syntax tree, the walk
  over files and the exit code. The tree is the part of \<^verbatim>\<open>ast\<close> the scanner tells apart; parsing and
  the directory listing are parameters.
\<close>

section \<open>Syntax trees\<close>

text \<open>
  A node with its children in the order \<^verbatim>\<open>generic_visit\<close> takes them: a call its function and then
  its arguments; a function definition, async or not, its parameters and body, its decorators, and
  the rest; any other node its children.
\<close>

datatype py_ast =
    Name string
  | Attribute py_ast string
  | Call nat nat py_ast "py_ast list"
  | FunctionDef bool "py_ast list" "py_ast list" "py_ast list"
  | Other "py_ast list"

type_synonym file_path = "string list"

record violation =
  vl_path :: file_path
  vl_line :: nat
  vl_column :: nat
  callee :: string
  vl_message :: string

definition sensitive_names :: "string set" where
  "sensitive_names = {''subprocess.Popen'', ''subprocess.run'', ''subprocess.call'', ''os.system'', ''os.exec'',
     ''os.execv'', ''os.execvp'', ''os.fork'', ''os.kill'', ''eval'', ''exec'', ''compile'', ''shutil.rmtree'',
     ''socket.socket'', ''open''}"

fun dotted :: "py_ast \<Rightarrow> string option" where
  "dotted (Name i) = Some i"
| "dotted (Attribute v a) = (case dotted v of
     None \<Rightarrow> Some a
   | Some base \<Rightarrow> Some (if base \<noteq> [] then base @ ''.'' @ a else a))"
| "dotted _ = None"

definition decorator_name :: "py_ast \<Rightarrow> string option" where
  "decorator_name dec = (case dec of Call _ _ f _ \<Rightarrow> dotted f | _ \<Rightarrow> dotted dec)"

fun has_guard_decorator :: "py_ast list \<Rightarrow> bool" where
  "has_guard_decorator [] = False"
| "has_guard_decorator (dec # decs) = (case decorator_name dec of
     None \<Rightarrow> has_guard_decorator decs
   | Some n \<Rightarrow> (n \<noteq> [] \<and> last (split_on CHR ''.'' n) = ''guard'') \<or> has_guard_decorator decs)"

section \<open>The scanner\<close>

record scanner =
  sn_path :: file_path
  violations :: "violation list"
  guarded_stack :: "bool list"

definition new_scanner :: "file_path \<Rightarrow> scanner" where
  "new_scanner p = \<lparr>sn_path = p, violations = [], guarded_stack = [False]\<rparr>"

definition mk_violation :: "file_path \<Rightarrow> nat \<Rightarrow> nat \<Rightarrow> string \<Rightarrow> violation" where
  "mk_violation p l c n = \<lparr>vl_path = p, vl_line = l, vl_column = c, callee = n,
     vl_message = ''unguarded sensitive call: '' @ n\<rparr>"

text \<open>\<open>visit_call\<close> without its \<^verbatim>\<open>generic_visit\<close>.\<close>

definition check_call :: "nat \<Rightarrow> nat \<Rightarrow> py_ast \<Rightarrow> scanner \<Rightarrow> scanner" where
  "check_call l c f s = (case dotted f of
     None \<Rightarrow> s
   | Some n \<Rightarrow>
       if n \<noteq> [] \<and> n \<in> sensitive_names \<and> True \<notin> set (guarded_stack s)
       then s\<lparr>violations := violations s @ [mk_violation (sn_path s) l c n]\<rparr> else s)"

definition push_guard :: "bool \<Rightarrow> scanner \<Rightarrow> scanner" where
  "push_guard g s = s\<lparr>guarded_stack := guarded_stack s @ [g]\<rparr>"

definition pop_guard :: "scanner \<Rightarrow> scanner" where
  "pop_guard s = s\<lparr>guarded_stack := butlast (guarded_stack s)\<rparr>"

fun visit :: "py_ast \<Rightarrow> scanner \<Rightarrow> scanner"
  and visit_all :: "py_ast list \<Rightarrow> scanner \<Rightarrow> scanner" where
  "visit (Name i) s = s"
| "visit (Attribute v a) s = visit v s"
| "visit (Call l c f args) s = visit_all args (visit f (check_call l c f s))"
| "visit (FunctionDef is_async body decs rest) s =
     pop_guard (visit_all rest (visit_all decs (visit_all body (push_guard (has_guard_decorator decs) s))))"
| "visit (Other ns) s = visit_all ns s"
| "visit_all [] s = s"
| "visit_all (n # ns) s = visit_all ns (visit n s)"

section \<open>Files\<close>

text \<open>What reading and parsing a file gives; the line, offset and message of a SyntaxError may be absent.\<close>

datatype parsed = Tree py_ast | SyntaxErr "nat option" "nat option" string

definition or_zero :: "nat option \<Rightarrow> nat" where
  "or_zero n = (case n of None \<Rightarrow> 0 | Some k \<Rightarrow> k)"

definition scan_file :: "(file_path \<Rightarrow> parsed result) \<Rightarrow> file_path \<Rightarrow> violation list result" where
  "scan_file parse p = bindR (parse p) (\<lambda>t. Inr (case t of
     SyntaxErr l off msg \<Rightarrow>
       [\<lparr>vl_path = p, vl_line = or_zero l, vl_column = or_zero off, callee = ''<parse error>'',
         vl_message = ''syntax error: '' @ msg\<rparr>]
   | Tree a \<Rightarrow> violations (visit a (new_scanner p))))"

text \<open>A path is a file, a directory with what \<^verbatim>\<open>rglob("*.py")\<close> lists below it, or nothing.\<close>

datatype path_kind = IsFile | IsDir "file_path list" | Missing

definition py_suffix :: "string \<Rightarrow> bool" where
  "py_suffix n \<longleftrightarrow> n \<noteq> ''.py'' \<and> startswith (rev n) (rev ''.py'')"

definition skipped_parts :: "string list" where
  "skipped_parts = [''.venv'', ''venv'', ''build'', ''dist'', ''tests'']"

definition skipped :: "file_path \<Rightarrow> bool" where
  "skipped p = list_ex (\<lambda>s. s \<in> set p) skipped_parts"

fun scan_listing :: "(file_path \<Rightarrow> parsed result) \<Rightarrow> file_path list \<Rightarrow> violation list result" where
  "scan_listing parse [] = Inr []"
| "scan_listing parse (p # ps) =
     (if skipped p then scan_listing parse ps
      else bindR (scan_file parse p) (\<lambda>vs. bindR (scan_listing parse ps) (\<lambda>ws. Inr (vs @ ws))))"

fun scan_paths :: "(file_path \<Rightarrow> parsed result) \<Rightarrow> (file_path \<Rightarrow> path_kind) \<Rightarrow> file_path list \<Rightarrow> violation list result" where
  "scan_paths parse kind [] = Inr []"
| "scan_paths parse kind (start # starts) =
     bindR (case kind start of
         IsFile \<Rightarrow> if start \<noteq> [] \<and> py_suffix (last start) then scan_file parse start else Inr []
       | IsDir ps \<Rightarrow> scan_listing parse ps
       | Missing \<Rightarrow> Inr []) (\<lambda>vs.
     bindR (scan_paths parse kind starts) (\<lambda>ws. Inr (vs @ ws)))"

definition guard_main :: "(file_path \<Rightarrow> parsed result) \<Rightarrow> (file_path \<Rightarrow> path_kind) \<Rightarrow> file_path list \<Rightarrow> int result" where
  "guard_main parse kind starts = bindR (scan_paths parse kind starts) (\<lambda>vs. Inr (if vs \<noteq> [] then 1 else 0))"

section \<open>What is reported\<close>

text \<open>
  \<open>call_in t (l, c, n) gs\<close>: the tree has a call of the dotted name \<open>n\<close> at that position, and \<open>gs\<close>
  says of the enclosing function definitions, outermost first, whether each has a guard decorator.
\<close>

inductive call_in :: "py_ast \<Rightarrow> nat \<times> nat \<times> string \<Rightarrow> bool list \<Rightarrow> bool" where
  call_here: "dotted f = Some n \<Longrightarrow> call_in (Call l c f args) (l, c, n) []"
| call_attr: "call_in v k gs \<Longrightarrow> call_in (Attribute v a) k gs"
| call_fun: "call_in f k gs \<Longrightarrow> call_in (Call l c f args) k gs"
| call_arg: "a \<in> set args \<Longrightarrow> call_in a k gs \<Longrightarrow> call_in (Call l c f args) k gs"
| call_def: "a \<in> set (body @ decs @ rest) \<Longrightarrow> call_in a k gs \<Longrightarrow>
    call_in (FunctionDef is_async body decs rest) k (has_guard_decorator decs # gs)"
| call_other: "a \<in> set ns \<Longrightarrow> call_in a k gs \<Longrightarrow> call_in (Other ns) k gs"

inductive_simps call_in_Name [simp]: "call_in (Name i) k gs"
inductive_simps call_in_Attribute [simp]: "call_in (Attribute v a) k gs"
inductive_simps call_in_Call: "call_in (Call l c f args) k gs"
inductive_simps call_in_FunctionDef: "call_in (FunctionDef b body decs rest) k gs"
inductive_simps call_in_Other [simp]: "call_in (Other ns) k gs"

text \<open>The calls of a tree a scanner with guards \<open>st\<close> reports, each at its place in the order of the walk.\<close>

definition call_report :: "bool list \<Rightarrow> nat \<Rightarrow> nat \<Rightarrow> py_ast \<Rightarrow> (nat \<times> nat \<times> string) list" where
  "call_report st l c f = (case dotted f of
     None \<Rightarrow> [] | Some n \<Rightarrow> if n \<in> sensitive_names \<and> True \<notin> set st then [(l, c, n)] else [])"

fun reports :: "bool list \<Rightarrow> py_ast \<Rightarrow> (nat \<times> nat \<times> string) list" where
  "reports st (Name i) = []"
| "reports st (Attribute v a) = reports st v"
| "reports st (Call l c f args) = call_report st l c f @ reports st f @ concat (map (reports st) args)"
| "reports st (FunctionDef b body decs rest) =
     concat (map (reports (st @ [has_guard_decorator decs])) (body @ decs @ rest))"
| "reports st (Other ns) = concat (map (reports st) ns)"

definition reported :: "file_path \<Rightarrow> nat \<times> nat \<times> string \<Rightarrow> violation" where
  "reported p k = (case k of (l, c, n) \<Rightarrow> mk_violation p l c n)"

lemma Nil_not_sensitive: "[] \<notin> sensitive_names"
  by (simp add: sensitive_names_def)

lemma check_call_report:
  "check_call l c f s = s\<lparr>violations := violations s @ map (reported (sn_path s)) (call_report (guarded_stack s) l c f)\<rparr>"
  using Nil_not_sensitive by (auto simp: check_call_def call_report_def reported_def split: option.split)

text \<open>The walk leaves the stack as it was and appends the reports.\<close>

lemma visit_reports:
  "visit t s = s\<lparr>violations := violations s @ map (reported (sn_path s)) (reports (guarded_stack s) t)\<rparr>"
  "visit_all ts s = s\<lparr>violations := violations s @ map (reported (sn_path s)) (concat (map (reports (guarded_stack s)) ts))\<rparr>"
  by (induction t s and ts s rule: visit_visit_all.induct)
     (simp_all add: check_call_report push_guard_def pop_guard_def)

text \<open>A call of \<open>k\<close> in the tree that is sensitive and unguarded below guards \<open>st\<close>.\<close>

definition exposed :: "bool list \<Rightarrow> py_ast \<Rightarrow> nat \<times> nat \<times> string \<Rightarrow> bool" where
  "exposed st t k \<longleftrightarrow> (\<exists>gs. call_in t k gs \<and> snd (snd k) \<in> sensitive_names \<and> True \<notin> set (st @ gs))"

lemma exposed_simps [simp]:
  "\<not> exposed st (Name i) k"
  "exposed st (Attribute v a) k \<longleftrightarrow> exposed st v k"
  "exposed st (Other ns) k \<longleftrightarrow> (\<exists>n \<in> set ns. exposed st n k)"
  by (auto simp: exposed_def)

lemma exposed_FunctionDef:
  "exposed st (FunctionDef b body decs rest) k \<longleftrightarrow>
     (\<exists>n \<in> set (body @ decs @ rest). exposed (st @ [has_guard_decorator decs]) n k)"
  unfolding exposed_def call_in_FunctionDef by fastforce

lemma exposed_Call:
  "exposed st (Call l c f args) k \<longleftrightarrow>
     k \<in> set (call_report st l c f) \<or> exposed st f k \<or> (\<exists>n \<in> set args. exposed st n k)"
proof -
  have here: "k \<in> set (call_report st l c f) \<longleftrightarrow>
      (\<exists>n. dotted f = Some n \<and> k = (l, c, n)) \<and> snd (snd k) \<in> sensitive_names \<and> True \<notin> set st"
    by (auto simp: call_report_def split: option.splits)
  have "call_in (Call l c f args) k gs \<longleftrightarrow>
      gs = [] \<and> (\<exists>n. dotted f = Some n \<and> k = (l, c, n)) \<or> call_in f k gs \<or> (\<exists>a \<in> set args. call_in a k gs)" for gs
    by (subst call_in_Call) auto
  then show ?thesis unfolding exposed_def here by auto
qed

lemma reports_iff: "k \<in> set (reports st t) \<longleftrightarrow> exposed st t k"
proof (induction t arbitrary: st)
  case (FunctionDef b body decs rest)
  have "k \<in> set (reports st' n) \<longleftrightarrow> exposed st' n k" if "n \<in> set (body @ decs @ rest)" for n st'
    using that unfolding set_append Un_iff by (elim disjE) (erule FunctionDef.IH)+
  then have "(\<exists>n \<in> set (body @ decs @ rest). k \<in> set (reports st' n)) \<longleftrightarrow>
      (\<exists>n \<in> set (body @ decs @ rest). exposed st' n k)" for st'
    by (rule bex_cong[OF refl])
  moreover have "k \<in> set (concat (map h xs)) \<longleftrightarrow> (\<exists>n \<in> set xs. k \<in> set (h n))"
    for h :: "py_ast \<Rightarrow> (nat \<times> nat \<times> string) list" and xs
    by simp
  ultimately show ?case by (simp only: exposed_FunctionDef reports.simps(4))
qed (simp_all add: exposed_Call)

section \<open>The exit code\<close>

text \<open>The files a run looks into.\<close>

fun scanned :: "(file_path \<Rightarrow> path_kind) \<Rightarrow> file_path list \<Rightarrow> file_path list" where
  "scanned kind [] = []"
| "scanned kind (start # starts) = (case kind start of
       IsFile \<Rightarrow> if start \<noteq> [] \<and> py_suffix (last start) then [start] else []
     | IsDir ps \<Rightarrow> filter (\<lambda>p. \<not> skipped p) ps
     | Missing \<Rightarrow> []) @ scanned kind starts"

fun scan_files :: "(file_path \<Rightarrow> parsed result) \<Rightarrow> file_path list \<Rightarrow> violation list result" where
  "scan_files parse [] = Inr []"
| "scan_files parse (p # ps) = bindR (scan_file parse p) (\<lambda>vs. bindR (scan_files parse ps) (\<lambda>ws. Inr (vs @ ws)))"

lemma scan_files_append:
  "scan_files parse (ps @ qs) = bindR (scan_files parse ps) (\<lambda>vs. bindR (scan_files parse qs) (\<lambda>ws. Inr (vs @ ws)))"
  by (induction ps) (auto simp: bindR_def split: sum.splits)

lemma scan_listing_eq: "scan_listing parse ps = scan_files parse (filter (\<lambda>p. \<not> skipped p) ps)"
  by (induction ps) simp_all

lemma bindR_return [simp]: "bindR m Inr = m"
  by (cases m) simp_all

lemma scan_paths_eq: "scan_paths parse kind starts = scan_files parse (scanned kind starts)"
  by (induction starts) (auto simp: scan_files_append scan_listing_eq split: path_kind.splits)

lemma scan_files_clean: "scan_files parse ps = Inr [] \<longleftrightarrow> list_all (\<lambda>p. scan_file parse p = Inr []) ps"
  by (induction ps) (auto simp: bindR_Inr_iff)

lemma reports_Nil_iff: "reports st t = [] \<longleftrightarrow> \<not> (\<exists>k. exposed st t k)"
  using reports_iff[of _ st t] by (metis list.set_intros(1) neq_Nil_conv empty_iff empty_set)

lemma scan_file_clean:
  "scan_file parse p = Inr [] \<longleftrightarrow> (\<exists>t. parse p = Inr (Tree t) \<and> \<not> (\<exists>k. exposed [] t k))"
proof -
  have e: "exposed [False] t k \<longleftrightarrow> exposed [] t k" for t k by (simp add: exposed_def)
  have "scan_file parse p = Inr [] \<longleftrightarrow> (\<exists>x. parse p = Inr x \<and> (\<exists>t. x = Tree t \<and> reports [False] t = []))"
    unfolding scan_file_def bindR_Inr_iff
    by (intro ex_cong1 conj_cong refl) (auto simp: visit_reports new_scanner_def split: parsed.split)
  then show ?thesis by (auto simp: reports_Nil_iff e)
qed

section \<open>Properties\<close>

text \<open>
  C23: The violations reported for a syntax tree are exactly its calls of a sensitive dotted name
  none of whose enclosing function definitions, async or nested, has a guard decorator, and the walk
  leaves the stack of guards as it found it. Decorators and default arguments count as enclosed by
  their own function. The dotted name of a method of a call's result is the bare method name, so
  \<^verbatim>\<open>f().open()\<close> is reported as the builtin.
\<close>

theorem guard_scan_exact:
  "set (violations (visit t (new_scanner p))) =
     {mk_violation p l c n | l c n gs. call_in t (l, c, n) gs \<and> n \<in> sensitive_names \<and> True \<notin> set gs} \<and>
   guarded_stack (visit t s) = guarded_stack s \<and>
   dotted (Attribute (Call l c f args) a) = Some a"
proof (intro conjI)
  show "set (violations (visit t (new_scanner p))) =
     {mk_violation p l c n | l c n gs. call_in t (l, c, n) gs \<and> n \<in> sensitive_names \<and> True \<notin> set gs}"
    by (force simp: visit_reports new_scanner_def reported_def reports_iff exposed_def image_iff)
qed (simp_all add: visit_reports)

text \<open>
  The exit code is 0 exactly when every file looked into parses and has no unguarded sensitive
  call, it is never anything but 0 or 1, and the run raises only what reading a file raises; but a
  directory below a component named like a virtual environment, a build output or tests is not
  looked into, even if it is the directory asked for: the exit code is 0 whatever it holds.
\<close>

theorem guard_exit_exact:
  "(guard_main parse kind starts = Inr 0 \<longleftrightarrow>
     list_all (\<lambda>p. \<exists>t. parse p = Inr (Tree t) \<and>
       \<not> (\<exists>l c n gs. call_in t (l, c, n) gs \<and> n \<in> sensitive_names \<and> True \<notin> set gs)) (scanned kind starts)) \<and>
   (guard_main parse kind starts = Inr code \<longrightarrow> code = 0 \<or> code = 1) \<and>
   (list_all skipped ps \<longrightarrow> guard_main parse (\<lambda>_. IsDir ps) [start] = Inr 0)"
proof (intro conjI impI)
  have "guard_main parse kind starts = Inr 0 \<longleftrightarrow> scan_files parse (scanned kind starts) = Inr []"
    by (auto simp: guard_main_def bindR_Inr_iff scan_paths_eq split: if_splits)
  then show "guard_main parse kind starts = Inr 0 \<longleftrightarrow>
     list_all (\<lambda>p. \<exists>t. parse p = Inr (Tree t) \<and>
       \<not> (\<exists>l c n gs. call_in t (l, c, n) gs \<and> n \<in> sensitive_names \<and> True \<notin> set gs)) (scanned kind starts)"
    by (simp add: scan_files_clean scan_file_clean exposed_def)
next
  assume "list_all skipped ps"
  then have "filter (\<lambda>p. \<not> skipped p) ps = []" by (simp add: list_all_iff)
  then show "guard_main parse (\<lambda>_. IsDir ps) [start] = Inr 0"
    by (simp add: guard_main_def scan_paths_eq del: scan_paths.simps)
qed (auto simp: guard_main_def bindR_Inr_iff split: if_splits)

text \<open>A file with an unguarded \<^verbatim>\<open>eval\<close>, once in \<^verbatim>\<open>src\<close> and once in a checkout below \<^verbatim>\<open>build\<close>.\<close>

theorem guard_exit_exact_witness:
  "guard_main (\<lambda>_. Inr (Tree (Call 1 0 (Name ''eval'') []))) (\<lambda>_. IsDir [[''build'', ''src'', ''a.py'']]) [[''build'', ''src'']] = Inr 0 \<and>
   guard_main (\<lambda>_. Inr (Tree (Call 1 0 (Name ''eval'') []))) (\<lambda>_. IsDir [[''src'', ''a.py'']]) [[''src'']] \<noteq> Inr 0"
proof
  have "list_all skipped [[''build'', ''src'', ''a.py'']]" by (simp add: skipped_def skipped_parts_def)
  then show "guard_main (\<lambda>_. Inr (Tree (Call 1 0 (Name ''eval'') []))) (\<lambda>_. IsDir [[''build'', ''src'', ''a.py'']]) [[''build'', ''src'']] = Inr 0"
    using guard_exit_exact[of _ _ _ undefined "[[''build'', ''src'', ''a.py'']]" "[''build'', ''src'']"] by blast
  have "call_in (Call 1 0 (Name ''eval'') []) (1, 0, ''eval'') [] \<and> ''eval'' \<in> sensitive_names"
    by (simp add: call_here sensitive_names_def)
  then show "guard_main (\<lambda>_. Inr (Tree (Call 1 0 (Name ''eval'') []))) (\<lambda>_. IsDir [[''src'', ''a.py'']]) [[''src'']] \<noteq> Inr 0"
    unfolding guard_exit_exact[THEN conjunct1]
    by (simp add: skipped_def skipped_parts_def) (metis empty_iff empty_set)
qed

end
