(* ===== verification/RateLimit.thy ===== *)
theory RateLimit
  imports Registry
begin

text \<open>
  src/src/sentinel/api/middleware/rate_limit.py: one token bucket per tenant, in binary64. \<open>now\<close>
  is the monotonic clock a call reads; a bucket is created by the first request of its tenant.
\<close>

record bucket =
  capacity :: rat
  tokens :: rat
  refill_per_second :: rat
  last_refill :: rat

definition refill :: "rat \<Rightarrow> bucket \<Rightarrow> bucket" where
  "refill now b = b\<lparr>tokens := min (capacity b) (fl (tokens b + fl (fl (now - last_refill b) * refill_per_second b))),
     last_refill := now\<rparr>"

definition bucket_take :: "rat \<Rightarrow> rat \<Rightarrow> bucket \<Rightarrow> bool \<times> bucket" where
  "bucket_take now n b0 = (let b = refill now b0 in
     if n \<le> tokens b then (True, b\<lparr>tokens := fl (tokens b - n)\<rparr>) else (False, b))"

record limiter =
  rpm :: int
  burst :: int
  buckets :: "(string, bucket) pydict"

definition new_limiter :: "int \<Rightarrow> int \<Rightarrow> limiter" where
  "new_limiter r b = \<lparr>rpm = r, burst = b, buckets = []\<rparr>"

definition default_limiter :: limiter where
  "default_limiter = new_limiter 1200 240"

definition new_bucket :: "limiter \<Rightarrow> rat \<Rightarrow> bucket" where
  "new_bucket l now = \<lparr>capacity = of_int (burst l), tokens = of_int (burst l),
     refill_per_second = fl (of_int (rpm l) / 60), last_refill = now\<rparr>"

definition bucket_of :: "limiter \<Rightarrow> rat \<Rightarrow> string \<Rightarrow> bucket" where
  "bucket_of l now tenant = (case map_of (buckets l) tenant of None \<Rightarrow> new_bucket l now | Some b \<Rightarrow> b)"

text \<open>
  \<open>admit made now tenant\<close>: the bucket is looked up or made, at the clock \<open>made\<close>, and one token is
  taken at \<open>now\<close>.
\<close>

definition admit :: "rat \<Rightarrow> rat \<Rightarrow> string \<Rightarrow> limiter \<Rightarrow> bool \<times> limiter" where
  "admit made now tenant l = (let (ok, b) = bucket_take now 1 (bucket_of l made tenant) in
     (ok, l\<lparr>buckets := dict_set tenant b (buckets l)\<rparr>))"

section \<open>Rounding\<close>

definition eps :: rat where
  "eps = 1 / 2 ^ 53"

lemma fl_upper:
  assumes "0 \<le> x"
  shows "fl x \<le> x * (1 + eps) + eps"
proof (cases "x = 0")
  case False
  with assms have x: "0 < x" by simp
  have "fl x - x \<le> 2 powi (ulp_expo x - 1)" using fl_error[OF False] by linarith
  also have "\<dots> \<le> x * eps + eps"
  proof (cases "ulp_expo x = - 1074")
    case True
    have "(2::rat) powi (- 1075) \<le> 2 powi (- 53)" by simp
    also have "\<dots> = eps" by (simp add: eps_def power_int_minus)
    also have "\<dots> \<le> x * eps + eps" using x by (simp add: eps_def)
    finally show ?thesis using True by simp
  next
    case False
    then have "ulp_expo x = expo x - 52" using x by (auto simp: ulp_expo_def max_def)
    then have "(2::rat) powi (ulp_expo x - 1) = 2 powi expo x * eps"
      by (simp add: power_int_diff eps_def)
    also have "\<dots> \<le> x * eps" using expo_bounds(1)[OF x] by (simp add: eps_def)
    finally show ?thesis by (simp add: eps_def)
  qed
  finally show ?thesis by (simp add: algebra_simps)
qed (simp add: eps_def)

text \<open>Taking one token from a double of at least one is exact.\<close>

lemma fl_minus_one:
  assumes "is_double t" "1 \<le> t" "t \<le> 2 ^ 53"
  shows "fl (t - 1) = t - 1"
proof (cases "t = 1")
  case False
  let ?k = "ulp_expo t"
  have t: "0 < t" "0 < t - 1" using assms(2) False by auto
  have "expo t \<le> expo (2 ^ 53)" using assms(3) t by (intro expo_mono) auto
  also have "expo (2 ^ 53) = 53" by (intro expo_unique) (auto simp: power_int_add)
  finally have e: "expo t \<le> 53" .
  show ?thesis
  proof (cases "expo t = 53")
    case True
    then have "2 ^ 53 \<le> t" using expo_bounds(1)[OF t(1)] by simp
    then have "t = 2 ^ 53" using assms(3) by simp
    then have "t - 1 = of_int (2 ^ 53 - 1) * 2 powi 0" by simp
    then show ?thesis by (simp only:) (rule fl_exact; simp)
  next
    case False
    then have k: "?k \<le> 0" using e t by (simp add: ulp_expo_def)
    define m where "m = rne (t / 2 powi ?k)"
    have m: "t = of_int m * 2 powi ?k" using assms(1) t by (simp add: is_double_def fl_def m_def)
    obtain j :: int where j: "(2::rat) powi (- ?k) = of_int j" using k by (auto intro: powi2_int[of "- ?k"])
    have one: "of_int j * (2::rat) powi ?k = 1" by (simp flip: j power_int_add)
    have "t - 1 = of_int (m - j) * 2 powi ?k" using m one by (simp add: left_diff_distrib)
    moreover have "ulp_expo (t - 1) \<le> ?k"
      using expo_mono[of "t - 1" t] t by (simp add: ulp_expo_def)
    ultimately show ?thesis by (rule fl_multiple)
  qed
qed simp

section \<open>The invariant of a bucket\<close>

definition bucket_ok :: "bucket \<Rightarrow> bool" where
  "bucket_ok b \<longleftrightarrow> 0 \<le> tokens b \<and> tokens b \<le> capacity b \<and> is_double (tokens b) \<and>
     is_double (capacity b) \<and> capacity b \<le> 2 ^ 53 \<and> 0 \<le> refill_per_second b"

lemma refill_ok:
  assumes "bucket_ok b" "last_refill b \<le> now"
  shows "bucket_ok (refill now b)"
proof -
  have "0 \<le> fl (tokens b + fl (fl (now - last_refill b) * refill_per_second b))"
    using assms by (intro fl_nonneg add_nonneg_nonneg mult_nonneg_nonneg) (auto simp: bucket_ok_def)
  then show ?thesis using assms(1) by (auto simp: bucket_ok_def refill_def min_def)
qed

lemma take_fields:
  "capacity (snd (bucket_take now n b)) = capacity b" "refill_per_second (snd (bucket_take now n b)) = refill_per_second b"
  "last_refill (snd (bucket_take now n b)) = now"
  by (simp_all add: bucket_take_def refill_def Let_def)

lemma take_tokens:
  assumes "bucket_ok b" "last_refill b \<le> now"
  shows "tokens (snd (bucket_take now 1 b)) = tokens (refill now b) - (if fst (bucket_take now 1 b) then 1 else 0)"
proof -
  have r: "bucket_ok (refill now b)" using assms by (rule refill_ok)
  then have "1 \<le> tokens (refill now b) \<Longrightarrow> fl (tokens (refill now b) - 1) = tokens (refill now b) - 1"
    by (intro fl_minus_one) (auto simp: bucket_ok_def)
  then show ?thesis by (simp add: bucket_take_def Let_def)
qed

lemma take_ok:
  assumes "bucket_ok b" "last_refill b \<le> now"
  shows "bucket_ok (snd (bucket_take now 1 b))"
proof -
  have r: "bucket_ok (refill now b)" using assms by (rule refill_ok)
  show ?thesis
  proof (cases "1 \<le> tokens (refill now b)")
    case True
    then have "fl (tokens (refill now b) - 1) = tokens (refill now b) - 1"
      using r by (intro fl_minus_one) (auto simp: bucket_ok_def)
    moreover from this have "is_double (tokens (refill now b) - 1)" by (simp add: is_double_def)
    ultimately show ?thesis using True r by (simp add: bucket_take_def Let_def bucket_ok_def)
  qed (use r in \<open>simp add: bucket_take_def Let_def\<close>)
qed

lemma new_bucket_ok:
  assumes "0 \<le> burst l" "burst l \<le> 2 ^ 53" "0 \<le> rpm l"
  shows "bucket_ok (new_bucket l now)"
proof -
  have "is_double (of_int (burst l))" using assms(1,2) by (simp add: is_double_def fl_of_int)
  moreover have "(of_int (burst l) :: rat) \<le> of_int (2 ^ 53)" using assms(2) by (simp only: of_int_le_iff)
  ultimately show ?thesis using assms by (simp add: bucket_ok_def new_bucket_def fl_nonneg)
qed

section \<open>How much a refill adds\<close>

text \<open>The exact refill is \<open>rate * elapsed\<close>; rounding adds a relative and an absolute error.\<close>

definition gain :: rat where
  "gain = (1 + eps) ^ 3"

definition slack :: "rat \<Rightarrow> rat \<Rightarrow> rat" where
  "slack cap rate = eps * (cap + 2 * rate + 3)"

lemma refill_upper:
  assumes "bucket_ok b" "last_refill b \<le> now"
  shows "tokens (refill now b) \<le> tokens b + gain * (refill_per_second b * (now - last_refill b)) +
    slack (capacity b) (refill_per_second b)"
proof -
  define r e where "r = refill_per_second b" and "e = now - last_refill b"
  define g f where "g = fl e" and "f = fl (g * r)"
  have u: "0 \<le> eps" "eps \<le> 1/4" by (simp_all add: eps_def)
  have pos: "0 \<le> r" "0 \<le> e" "0 \<le> tokens b" "tokens b \<le> capacity b"
    using assms by (auto simp: bucket_ok_def r_def e_def)
  have g: "0 \<le> g" "g \<le> e * (1 + eps) + eps" using pos by (auto simp: g_def fl_nonneg fl_upper)
  have f0: "0 \<le> f" using g pos by (simp add: f_def fl_nonneg)
  have "f \<le> g * r * (1 + eps) + eps" unfolding f_def using g pos by (intro fl_upper) simp
  also have "g * r * (1 + eps) \<le> (e * (1 + eps) + eps) * r * (1 + eps)"
    using g pos u by (intro mult_right_mono) auto
  finally have f: "f \<le> (e * (1 + eps) + eps) * r * (1 + eps) + eps" by simp
  have "tokens (refill now b) \<le> fl (tokens b + f)" by (simp add: refill_def f_def g_def r_def e_def)
  also have "\<dots> \<le> (tokens b + f) * (1 + eps) + eps" using f0 pos by (intro fl_upper) simp
  also have "\<dots> = tokens b + tokens b * eps + f * (1 + eps) + eps" by (simp add: algebra_simps)
  also have "\<dots> \<le> tokens b + capacity b * eps + ((e * (1 + eps) + eps) * r * (1 + eps) + eps) * (1 + eps) + eps"
    using f pos u by (intro add_mono mult_right_mono) auto
  also have "\<dots> = tokens b + gain * (r * e) + eps * (capacity b + (1 + eps) ^ 2 * r + (1 + eps) + 1)"
    by (simp add: gain_def power2_eq_square power3_eq_cube algebra_simps)
  also have "\<dots> \<le> tokens b + gain * (r * e) + slack (capacity b) r"
  proof -
    have "(1 + eps) ^ 2 \<le> (1 + 1/4) ^ 2" using u by (intro power_mono) auto
    then have "(1 + eps) ^ 2 * r \<le> 2 * r" using pos by (intro mult_right_mono) (auto simp: power2_eq_square)
    then show ?thesis using u unfolding slack_def by (intro add_left_mono mult_left_mono) auto
  qed
  finally show ?thesis by (simp add: r_def e_def)
qed

section \<open>Requests of many tenants\<close>

fun serve :: "(string \<times> rat \<times> rat) list \<Rightarrow> limiter \<Rightarrow> bool list \<times> limiter" where
  "serve [] l = ([], l)"
| "serve ((tenant, made, now) # rs) l = (let (ok, l1) = admit made now tenant l; (oks, l2) = serve rs l1 in (ok # oks, l2))"

definition admitted :: "string \<Rightarrow> (string \<times> rat \<times> rat) list \<Rightarrow> limiter \<Rightarrow> nat" where
  "admitted tenant rs l = length (filter (\<lambda>(t, ok). t = tenant \<and> ok) (zip (map fst rs) (fst (serve rs l))))"

text \<open>The clocks only advance from \<open>s\<close> on.\<close>

fun advancing :: "rat \<Rightarrow> (string \<times> rat \<times> rat) list \<Rightarrow> bool" where
  "advancing s [] = True"
| "advancing s ((tenant, made, now) # rs) \<longleftrightarrow> s \<le> made \<and> made \<le> now \<and> advancing now rs"

fun last_clock :: "rat \<Rightarrow> (string \<times> rat \<times> rat) list \<Rightarrow> rat" where
  "last_clock s [] = s"
| "last_clock s ((tenant, made, now) # rs) = last_clock now rs"

lemma last_clock_ge: "advancing s rs \<Longrightarrow> s \<le> last_clock s rs"
  by (induction s rs rule: advancing.induct) auto

definition rate_of :: "limiter \<Rightarrow> rat" where
  "rate_of l = fl (of_int (rpm l) / 60)"

definition limiter_ok :: "rat \<Rightarrow> limiter \<Rightarrow> bool" where
  "limiter_ok s l \<longleftrightarrow> 0 \<le> burst l \<and> burst l \<le> 2 ^ 53 \<and> 0 \<le> rpm l \<and>
     (\<forall>t b. map_of (buckets l) t = Some b \<longrightarrow> bucket_ok b \<and> capacity b = of_int (burst l) \<and>
        refill_per_second b = rate_of l \<and> last_refill b \<le> s)"

lemma bucket_of_ok:
  assumes "limiter_ok s l" "s \<le> made"
  shows "bucket_ok (bucket_of l made t) \<and> capacity (bucket_of l made t) = of_int (burst l) \<and>
    refill_per_second (bucket_of l made t) = rate_of l \<and> last_refill (bucket_of l made t) \<le> made"
  using assms new_bucket_ok[of l made]
  by (fastforce simp: limiter_ok_def bucket_of_def new_bucket_def rate_of_def split: option.split)

lemma admit_fields:
  "burst (snd (admit made now t l)) = burst l" "rpm (snd (admit made now t l)) = rpm l"
  "map_of (buckets (snd (admit made now t l))) k =
     (if k = t then Some (snd (bucket_take now 1 (bucket_of l made t))) else map_of (buckets l) k)"
  "fst (admit made now t l) = fst (bucket_take now 1 (bucket_of l made t))"
  by (simp_all add: admit_def split_def Let_def)

lemma admit_ok:
  assumes "limiter_ok s l" "s \<le> made" "made \<le> now"
  shows "limiter_ok now (snd (admit made now t l))"
proof -
  note b = bucket_of_ok[OF assms(1,2), of t]
  have "bucket_ok (snd (bucket_take now 1 (bucket_of l made t)))" using b assms(3) by (intro take_ok) auto
  then show ?thesis using assms b by (fastforce simp: limiter_ok_def admit_fields take_fields rate_of_def)
qed

text \<open>What a tenant has in hand, and since when.\<close>

definition in_hand :: "limiter \<Rightarrow> string \<Rightarrow> rat" where
  "in_hand l t = (case map_of (buckets l) t of None \<Rightarrow> of_int (burst l) | Some b \<Rightarrow> tokens b)"

definition since :: "rat \<Rightarrow> limiter \<Rightarrow> string \<Rightarrow> rat" where
  "since s l t = (case map_of (buckets l) t of None \<Rightarrow> s | Some b \<Rightarrow> last_refill b)"

lemma admitted_step:
  "admitted tenant ((t, made, now) # rs) l =
     (if t = tenant \<and> fst (bucket_take now 1 (bucket_of l made t)) then 1 else 0) + admitted tenant rs (snd (admit made now t l))"
  by (auto simp: admitted_def split_def Let_def admit_fields)

lemma rate_nonneg: "limiter_ok s l \<Longrightarrow> 0 \<le> rate_of l"
  by (simp add: limiter_ok_def rate_of_def fl_nonneg)

lemma gain_pos: "0 \<le> gain"
  by (simp add: gain_def eps_def)

lemma budget_mono: "limiter_ok s l \<Longrightarrow> x \<le> y \<Longrightarrow> gain * (rate_of l * x) \<le> gain * (rate_of l * y)"
  using rate_nonneg gain_pos by (intro mult_left_mono) auto

lemma slack_nonneg: "limiter_ok s l \<Longrightarrow> 0 \<le> slack (of_int (burst l)) (rate_of l)"
  using rate_nonneg[of s l] by (simp add: slack_def eps_def limiter_ok_def)

lemma admitted_bound:
  assumes "limiter_ok s l" "advancing s rs"
  shows "of_nat (admitted tenant rs l) \<le> in_hand l tenant + gain * (rate_of l * (last_clock s rs - since s l tenant)) +
    of_nat (length rs) * slack (of_int (burst l)) (rate_of l)"
  using assms
proof (induction s rs arbitrary: l rule: advancing.induct)
  case (1 s)
  have "0 \<le> in_hand l tenant" "since s l tenant \<le> s"
    using 1 by (auto simp: limiter_ok_def in_hand_def since_def bucket_ok_def split: option.splits)
  then show ?case using budget_mono[OF 1(1), of 0 "s - since s l tenant"] by (simp add: admitted_def)
next
  case (2 s t made now rs)
  define l1 where "l1 = snd (admit made now t l)"
  let ?b = "bucket_of l made t" and ?S = "slack (of_int (burst l)) (rate_of l)"
  have adv: "s \<le> made" "made \<le> now" "advancing now rs" using 2(3) by auto
  note b = bucket_of_ok[OF 2(2) adv(1), of t]
  have l1: "limiter_ok now l1" unfolding l1_def using 2(2) adv by (intro admit_ok) auto
  have same: "rate_of l1 = rate_of l" "burst l1 = burst l" by (simp_all add: l1_def rate_of_def admit_fields)
  note IH = 2(1)[OF l1 adv(3), unfolded same]
  have S: "0 \<le> ?S" using 2(2) by (rule slack_nonneg)
  show ?case
  proof (cases "t = tenant")
    case True
    have since1: "since now l1 tenant = now" "in_hand l1 tenant = tokens (snd (bucket_take now 1 ?b))"
      by (simp_all add: since_def in_hand_def l1_def admit_fields take_fields True)
    have tk: "tokens (snd (bucket_take now 1 ?b)) + (if fst (bucket_take now 1 ?b) then 1 else 0) = tokens (refill now ?b)"
      using take_tokens[of ?b now] b adv(2) by simp
    have "tokens (refill now ?b) \<le> tokens ?b + gain * (rate_of l * (now - last_refill ?b)) + ?S"
      using refill_upper[of ?b now] b adv(2) by simp
    moreover have "tokens ?b = in_hand l tenant" "since s l tenant \<le> last_refill ?b"
      using adv(1) by (auto simp: in_hand_def since_def bucket_of_def new_bucket_def True split: option.splits)
    moreover have "gain * (rate_of l * (now - last_refill ?b)) + gain * (rate_of l * (last_clock now rs - now)) =
        gain * (rate_of l * (last_clock now rs - last_refill ?b))"
      by (simp add: algebra_simps)
    moreover have "gain * (rate_of l * (last_clock now rs - last_refill ?b)) \<le> gain * (rate_of l * (last_clock now rs - since s l tenant))"
      using \<open>since s l tenant \<le> last_refill ?b\<close> by (intro budget_mono[OF 2(2)]) simp
    ultimately show ?thesis
      using IH tk unfolding admitted_step since1 l1_def[symmetric] by (simp add: True algebra_simps split: if_splits)
  next
    case False
    have "in_hand l1 tenant = in_hand l tenant" "since s l tenant \<le> since now l1 tenant"
      using False adv by (auto simp: in_hand_def since_def l1_def admit_fields split: option.splits)
    moreover from this(2) have "gain * (rate_of l * (last_clock now rs - since now l1 tenant)) \<le>
        gain * (rate_of l * (last_clock now rs - since s l tenant))"
      by (intro budget_mono[OF 2(2)]) simp
    ultimately show ?thesis
      using IH S unfolding admitted_step l1_def[symmetric] by (simp add: False algebra_simps)
  qed
qed

lemma fresh_limiter_ok:
  assumes "0 \<le> b" "b \<le> 2 ^ 53" "0 \<le> r"
  shows "limiter_ok s (new_limiter r b)"
  using assms by (simp add: limiter_ok_def new_limiter_def)

section \<open>Properties\<close>

text \<open>
  The rate limit. From a fresh limiter, with clocks that only advance, a tenant is admitted at
  most burst requests plus the rate times the time that passed, up to rounding: a factor
  \<open>(1 + eps) ^ 3\<close> on the refill and \<open>slack\<close>, below one millionth of a request, per request served;
  \<open>eps\<close> is the unit roundoff of binary64. What other tenants do does not enter.
\<close>

theorem admission_bound:
  assumes "0 \<le> b" "b \<le> 10 ^ 6" "0 \<le> r" "r \<le> 10 ^ 6" "advancing s rs"
  shows "of_nat (admitted tenant rs (new_limiter r b)) \<le>
      of_int b + gain * (fl (of_int r / 60) * (last_clock s rs - s)) +
      of_nat (length rs) * slack (of_int b) (fl (of_int r / 60)) \<and>
    slack (of_int b) (fl (of_int r / 60)) \<le> 1 / 10 ^ 6 \<and> gain \<le> 1 + 1 / 10 ^ 15"
proof (intro conjI)
  show "of_nat (admitted tenant rs (new_limiter r b)) \<le>
      of_int b + gain * (fl (of_int r / 60) * (last_clock s rs - s)) +
      of_nat (length rs) * slack (of_int b) (fl (of_int r / 60))"
    using admitted_bound[OF fresh_limiter_ok[OF assms(1) _ assms(3)] assms(5), of tenant] assms(2)
    by (simp add: in_hand_def since_def rate_of_def new_limiter_def)
  have "fl (of_int r / 60) \<le> fl (10 ^ 6 / 60)"
  proof (rule fl_mono)
    have "(of_int r :: rat) \<le> of_int (10 ^ 6)" using assms(4) by (simp only: of_int_le_iff)
    then show "(of_int r :: rat) / 60 \<le> 10 ^ 6 / 60" by simp
  qed
  also have "\<dots> \<le> 10 ^ 6 / 60 * (1 + eps) + eps" by (rule fl_upper) simp
  also have "\<dots> \<le> 10 ^ 6" by (simp add: eps_def)
  finally have "fl (of_int r / 60) \<le> 10 ^ 6" .
  moreover have "(of_int b :: rat) \<le> of_int (10 ^ 6)" using assms(2) by (simp only: of_int_le_iff)
  ultimately show "slack (of_int b) (fl (of_int r / 60)) \<le> 1 / 10 ^ 6" by (simp add: slack_def eps_def)
  show "gain \<le> 1 + 1 / 10 ^ 15" by (simp add: gain_def eps_def power3_eq_cube)
qed

theorem admission_bound_witness:
  "of_nat (admitted ''t'' (map (\<lambda>i. (''t'', 5, 5)) [0..<400]) default_limiter) \<le> (241 :: rat)"
proof -
  have a: "advancing 5 (map (\<lambda>i. (''t'', 5, 5)) [0..<n])" "last_clock 5 (map (\<lambda>i. (''t'', 5, 5)) [0..<n]) = 5" for n
  proof -
    have "advancing 5 (map (\<lambda>i. (''t'', 5, 5)) xs) \<and> last_clock 5 (map (\<lambda>i. (''t'', 5, 5)) xs) = 5" for xs :: "nat list"
      by (induction xs) simp_all
    then show "advancing 5 (map (\<lambda>i. (''t'', 5, 5)) [0..<n])" "last_clock 5 (map (\<lambda>i. (''t'', 5, 5)) [0..<n]) = 5" by auto
  qed
  from admission_bound[of 240 1200, OF _ _ _ _ a(1)[of 400], of "''t''"] show ?thesis
    by (simp add: default_limiter_def a(2))
qed

end
