(* ===== verification/Tenancy.thy ===== *)
theory Tenancy
  imports Registry
begin

text \<open>
  src/src/sentinel/tenancy/manager.py: the in-memory registry of tenants, a dictionary from the
  tenant id to its configuration. It interprets \<open>keyed_store\<close>.
\<close>

record tenant_config =
  tc_tenant_id :: string
  tc_display_name :: string
  tc_policy_bundle :: "policy_bundle option"
  siem_endpoint :: "string option"
  siem_token :: "string option"
  require_signed_actions :: bool
  max_actions_per_minute :: int
  tc_metadata :: "(string, string) pydict"

type_synonym tenant_db = "(string, tenant_config) pydict"

text \<open>\<^verbatim>\<open>TenantConfig(tenant_id=..., display_name=...)\<close> with the defaults of its other fields.\<close>

definition default_tenant_config :: "string \<Rightarrow> string \<Rightarrow> tenant_config" where
  "default_tenant_config tid name = \<lparr>tc_tenant_id = tid, tc_display_name = name, tc_policy_bundle = None,
     siem_endpoint = None, siem_token = None, require_signed_actions = False,
     max_actions_per_minute = 1200, tc_metadata = []\<rparr>"

definition tenant_register :: "tenant_config \<Rightarrow> tenant_db \<Rightarrow> tenant_db" where
  "tenant_register c ts = dict_set (tc_tenant_id c) c ts"

definition new_tenant_db :: "tenant_config list option \<Rightarrow> tenant_db" where
  "new_tenant_db seed = fold tenant_register (case seed of None \<Rightarrow> [] | Some cs \<Rightarrow> cs) []"

definition tenants_with_default :: tenant_db where
  "tenants_with_default = new_tenant_db (Some [default_tenant_config ''default'' ''Default tenant''])"

definition tenant_get :: "tenant_db \<Rightarrow> string \<Rightarrow> tenant_config result" where
  "tenant_get ts tid = (case map_of ts tid of
     None \<Rightarrow> Inl (Exn TenantNotFoundError tid)
   | Some c \<Rightarrow> Inr c)"

definition list_tenants :: "tenant_db \<Rightarrow> tenant_config list" where
  "list_tenants ts = map snd ts"

interpretation tenant_store: keyed_store map_of tenant_register tc_tenant_id
  by unfold_locales (simp add: tenant_register_def)

lemma tenant_get_Inr_iff: "tenant_get ts tid = Inr c \<longleftrightarrow> map_of ts tid = Some c"
  by (simp add: tenant_get_def split: option.splits)

text \<open>Every stored configuration sits under its own id, once.\<close>

definition tenants_ok :: "tenant_db \<Rightarrow> bool" where
  "tenants_ok ts \<longleftrightarrow> dict_wf ts \<and> (\<forall>(k, c) \<in> set ts. k = tc_tenant_id c)"

lemma tenants_ok_register: "tenants_ok ts \<Longrightarrow> tenants_ok (tenant_register c ts)"
  unfolding tenants_ok_def tenant_register_def
proof (elim conjE, intro conjI)
  assume wf: "dict_wf ts" and keys: "\<forall>(k, c) \<in> set ts. k = tc_tenant_id c"
  show "dict_wf (dict_set (tc_tenant_id c) c ts)" using wf by (rule dict_wf_set)
  show "\<forall>(k, d) \<in> set (dict_set (tc_tenant_id c) c ts). k = tc_tenant_id d"
    using keys by (induction ts) (auto split: if_splits)
qed

lemma tenants_ok_new: "tenants_ok (new_tenant_db seed)"
proof -
  have "tenants_ok (fold tenant_register cs ts)" if "tenants_ok ts" for cs ts
    using that by (induction cs arbitrary: ts) (auto intro: tenants_ok_register)
  moreover have "tenants_ok []" by (simp add: tenants_ok_def)
  ultimately show ?thesis by (simp add: new_tenant_db_def)
qed

lemma default_tenants: "tenants_with_default = [(''default'', default_tenant_config ''default'' ''Default tenant'')]"
  by (simp add: tenants_with_default_def new_tenant_db_def tenant_register_def default_tenant_config_def)

section \<open>Properties\<close>

text \<open>
  The registry is a faithful dictionary: a registered tenant is found under its id, other
  tenants are unaffected, a lookup fails with TenantNotFoundError exactly when no tenant of the
  listing has the id, and what is found always carries the id it was asked for.
\<close>

theorem tenant_lookup_exact:
  assumes "tenants_ok ts"
  shows "tenant_get (tenant_register c ts) tid = (if tid = tc_tenant_id c then Inr c else tenant_get ts tid) \<and>
    (tenant_get ts tid = Inl (Exn TenantNotFoundError tid) \<longleftrightarrow> (\<forall>d \<in> set (list_tenants ts). tc_tenant_id d \<noteq> tid)) \<and>
    (\<forall>d. tenant_get ts tid = Inr d \<longleftrightarrow> d \<in> set (list_tenants ts) \<and> tc_tenant_id d = tid)"
proof (intro conjI allI)
  show "tenant_get (tenant_register c ts) tid = (if tid = tc_tenant_id c then Inr c else tenant_get ts tid)"
    by (simp add: tenant_get_def tenant_store.get_put)
  have some: "map_of ts tid = Some d \<longleftrightarrow> d \<in> set (list_tenants ts) \<and> tc_tenant_id d = tid" for d
    using assms by (force simp: tenants_ok_def list_tenants_def)
  then show "tenant_get ts tid = Inr d \<longleftrightarrow> d \<in> set (list_tenants ts) \<and> tc_tenant_id d = tid" for d
    by (simp add: tenant_get_Inr_iff)
  show "tenant_get ts tid = Inl (Exn TenantNotFoundError tid) \<longleftrightarrow> (\<forall>d \<in> set (list_tenants ts). tc_tenant_id d \<noteq> tid)"
  proof (cases "map_of ts tid")
    case None
    then have "d \<in> set (list_tenants ts) \<Longrightarrow> tc_tenant_id d \<noteq> tid" for d using some[of d] by auto
    then show ?thesis using None by (auto simp: tenant_get_def)
  next
    case (Some d)
    with some[of d] show ?thesis by (auto simp: tenant_get_def)
  qed
qed

theorem tenant_lookup_exact_witness:
  "tenant_get (tenant_register (default_tenant_config ''acme'' ''Acme'') tenants_with_default) ''acme''
     = Inr (default_tenant_config ''acme'' ''Acme'')"
proof -
  have "tenants_ok tenants_with_default" unfolding tenants_with_default_def by (rule tenants_ok_new)
  from conjunct1[OF tenant_lookup_exact[OF this, of "default_tenant_config ''acme'' ''Acme''" "''acme''"]]
  show ?thesis by (simp add: default_tenant_config_def)
qed

end
