(* ===== verification/Approval.thy ===== *)
theory Approval
  imports Registry
begin

text \<open>
  src/src/sentinel/core/approval.py: actions parked for a human verdict. The in-memory backend
  is a dictionary from the item's id; \<open>approval_resolve\<close> overwrites whatever an item held
  and raises \<^verbatim>\<open>KeyError\<close> for an unknown id. The constructor \<^verbatim>\<open>PendingApproval(...)\<close>
  belongs to pydantic: \<open>build\<close> is what it does with the fields, the item or an exception.
\<close>

text \<open>\<^verbatim>\<open>repr\<close> of a UUID, which is what \<^verbatim>\<open>KeyError\<close> shows.\<close>

definition uuid_repr :: "uuid \<Rightarrow> string" where
  "uuid_repr u = (let h = uuid_hex u in ''UUID('' @ quoted (take 8 h @ ''-'' @ take 4 (drop 8 h) @ ''-'' @
     take 4 (drop 12 h) @ ''-'' @ take 4 (drop 16 h) @ ''-'' @ drop 20 h) @ '')'')"

record pending_approval =
  pa_id :: uuid
  pa_action :: action
  initial_decision :: decision
  pa_created_at :: datetime
  pa_expires_at :: "datetime option"
  resolved_at :: "datetime option"
  resolution_verdict :: "verdict option"
  resolver :: "string option"
  pa_notes :: "string option"

type_synonym approval_items = "(uuid, pending_approval) pydict"

definition new_approval_backend :: approval_items where
  "new_approval_backend = []"

definition approval_enqueue :: "pending_approval \<Rightarrow> approval_items \<Rightarrow> approval_items" where
  "approval_enqueue item items = dict_set (pa_id item) item items"

definition approval_get :: "approval_items \<Rightarrow> uuid \<Rightarrow> pending_approval option" where
  "approval_get items i = map_of items i"

definition approval_resolve ::
  "datetime \<Rightarrow> uuid \<Rightarrow> verdict \<Rightarrow> string \<Rightarrow> string option \<Rightarrow> approval_items \<Rightarrow>
   pending_approval result \<times> approval_items" where
  "approval_resolve now i v who note items = (case map_of items i of
     None \<Rightarrow> (Inl (Exn KeyError (uuid_repr i)), items)
   | Some item \<Rightarrow>
       (let r = item\<lparr>resolution_verdict := Some v, resolver := Some who, pa_notes := note, resolved_at := Some now\<rparr>
        in (Inr r, dict_set i r items)))"

definition approval_submit ::
  "(pending_approval \<Rightarrow> pending_approval result) \<Rightarrow> uuid \<Rightarrow> datetime \<Rightarrow> action \<Rightarrow> decision \<Rightarrow>
   approval_items \<Rightarrow> pending_approval result \<times> approval_items" where
  "approval_submit build i now a d items =
     (case build \<lparr>pa_id = i, pa_action = a, initial_decision = d, pa_created_at = now, pa_expires_at = None,
        resolved_at = None, resolution_verdict = None, resolver = None, pa_notes = None\<rparr> of
        Inl e \<Rightarrow> (Inl e, items)
      | Inr item \<Rightarrow> (Inr item, approval_enqueue item items))"

interpretation approvals: keyed_store approval_get approval_enqueue pa_id
  by unfold_locales (simp add: approval_get_def approval_enqueue_def)

lemma approval_resolve_get:
  "approval_get (snd (approval_resolve now i v who note items)) k =
     (if k = i then map_option (\<lambda>p. p\<lparr>resolution_verdict := Some v, resolver := Some who, pa_notes := note,
        resolved_at := Some now\<rparr>) (approval_get items i) else approval_get items k)"
  by (auto simp: approval_resolve_def approval_get_def Let_def split: option.splits)

lemma approval_resolve_unknown:
  "approval_get items k = None \<Longrightarrow>
     approval_resolve now k v who note items = (Inl (Exn KeyError (uuid_repr k)), items)"
  by (simp add: approval_resolve_def approval_get_def)

section \<open>Properties\<close>

text \<open>
  The life of an approval. A submitted item is found, unresolved, under its id with the
  action and the decision it was submitted with; resolving it stores the verdict and the
  reviewer and nothing else of it changes, nor any other item; an unknown id raises KeyError and
  changes nothing. Nothing makes a resolution final or looks at the expiry: a second resolve
  replaces the first verdict.
\<close>

theorem approval_life_cycle:
  assumes "i \<noteq> k"
  shows "let items1 = snd (approval_submit Inr i now a d items);
      items2 = snd (approval_resolve t1 i v1 who1 n1 items1);
      items3 = snd (approval_resolve t2 i v2 who2 n2 items2) in
    (\<exists>p. approval_get items1 i = Some p \<and> pa_action p = a \<and> initial_decision p = d \<and> resolution_verdict p = None \<and>
       approval_get items2 i = Some (p\<lparr>resolution_verdict := Some v1, resolver := Some who1, pa_notes := n1,
         resolved_at := Some t1\<rparr>) \<and>
       approval_get items3 i = Some (p\<lparr>resolution_verdict := Some v2, resolver := Some who2, pa_notes := n2,
         resolved_at := Some t2\<rparr>)) \<and>
     approval_get items3 k = approval_get items k \<and>
     (approval_get items k = None \<longrightarrow>
        approval_resolve t1 k v1 who1 n1 items = (Inl (Exn KeyError (uuid_repr k)), items))"
  using assms unfolding Let_def approval_resolve_get
  by (auto simp: approval_submit_def approvals.get_put approval_resolve_unknown)

definition example_decision :: "verdict \<Rightarrow> decision" where
  "example_decision v = (decision_deny 1 0 2 ''reason'' (Some 7) False)\<lparr>verdict := v\<rparr>"

theorem approval_life_cycle_witness:
  "let items1 = snd (approval_submit Inr 3 0 (example_action PAYMENT None []) (example_decision ESCALATE) new_approval_backend);
      items2 = snd (approval_resolve 5 3 ALLOW ''amy'' None items1);
      items3 = snd (approval_resolve 6 3 DENY ''bob'' None items2) in
   map_option resolution_verdict (approval_get items2 3) = Some (Some ALLOW) \<and>
   map_option resolution_verdict (approval_get items3 3) = Some (Some DENY) \<and> approval_get items3 4 = None"
  using approval_life_cycle[of 3 4 0 "example_action PAYMENT None []" "example_decision ESCALATE"
      new_approval_backend 5 ALLOW "''amy''" None 6 DENY "''bob''" None]
  unfolding Let_def by (auto simp: new_approval_backend_def approval_get_def[of "[]"])

end
