(* ===== verification/Interceptor.thy ===== *)
theory Interceptor
  imports FailClosed Tenancy Approval
begin

text \<open>
  src/src/sentinel/core/interceptor.py: the front door. It stamps the payload digest, hands the
  action to the pipeline and serves the helpers of the HTTP routes. \<open>digest\<close> is
  \<^verbatim>\<open>sha256_hex(action.canonical_dict())\<close>, a digest or an exception, which theory Wire
  writes out as \<open>action_digest\<close>. The interceptor owns the pipeline; its identity store is
  the in-memory one. The exporter it may hold is never used, and nothing reads its configuration.
\<close>

record interceptor_config =
  enforce_signatures :: bool
  max_payload_bytes :: int

definition default_interceptor_config :: interceptor_config where
  "default_interceptor_config = \<lparr>enforce_signatures = True, max_payload_bytes = 256 * 1024\<rparr>"

record interceptor =
  ic_deps :: pipeline_deps
  ic_state :: pipeline_state
  ic_identities :: identity_db
  ic_approvals :: "approval_items option"
  ic_config :: interceptor_config
  ic_tenants :: tenant_db

type_synonym digest = "action \<Rightarrow> string result"

definition new_interceptor ::
  "pipeline_deps \<Rightarrow> pipeline_state \<Rightarrow> identity_db \<Rightarrow> approval_items option \<Rightarrow> interceptor_config option \<Rightarrow>
   tenant_db option \<Rightarrow> interceptor" where
  "new_interceptor deps st db appr cfg ts = \<lparr>ic_deps = deps, ic_state = st, ic_identities = db, ic_approvals = appr,
     ic_config = (case cfg of None \<Rightarrow> default_interceptor_config | Some c \<Rightarrow> c),
     ic_tenants = (case ts of None \<Rightarrow> tenants_with_default | Some t \<Rightarrow> t)\<rparr>"

section \<open>evaluate\<close>

definition stamp_digest :: "digest \<Rightarrow> action \<Rightarrow> action result" where
  "stamp_digest digest a = (case payload_digest a of
     None \<Rightarrow> bindR (digest a) (\<lambda>h. Inr (a\<lparr>payload_digest := Some h\<rparr>))
   | Some h \<Rightarrow> Inr a)"

text \<open>\<open>elapsed\<close> is what the stopwatch shows after the call.\<close>

definition interceptor_evaluate ::
  "digest \<Rightarrow> rat \<Rightarrow> readings \<Rightarrow> action \<Rightarrow> interceptor \<Rightarrow> decision result \<times> interceptor" where
  "interceptor_evaluate digest elapsed rd a ic = (case stamp_digest digest a of
     Inl e \<Rightarrow> (Inl e, ic)
   | Inr a' \<Rightarrow>
       (let (r, st) = evaluate (ic_deps ic) (mem_lookup (ic_identities ic)) rd a' (ic_state ic)
        in (bindR r (\<lambda>d. Inr (if latency_ms d = None then d\<lparr>latency_ms := Some elapsed\<rparr> else d)),
            ic\<lparr>ic_state := st\<rparr>)))"

section \<open>The helpers of the routes\<close>

definition current_policy :: "interceptor \<Rightarrow> policy_bundle" where
  "current_policy ic = pd_bundle (ic_deps ic)"

text \<open>
  \<open>loader\<close> is what \<^verbatim>\<open>reload()\<close> of the pipeline's attribute \<^verbatim>\<open>policy_loader\<close> answers,
  None when there is no such attribute, as on every pipeline the code builds.
\<close>

definition reload_policy :: "policy_bundle result option \<Rightarrow> interceptor \<Rightarrow> policy_bundle result \<times> interceptor" where
  "reload_policy loader ic = (case loader of
     None \<Rightarrow> (Inl (Exn NotImplementedError ''no policy loader is wired into this interceptor''), ic)
   | Some (Inl e) \<Rightarrow> (Inl e, ic)
   | Some (Inr b) \<Rightarrow> (Inr b, ic\<lparr>ic_deps := (ic_deps ic)\<lparr>pd_bundle := b\<rparr>\<rparr>))"

definition lookup_identity :: "string \<Rightarrow> interceptor \<Rightarrow> identity option result" where
  "lookup_identity d ic = (case resolve (Inr (store_get (ic_identities ic) d)) d of
     Inr i \<Rightarrow> Inr (Some i)
   | Inl e \<Rightarrow> if catches Exception e then Inr None else Inl e)"

definition upsert_identity :: "identity \<Rightarrow> interceptor \<Rightarrow> identity \<times> interceptor" where
  "upsert_identity i ic = (i, ic\<lparr>ic_identities := store_put i (ic_identities ic)\<rparr>)"

definition list_audit :: "(string \<Rightarrow> int \<Rightarrow> 'r list result) option \<Rightarrow> string \<Rightarrow> int \<Rightarrow> 'r list result" where
  "list_audit backend tid limit = (case backend of None \<Rightarrow> Inr [] | Some b \<Rightarrow> b tid limit)"

definition is_ready :: "interceptor \<Rightarrow> bool" where
  "is_ready ic = True"

text \<open>
  The workflow of approval.py has no method \<^verbatim>\<open>list_pending\<close>, and its \<^verbatim>\<open>resolve\<close> takes
  neither \<^verbatim>\<open>approve\<close> nor \<^verbatim>\<open>approver\<close>: both calls raise.
\<close>

definition list_pending_approvals :: "interceptor \<Rightarrow> pending_approval list result" where
  "list_pending_approvals ic = (case ic_approvals ic of
     None \<Rightarrow> Inr []
   | Some items \<Rightarrow> Inl (Exn AttributeError
       (quoted ''ApprovalWorkflow'' @ '' object has no attribute '' @ quoted ''list_pending'')))"

definition resolve_approval :: "string \<Rightarrow> bool \<Rightarrow> string \<Rightarrow> interceptor \<Rightarrow> pending_approval result \<times> interceptor" where
  "resolve_approval token approve approver ic = (case ic_approvals ic of
     None \<Rightarrow> (Inl (Exn RuntimeError ''no approval workflow is wired''), ic)
   | Some items \<Rightarrow> (Inl (Exn TypeError
       (''ApprovalWorkflow.resolve() got an unexpected keyword argument '' @ quoted ''approve'')), ic))"

section \<open>The digest takes no part in the decision\<close>

named_theorems blind "what an operation does not read of an action"

lemma blind_tool_value [blind]: "tool_value (a\<lparr>payload_digest := h\<rparr>) = tool_value a"
  by (simp add: tool_value_def)

lemma blind_checks [blind]:
  "check_type (a\<lparr>payload_digest := h\<rparr>) = check_type a"
  "check_tool (a\<lparr>payload_digest := h\<rparr>) = check_tool a"
  "check_did_prefix (a\<lparr>payload_digest := h\<rparr>) = check_did_prefix a"
  "check_args (a\<lparr>payload_digest := h\<rparr>) = check_args a"
  "check_contains (a\<lparr>payload_digest := h\<rparr>) = check_contains a"
  by (simp_all add: fun_eq_iff blind check_type_def check_tool_def check_did_prefix_def check_args_def
      check_contains_def split: pyval.split)

lemma blind_policy [blind]:
  "policy_evaluate b (a\<lparr>payload_digest := h\<rparr>) ident fs = policy_evaluate b a ident fs"
proof -
  have "matches r (a\<lparr>payload_digest := h\<rparr>) ident fs = matches r a ident fs" for r
    by (simp add: matches_def blind Let_def)
  then have "collect_matches rs (a\<lparr>payload_digest := h\<rparr>) ident fs = collect_matches rs a ident fs" for rs
    by (induction rs) simp_all
  then show ?thesis by (simp add: policy_evaluate_def)
qed

lemma blind_hints [blind]:
  "all_hints (a\<lparr>payload_digest := h\<rparr>) = all_hints a"
  "tool_only_pass emb (a\<lparr>payload_digest := h\<rparr>) toks hints = tool_only_pass emb a toks hints"
  "semantic_overlap emb (a\<lparr>payload_digest := h\<rparr>) t l = semantic_overlap emb a t l"
  "drift_factor cfg (a\<lparr>payload_digest := h\<rparr>) t l sem = drift_factor cfg a t l sem"
  by (simp_all add: all_hints_def tool_tokens_def tool_only_pass_def semantic_overlap_def drift_factor_def
      cong: if_cong option.case_cong)

lemma blind_intent [blind]:
  "intent_classify emb cfg (a\<lparr>payload_digest := h\<rparr>) ident = intent_classify emb cfg a ident"
  by (simp add: intent_classify_def blind Let_def cong: if_cong)

lemma blind_tool [blind]:
  "tool_validate check now tools (a\<lparr>payload_digest := h\<rparr>) ident = tool_validate check now tools a ident"
  by (simp add: tool_validate_def schema_factors_def split: option.split)

lemma blind_observation [blind]:
  "novel_tool_factors cfg w (a\<lparr>payload_digest := h\<rparr>) = novel_tool_factors cfg w a"
  "record_observation now d (a\<lparr>payload_digest := h\<rparr>) st = record_observation now d a st"
  by (simp_all add: novel_tool_factors_def record_observation_def observation_of_def Let_def split_def)

lemma blind_anomaly [blind]:
  "anomaly_score lg cfg now (a\<lparr>payload_digest := h\<rparr>) win = anomaly_score lg cfg now a win"
  by (simp add: anomaly_score_def split_def Let_def blind split: sum.split)

lemma blind_texts [blind]: "iter_text (a\<lparr>payload_digest := h\<rparr>) = iter_text a"
  by (simp add: iter_text_def)

lemma blind_kind [blind]: "action_kind (a\<lparr>payload_digest := h\<rparr>) = action_kind a"
  by (simp add: action_kind_def)

lemma blind_injection [blind]:
  "injection_scan m cfg (a\<lparr>payload_digest := h\<rparr>) ident = injection_scan m cfg a ident"
  by (simp add: injection_scan_def blind Let_def cong: if_cong)

lemma blind_dlp [blind]: "dlp_scan sc (a\<lparr>payload_digest := h\<rparr>) ident = dlp_scan sc a ident"
  by (simp add: dlp_scan_def blind)

lemma blind_gate [blind]:
  "read_only (a\<lparr>payload_digest := h\<rparr>) = read_only a"
  "unknown_identity (a\<lparr>payload_digest := h\<rparr>) = unknown_identity a"
  by (simp_all add: read_only_def unknown_identity_def)

lemma blind_trust_gate [blind]: "trust_gate j (a\<lparr>payload_digest := h\<rparr>) vs = trust_gate j a vs"
  by (simp add: trust_gate_def blind cong: if_cong split: option.split)

lemma blind_pipeline [blind]:
  "run_classifiers deps rd (a\<lparr>payload_digest := h\<rparr>) ident win = run_classifiers deps rd a ident win"
  "assemble deps rd (a\<lparr>payload_digest := h\<rparr>) ident degr fs = assemble deps rd a ident degr fs"
  by (simp_all add: run_classifiers_def classifier_answers_def assemble_def blind)

lemma blind_evaluate: "evaluate deps lookup rd (a\<lparr>payload_digest := h\<rparr>) st = evaluate deps lookup rd a st"
  by (simp add: evaluate_def blind Let_def split_def split: sum.split)

lemma evaluate_latency: "fst (evaluate deps lookup rd a st) = Inr d \<Longrightarrow> latency_ms d \<noteq> None"
proof -
  assume "fst (evaluate deps lookup rd a st) = Inr d"
  then have "evaluate deps lookup rd a st = (Inr d, snd (evaluate deps lookup rd a st))" by (simp add: prod_eq_iff)
  then show ?thesis by (rule evaluate_cases) (auto simp: assemble_Inr_iff split_def Let_def)
qed

lemma interceptor_evaluate_eq:
  "interceptor_evaluate digest elapsed rd a ic = (case stamp_digest digest a of
     Inl e \<Rightarrow> (Inl e, ic)
   | Inr _ \<Rightarrow> (let (r, st) = evaluate (ic_deps ic) (mem_lookup (ic_identities ic)) rd a (ic_state ic)
        in (r, ic\<lparr>ic_state := st\<rparr>)))"
proof -
  have stamp: "evaluate deps lookup rd a' st = evaluate deps lookup rd a st" if "stamp_digest digest a = Inr a'" for a' deps lookup st
    using that by (auto simp: stamp_digest_def bindR_Inr_iff blind_evaluate split: option.splits)
  have "bindR r (\<lambda>d. Inr (if latency_ms d = None then d\<lparr>latency_ms := Some elapsed\<rparr> else d)) = r"
    if "fst (evaluate deps lookup rd a st) = r" for r deps lookup st
    using that by (cases r) (auto dest: evaluate_latency)
  then show ?thesis
    by (auto simp: interceptor_evaluate_def stamp split_def Let_def split: sum.split)
qed

text \<open>What an ALLOW from the front door rests on.\<close>

lemma interceptor_allowed:
  assumes "fst (interceptor_evaluate digest elapsed rd a ic) = Inr d" "verdict d = ALLOW"
  obtains i ms where "store_get (ic_identities ic) (agent_did a) = Some i" "\<not> revoked i"
    "policy_evaluate (pd_bundle (ic_deps ic)) a (Some i) (risk_factors (explanation d)) = Inr ms"
    "\<forall>m \<in> set ms. pm_effect m = E_ALLOW" "risk_score (explanation d) < THROTTLE_THRESHOLD"
proof -
  let ?r = "evaluate (ic_deps ic) (mem_lookup (ic_identities ic)) rd a (ic_state ic)"
  have "fst ?r = Inr d"
    using assms(1) by (auto simp: interceptor_evaluate_eq split_def Let_def split: sum.splits)
  then have "?r = (Inr d, snd ?r)" by (simp add: prod_eq_iff)
  then show ?thesis
    using assms(2) by (rule allowed_facts) (rule that, auto simp: mem_lookup_def)
qed

section \<open>Everything an interceptor does\<close>

inductive interceptor_step :: "interceptor \<Rightarrow> interceptor \<Rightarrow> bool" where
  evaluated: "interceptor_step ic (snd (interceptor_evaluate digest elapsed rd a ic))"
| upserted: "interceptor_step ic (snd (upsert_identity i ic))"
| reloaded: "interceptor_step ic (snd (reload_policy loader ic))"
| resolved: "interceptor_step ic (snd (resolve_approval token approve approver ic))"

inductive_cases interceptor_stepE: "interceptor_step ic ic'"

lemma step_keeps:
  "interceptor_step ic ic' \<Longrightarrow> ic_approvals ic' = ic_approvals ic \<and> ic_tenants ic' = ic_tenants ic \<and> ic_config ic' = ic_config ic"
  by (erule interceptor_stepE)
     (auto simp: interceptor_evaluate_eq upsert_identity_def reload_policy_def resolve_approval_def split_def Let_def
       split: sum.split option.split)

lemma steps_keep:
  "interceptor_step\<^sup>*\<^sup>* ic ic' \<Longrightarrow> ic_approvals ic' = ic_approvals ic \<and> ic_tenants ic' = ic_tenants ic \<and> ic_config ic' = ic_config ic"
  by (induction rule: rtranclp_induct) (auto dest: step_keeps)

section \<open>Properties\<close>

text \<open>
  The interceptor adds nothing to the decision. When the digest can be computed, or the
  caller supplied one, which is never compared with the payload, the answer and the pipeline's
  new state are those of the pipeline on the action as it came; when the encoder raises, its
  exception is the answer and nothing has changed.
\<close>

theorem interceptor_transparent:
  "interceptor_evaluate digest elapsed rd a ic =
     (if payload_digest a = None \<and> (\<exists>e. digest a = Inl e) then (Inl (projl (digest a)), ic)
      else (fst (evaluate (ic_deps ic) (mem_lookup (ic_identities ic)) rd a (ic_state ic)),
            ic\<lparr>ic_state := snd (evaluate (ic_deps ic) (mem_lookup (ic_identities ic)) rd a (ic_state ic))\<rparr>))"
  by (cases "payload_digest a"; cases "digest a")
     (simp_all add: interceptor_evaluate_eq stamp_digest_def split_def Let_def)

text \<open>
  Escalations go nowhere. Whatever sequence of evaluations, identity changes, reloads and
  resolution requests an interceptor with an approval workflow goes through, the workflow holds
  what it held at the start, although actions may have been answered ESCALATE; and at the end
  listing the pending approvals raises AttributeError and resolving any of them raises TypeError.
\<close>

theorem escalations_never_queued:
  assumes "interceptor_step\<^sup>*\<^sup>* ic ic'" "ic_approvals ic = Some items"
  shows "ic_approvals ic' = Some items \<and>
    (\<exists>e. list_pending_approvals ic' = Inl e \<and> exn_class e = AttributeError) \<and>
    (\<exists>e. resolve_approval token approve approver ic' = (Inl e, ic') \<and> exn_class e = TypeError)"
  using steps_keep[OF assms(1)] assms(2) by (simp add: list_pending_approvals_def resolve_approval_def)

definition example_interceptor :: "policy_rule list \<Rightarrow> identity_db \<Rightarrow> interceptor" where
  "example_interceptor rs db = new_interceptor (example_deps rs) fresh_state db (Some new_approval_backend) None None"

lemma example_interceptor_simps [simp]:
  "ic_deps (example_interceptor rs db) = example_deps rs" "ic_state (example_interceptor rs db) = fresh_state"
  "ic_identities (example_interceptor rs db) = db" "ic_approvals (example_interceptor rs db) = Some new_approval_backend"
  "ic_tenants (example_interceptor rs db) = tenants_with_default"
  by (simp_all add: example_interceptor_def new_interceptor_def)

theorem escalations_never_queued_witness:
  "ic_approvals (snd (interceptor_evaluate (\<lambda>_. Inr ''00'') 0 (example_readings 1) calm_action (example_interceptor [] [])))
     = Some new_approval_backend"
proof -
  let ?ic = "example_interceptor [] []"
  have "interceptor_step\<^sup>*\<^sup>* ?ic (snd (interceptor_evaluate (\<lambda>_. Inr ''00'') 0 (example_readings 1) calm_action ?ic))"
    by (rule r_into_rtranclp) (rule evaluated)
  from escalations_never_queued[OF this example_interceptor_simps(4), of "[]" True "[]"] show ?thesis by simp
qed

end
