(* ===== verification/Enforcement.thy ===== *)
theory Enforcement
  imports Interceptor
begin

text \<open>
  The points that act on a decision: src/src/sentinel/gateway/mcp_gateway.py and the adapters
  for Kong, Envoy and AWS API Gateway under src/src/sentinel/adapters. Each builds an action,
  asks an interceptor and answers its own protocol. \<open>decide\<close> is the interceptor's
  \<^verbatim>\<open>evaluate\<close>, which threads its own state. The locale \<open>enforcement_point\<close> is what all
  of them owe: their answer lets the action pass exactly when the verdict is ALLOW.
\<close>

type_synonym 's decider = "action \<Rightarrow> 's \<Rightarrow> decision result \<times> 's"

text \<open>What the constructor of an action draws: a fresh id, the clock, and a default context.\<close>

record draw =
  dr_id :: uuid
  dr_now :: datetime
  dr_context :: action_context

locale enforcement_point =
  fixes respond :: "decision \<Rightarrow> 'r" and passes :: "'r \<Rightarrow> bool"
  assumes passes_iff: "passes (respond d) \<longleftrightarrow> verdict d = ALLOW"
begin

lemma answer_passes:
  "bindR r (\<lambda>d. Inr (respond d)) = Inr out \<Longrightarrow> passes out \<longleftrightarrow> (\<exists>d. r = Inr d \<and> out = respond d \<and> verdict d = ALLOW)"
  by (auto simp: bindR_Inr_iff passes_iff)

lemma no_decision_no_pass: "bindR (Inl e) (\<lambda>d. Inr (respond d)) = Inr out \<Longrightarrow> False"
  by simp

end

section \<open>Reading untyped requests\<close>

text \<open>A string between double quotes.\<close>

definition dquoted :: "string \<Rightarrow> string" where
  "dquoted s = CHR 0x22 # s @ [CHR 0x22]"

text \<open>\<^verbatim>\<open>x.get(k, default)\<close>: only dictionaries have the method.\<close>

fun py_get :: "pyval \<Rightarrow> string \<Rightarrow> pyval \<Rightarrow> pyval result" where
  "py_get (VDict d) k v = Inr (case map_of d k of None \<Rightarrow> v | Some w \<Rightarrow> w)"
| "py_get x k v = Inl (Exn AttributeError (quoted (py_type_name x) @ '' object has no attribute '' @ quoted ''get''))"

text \<open>\<^verbatim>\<open>x[:n]\<close>; of the values of a document only strings and lists can be sliced.\<close>

fun py_head :: "nat \<Rightarrow> pyval \<Rightarrow> pyval result" where
  "py_head n (VStr s) = Inr (VStr (take n s))"
| "py_head n (VList xs) = Inr (VList (take n xs))"
| "py_head n (VDict d) = Inl (Exn TypeError ''unhashable type: slice'')"
| "py_head n x = Inl (Exn TypeError (quoted (py_type_name x) @ '' object is not subscriptable''))"

text \<open>The checks of the model \<^verbatim>\<open>Action\<close> on a required and on an optional string field.\<close>

fun str_field :: "string \<Rightarrow> pyval \<Rightarrow> string result" where
  "str_field f (VStr s) = Inr s"
| "str_field f x = Inl (Exn ValidationError (f @ '': Input should be a valid string''))"

fun opt_str_field :: "string \<Rightarrow> pyval \<Rightarrow> string option result" where
  "opt_str_field f VNone = Inr None"
| "opt_str_field f x = bindR (str_field f x) (\<lambda>s. Inr (Some s))"

text \<open>\<^verbatim>\<open>Action(type=HTTP_REQUEST, agent_did=..., tool=..., arguments=..., intent=...)\<close>\<close>

definition http_action ::
  "draw \<Rightarrow> pyval \<Rightarrow> string \<Rightarrow> (string, pyval) pydict \<Rightarrow> pyval \<Rightarrow> action result" where
  "http_action dr agent tool args intnt =
     bindR (str_field ''agent_did'' agent) (\<lambda>d.
     bindR (opt_str_field ''intent'' intnt) (\<lambda>i.
       validate_action \<lparr>act_id = dr_id dr, act_type = HTTP_REQUEST, agent_did = d, act_tenant_id = ''default'',
         act_tool = Some tool, arguments = args, payload_digest = None, intent = i,
         act_context = dr_context dr, act_created_at = dr_now dr\<rparr>))"

text \<open>Deciding on an action that may have failed to build, and answering.\<close>

definition decide_and_respond ::
  "'s decider \<Rightarrow> (action \<Rightarrow> decision \<Rightarrow> 'r) \<Rightarrow> action result \<Rightarrow> 's \<Rightarrow> 'r result \<times> 's" where
  "decide_and_respond decide answer ar s = (case ar of
     Inl e \<Rightarrow> (Inl e, s)
   | Inr a \<Rightarrow> (let (r, s') = decide a s in (bindR r (\<lambda>d. Inr (answer a d)), s')))"

section \<open>Kong\<close>

datatype kong_body = Kong_ok | Kong_blocked explanation

type_synonym kong_answer = "int \<times> kong_body \<times> (string, string) pydict"

definition kong_action :: "draw \<Rightarrow> pyval \<Rightarrow> action result" where
  "kong_action dr ctx =
     bindR (py_get ctx ''agent_did'' (VStr ''did:unknown:anonymous'')) (\<lambda>agent.
     bindR (py_get ctx ''method'' (VStr ''GET'')) (\<lambda>meth.
     bindR (py_get ctx ''path'' (VStr ''/'')) (\<lambda>path.
     bindR (py_get ctx ''headers'' (VDict [])) (\<lambda>headers.
     bindR (py_get ctx ''query'' (VDict [])) (\<lambda>query.
     bindR (py_get ctx ''body'' (VStr [])) (\<lambda>body.
     bindR (py_get ctx ''intent'' VNone) (\<lambda>intnt.
       http_action dr agent (py_str meth @ '' '' @ py_str path)
         [(''headers'', headers), (''query'', query), (''body_preview'', VStr (take 4096 (py_str body)))] intnt)))))))"

definition kong_respond :: "decision \<Rightarrow> kong_answer" where
  "kong_respond d = (if verdict d = ALLOW then (200, Kong_ok, [(''x-sentinel-decision'', ''allow'')])
     else (403, Kong_blocked (explanation d), [(''x-sentinel-decision'', verdict_value (verdict d))]))"

definition kong_authorize :: "'s decider \<Rightarrow> draw \<Rightarrow> pyval \<Rightarrow> 's \<Rightarrow> kong_answer result \<times> 's" where
  "kong_authorize decide dr ctx = decide_and_respond decide (\<lambda>_. kong_respond) (kong_action dr ctx)"

section \<open>Envoy\<close>

definition envoy_action :: "draw \<Rightarrow> pyval \<Rightarrow> action result" where
  "envoy_action dr req =
     bindR (py_get req ''attributes'' (VDict [])) (\<lambda>x.
     bindR (py_get x ''request'' (VDict [])) (\<lambda>y.
     bindR (py_get y ''http'' (VDict [])) (\<lambda>attrs.
     bindR (py_get attrs ''headers'' (VDict [])) (\<lambda>headers.
     bindR (py_get headers ''x-agent-did'' (VStr ''did:unknown:anonymous'')) (\<lambda>agent.
     bindR (py_get attrs ''method'' (VStr ''GET'')) (\<lambda>meth.
     bindR (py_get attrs ''path'' (VStr ''/'')) (\<lambda>path.
     bindR (py_get attrs ''body'' (VStr [])) (\<lambda>body.
     bindR (py_head 4096 body) (\<lambda>preview.
     bindR (py_get headers ''x-agent-intent'' VNone) (\<lambda>intnt.
       http_action dr agent (py_str meth @ '' '' @ py_str path)
         [(''headers'', headers), (''body'', preview)] intnt))))))))))"

definition envoy_respond :: "decision \<Rightarrow> pyval" where
  "envoy_respond d = (if verdict d = ALLOW
     then VDict [(''status'', VDict [(''code'', VInt 0)]), (''ok_response'', VDict [])]
     else VDict [(''status'', VDict [(''code'', VInt 7)]),
       (''denied_response'', VDict [(''status'', VDict [(''code'', VInt 403)]),
          (''body'', VStr (CHR ''{'' # dquoted ''error'' @ '':'' @ dquoted ''blocked_by_sentinel'' @ ''}'')),
          (''headers'', VList [VDict [(''header'', VDict [(''key'', VStr ''x-sentinel-decision''),
             (''value'', VStr (verdict_value (verdict d)))])]])])])"

definition envoy_check :: "'s decider \<Rightarrow> draw \<Rightarrow> pyval \<Rightarrow> 's \<Rightarrow> pyval result \<times> 's" where
  "envoy_check decide dr req = decide_and_respond decide (\<lambda>_. envoy_respond) (envoy_action dr req)"

text \<open>The proxy lets the request through on status code 0.\<close>

definition envoy_passes :: "pyval \<Rightarrow> bool" where
  "envoy_passes r = (case r of VDict d \<Rightarrow> map_of d ''status'' = Some (VDict [(''code'', VInt 0)]) | _ \<Rightarrow> False)"

section \<open>AWS API Gateway\<close>

definition aws_action :: "draw \<Rightarrow> pyval \<Rightarrow> action result" where
  "aws_action dr event =
     bindR (py_get event ''headers'' (VDict [])) (\<lambda>headers.
     bindR (py_get headers ''x-agent-did'' (VStr ''did:unknown:anonymous'')) (\<lambda>agent.
     bindR (py_get event ''httpMethod'' (VStr ''GET'')) (\<lambda>meth.
     bindR (py_get event ''path'' (VStr ''/'')) (\<lambda>path.
     bindR (py_get event ''queryStringParameters'' VNone) (\<lambda>query.
     bindR (py_get headers ''x-agent-intent'' VNone) (\<lambda>intnt.
       http_action dr agent (py_str meth @ '' '' @ py_str path)
         [(''headers'', headers), (''query'', if py_truth query then query else VDict [])] intnt))))))"

definition aws_respond :: "pyval \<Rightarrow> action \<Rightarrow> decision \<Rightarrow> pyval" where
  "aws_respond resource a d = VDict [(''principalId'', VStr (agent_did a)),
     (''policyDocument'', VDict [(''Version'', VStr ''2012-10-17''),
        (''Statement'', VList [VDict [(''Action'', VStr ''execute-api:Invoke''),
           (''Effect'', VStr (if verdict d = ALLOW then ''Allow'' else ''Deny'')), (''Resource'', resource)]])]),
     (''context'', VDict [(''sentinelDecision'', VStr (verdict_value (verdict d))),
        (''explanation'', VStr (take 1024 (summary (explanation d))))])]"

definition aws_authorize :: "'s decider \<Rightarrow> draw \<Rightarrow> pyval \<Rightarrow> 's \<Rightarrow> pyval result \<times> 's" where
  "aws_authorize decide dr event s =
     decide_and_respond decide
       (aws_respond (case py_get event ''methodArn'' (VStr ''*'') of Inr r \<Rightarrow> r | Inl e \<Rightarrow> VNone))
       (aws_action dr event) s"

definition aws_passes :: "pyval \<Rightarrow> bool" where
  "aws_passes r = (case r of VDict d \<Rightarrow> (case map_of d ''policyDocument'' of
       Some (VDict doc) \<Rightarrow> (case map_of doc ''Statement'' of
          Some (VList [VDict st]) \<Rightarrow> map_of st ''Effect'' = Some (VStr ''Allow'') | _ \<Rightarrow> False)
     | _ \<Rightarrow> False) | _ \<Rightarrow> False)"

section \<open>The gateway\<close>

text \<open>
  A tool handler changes the world \<open>'w\<close> and returns an output or raises. \<open>gateway_call\<close> holds
  the keyword arguments of \<^verbatim>\<open>evaluate\<close> and \<^verbatim>\<open>invoke\<close>.
\<close>

type_synonym ('w, 'o) tool_handler = "string \<Rightarrow> (string, pyval) pydict \<Rightarrow> 'w \<Rightarrow> 'o result \<times> 'w"

record gateway_call =
  gc_tool :: string
  gc_args :: "(string, pyval) pydict option"
  gc_principal_did :: "string option"
  gc_agent_did :: "string option"
  gc_tenant_id :: string
  gc_intent :: "string option"

record 'o gateway_result =
  gr_decision :: decision
  gr_output :: "'o option"
  blocked :: bool

definition or_else :: "string option \<Rightarrow> string \<Rightarrow> string" where
  "or_else x y = (if truthy x then or_empty x else y)"

definition gateway_action :: "draw \<Rightarrow> gateway_call \<Rightarrow> action result" where
  "gateway_action dr c = validate_action
     \<lparr>act_id = dr_id dr, act_type = TOOL_CALL,
      agent_did = or_else (gc_principal_did c) (or_else (gc_agent_did c) ''did:anon:unknown''),
      act_tenant_id = gc_tenant_id c, act_tool = Some (gc_tool c),
      arguments = (case gc_args c of None \<Rightarrow> [] | Some d \<Rightarrow> d), payload_digest = None,
      intent = gc_intent c, act_context = dr_context dr, act_created_at = dr_now dr\<rparr>"

definition gateway_evaluate ::
  "'s decider \<Rightarrow> draw \<Rightarrow> gateway_call \<Rightarrow> ('w, 'o) tool_handler option \<Rightarrow> ('w, 'o) tool_handler option \<Rightarrow>
   's \<Rightarrow> 'w \<Rightarrow> 'o gateway_result result \<times> 's \<times> 'w" where
  "gateway_evaluate decide dr c executor handler s w = (case gateway_action dr c of
     Inl e \<Rightarrow> (Inl e, s, w)
   | Inr a \<Rightarrow> (let (r, s') = decide a s in case r of
       Inl e \<Rightarrow> (Inl e, s', w)
     | Inr d \<Rightarrow>
        if verdict d \<noteq> ALLOW then (Inr \<lparr>gr_decision = d, gr_output = None, blocked = True\<rparr>, s', w)
        else (case (case executor of Some f \<Rightarrow> Some f | None \<Rightarrow> handler) of
          None \<Rightarrow> (Inl (Exn RuntimeError (''MCPGateway.invoke called without an executor and no default '' @
                    ''handler was bound at construction time.'')), s', w)
        | Some run \<Rightarrow>
            (let (out, w') = run (gc_tool c) (case gc_args c of None \<Rightarrow> [] | Some args \<Rightarrow> args) w in
             (bindR out (\<lambda>x. Inr \<lparr>gr_decision = d, gr_output = Some x, blocked = False\<rparr>), s', w')))))"

definition tool_denied :: "decision \<Rightarrow> exn" where
  "tool_denied d = Exn ToolDeniedError (''tool denied: verdict='' @ verdict_value (verdict d) @ '' reasons='' @
     repr (VList (map (VStr \<circ> rf_code) (risk_factors (explanation d)))))"

text \<open>\<^verbatim>\<open>invoke\<close>: an output of None stands for a tool that returned nothing.\<close>

definition gateway_invoke ::
  "'s decider \<Rightarrow> draw \<Rightarrow> gateway_call \<Rightarrow> ('w, 'o) tool_handler option \<Rightarrow> ('w, 'o) tool_handler option \<Rightarrow>
   's \<Rightarrow> 'w \<Rightarrow> 'o option result \<times> 's \<times> 'w" where
  "gateway_invoke decide dr c executor handler s w =
     (let (r, s', w') = gateway_evaluate decide dr c executor handler s w in
      (bindR r (\<lambda>g. if blocked g then Inl (tool_denied (gr_decision g)) else Inr (gr_output g)), s', w'))"

section \<open>The adapters are enforcement points\<close>

interpretation kong: enforcement_point kong_respond "\<lambda>out. fst out = 200"
  by unfold_locales (simp add: kong_respond_def)

interpretation envoy: enforcement_point envoy_respond envoy_passes
  by unfold_locales (simp add: envoy_respond_def envoy_passes_def)

interpretation aws: enforcement_point "aws_respond resource a" aws_passes for resource a
  by unfold_locales (simp add: aws_respond_def aws_passes_def)

definition decided :: "'s decider \<Rightarrow> action result \<Rightarrow> 's \<Rightarrow> decision result" where
  "decided decide ar s = bindR ar (\<lambda>a. fst (decide a s))"

lemma decide_and_respond_Inr_iff:
  "fst (decide_and_respond decide answer ar s) = Inr out \<longleftrightarrow>
     (\<exists>a d. ar = Inr a \<and> fst (decide a s) = Inr d \<and> out = answer a d)"
  by (cases ar) (auto simp: decide_and_respond_def split_def Let_def bindR_Inr_iff)

lemma decided_Inr_iff: "decided decide ar s = Inr d \<longleftrightarrow> (\<exists>a. ar = Inr a \<and> fst (decide a s) = Inr d)"
  by (simp add: decided_def bindR_Inr_iff)

section \<open>The gateway runs the tool on ALLOW only\<close>

definition runner :: "('w, 'o) tool_handler option \<Rightarrow> ('w, 'o) tool_handler option \<Rightarrow> ('w, 'o) tool_handler option" where
  "runner executor handler = (case executor of Some f \<Rightarrow> Some f | None \<Rightarrow> handler)"

definition call_args :: "gateway_call \<Rightarrow> (string, pyval) pydict" where
  "call_args c = (case gc_args c of None \<Rightarrow> [] | Some d \<Rightarrow> d)"

lemma gateway_evaluate_eq:
  "gateway_evaluate decide dr c executor handler s w = (case gateway_action dr c of
     Inl e \<Rightarrow> (Inl e, s, w)
   | Inr a \<Rightarrow> (case fst (decide a s) of
       Inl e \<Rightarrow> (Inl e, snd (decide a s), w)
     | Inr d \<Rightarrow>
        if verdict d \<noteq> ALLOW then (Inr \<lparr>gr_decision = d, gr_output = None, blocked = True\<rparr>, snd (decide a s), w)
        else (case runner executor handler of
          None \<Rightarrow> (Inl (Exn RuntimeError (''MCPGateway.invoke called without an executor and no default '' @
                    ''handler was bound at construction time.'')), snd (decide a s), w)
        | Some run \<Rightarrow> (bindR (fst (run (gc_tool c) (call_args c) w))
             (\<lambda>x. Inr \<lparr>gr_decision = d, gr_output = Some x, blocked = False\<rparr>), snd (decide a s),
             snd (run (gc_tool c) (call_args c) w)))))"
  by (simp add: gateway_evaluate_def runner_def call_args_def split_def Let_def split: sum.split option.split)

lemma gateway_world:
  "snd (snd (gateway_evaluate decide dr c executor handler s w)) =
     (case decided decide (gateway_action dr c) s of
        Inl e \<Rightarrow> w
      | Inr d \<Rightarrow> if verdict d \<noteq> ALLOW then w
          else (case runner executor handler of None \<Rightarrow> w | Some run \<Rightarrow> snd (run (gc_tool c) (call_args c) w)))"
  by (simp add: gateway_evaluate_eq decided_def split: sum.split option.split)

lemma gateway_invoke_world:
  "snd (gateway_invoke decide dr c executor handler s w) = snd (gateway_evaluate decide dr c executor handler s w)"
  by (simp add: gateway_invoke_def split_def Let_def)

lemma bindR_invoke:
  "bindR (bindR m (\<lambda>x. Inr \<lparr>gr_decision = d, gr_output = Some x, blocked = False\<rparr>))
     (\<lambda>g. if blocked g then Inl (tool_denied (gr_decision g)) else Inr (gr_output g)) = bindR m (\<lambda>x. Inr (Some x))"
  by (cases m) simp_all

lemma gateway_invoke_answer:
  "fst (gateway_invoke decide dr c executor handler s w) = (case decided decide (gateway_action dr c) s of
     Inl e \<Rightarrow> Inl e
   | Inr d \<Rightarrow> if verdict d \<noteq> ALLOW then Inl (tool_denied d)
       else (case runner executor handler of
         None \<Rightarrow> Inl (Exn RuntimeError (''MCPGateway.invoke called without an executor and no default '' @
                    ''handler was bound at construction time.''))
       | Some run \<Rightarrow> bindR (fst (run (gc_tool c) (call_args c) w)) (\<lambda>x. Inr (Some x))))"
  by (simp add: gateway_invoke_def gateway_evaluate_eq decided_def bindR_invoke split_def Let_def split: sum.split option.split)

section \<open>Properties\<close>

text \<open>
  C6: The gateway enforces the decision, whatever the interceptor, the handlers and the world are.
  The world after a call is the one before it, except that the tool has run once, with the
  tool name and the arguments that were decided on, when the decision was ALLOW and there is a
  handler; \<open>invoke\<close> returns an output only then, and raises ToolDeniedError exactly on a
  decision other than ALLOW.
\<close>

theorem gateway_enforces:
  "snd (snd (gateway_invoke decide dr c executor handler s w)) =
     (case decided decide (gateway_action dr c) s of
        Inl e \<Rightarrow> w
      | Inr d \<Rightarrow> if verdict d \<noteq> ALLOW then w
          else (case runner executor handler of None \<Rightarrow> w | Some run \<Rightarrow> snd (run (gc_tool c) (call_args c) w))) \<and>
   (fst (gateway_invoke decide dr c executor handler s w) = Inr out \<longleftrightarrow>
     (\<exists>d run x. decided decide (gateway_action dr c) s = Inr d \<and> verdict d = ALLOW \<and>
        runner executor handler = Some run \<and> fst (run (gc_tool c) (call_args c) w) = Inr x \<and> out = Some x)) \<and>
   (case decided decide (gateway_action dr c) s of
      Inl e \<Rightarrow> fst (gateway_invoke decide dr c executor handler s w) = Inl e
    | Inr d \<Rightarrow> verdict d = ALLOW \<or> fst (gateway_invoke decide dr c executor handler s w) = Inl (tool_denied d))"
proof (intro conjI)
  show "snd (snd (gateway_invoke decide dr c executor handler s w)) =
     (case decided decide (gateway_action dr c) s of
        Inl e \<Rightarrow> w
      | Inr d \<Rightarrow> if verdict d \<noteq> ALLOW then w
          else (case runner executor handler of None \<Rightarrow> w | Some run \<Rightarrow> snd (run (gc_tool c) (call_args c) w)))"
    by (simp add: gateway_invoke_world gateway_world)
qed (auto simp: gateway_invoke_answer bindR_Inr_iff split: sum.split option.split)

text \<open>
  C13: Every adapter enforces the decision: Kong is answered 200, Envoy status code 0 and AWS API
  Gateway an Allow statement exactly when the request built an action, the interceptor decided on
  it, and the verdict was ALLOW. A malformed request or a failing interceptor is never let through.
\<close>

theorem adapters_enforce:
  "((\<exists>out. fst (kong_authorize decide dr req s) = Inr out \<and> fst out = 200) \<longleftrightarrow>
      (\<exists>d. decided decide (kong_action dr req) s = Inr d \<and> verdict d = ALLOW)) \<and>
   ((\<exists>out. fst (envoy_check decide dr req s) = Inr out \<and> envoy_passes out) \<longleftrightarrow>
      (\<exists>d. decided decide (envoy_action dr req) s = Inr d \<and> verdict d = ALLOW)) \<and>
   ((\<exists>out. fst (aws_authorize decide dr req s) = Inr out \<and> aws_passes out) \<longleftrightarrow>
      (\<exists>d. decided decide (aws_action dr req) s = Inr d \<and> verdict d = ALLOW))"
  unfolding kong_authorize_def envoy_check_def aws_authorize_def decide_and_respond_Inr_iff decided_Inr_iff
  using kong.passes_iff envoy.passes_iff aws.passes_iff by blast

text \<open>
  C9: End to end: a tool behind the gateway runs, that is the world changes, only if the DID the
  caller presented is stored and not revoked, every policy rule that matches has effect ALLOW, and
  the risk score of the decision is below the throttle threshold.
\<close>

theorem tool_runs_only_for_known_agents:
  assumes "snd (snd (gateway_invoke (interceptor_evaluate digest elapsed rd) dr c executor handler ic w)) \<noteq> w"
  shows "\<exists>a i d ms. gateway_action dr c = Inr a \<and>
    fst (interceptor_evaluate digest elapsed rd a ic) = Inr d \<and> verdict d = ALLOW \<and>
    agent_did a = or_else (gc_principal_did c) (or_else (gc_agent_did c) ''did:anon:unknown'') \<and>
    store_get (ic_identities ic) (agent_did a) = Some i \<and> \<not> revoked i \<and>
    policy_evaluate (pd_bundle (ic_deps ic)) a (Some i) (risk_factors (explanation d)) = Inr ms \<and>
    (\<forall>m \<in> set ms. pm_effect m = E_ALLOW) \<and> risk_score (explanation d) < THROTTLE_THRESHOLD"
proof -
  obtain d where dec: "decided (interceptor_evaluate digest elapsed rd) (gateway_action dr c) ic = Inr d" "verdict d = ALLOW"
    using assms by (auto simp: gateway_invoke_world gateway_world split: sum.splits if_splits)
  then obtain a where a: "gateway_action dr c = Inr a" "fst (interceptor_evaluate digest elapsed rd a ic) = Inr d"
    by (auto simp: decided_Inr_iff)
  from a(2) dec(2) obtain i ms where "store_get (ic_identities ic) (agent_did a) = Some i" "\<not> revoked i"
      "policy_evaluate (pd_bundle (ic_deps ic)) a (Some i) (risk_factors (explanation d)) = Inr ms"
      "\<forall>m \<in> set ms. pm_effect m = E_ALLOW" "risk_score (explanation d) < THROTTLE_THRESHOLD"
    by (rule interceptor_allowed)
  moreover have "agent_did a = or_else (gc_principal_did c) (or_else (gc_agent_did c) ''did:anon:unknown'')"
    using a(1) by (auto simp: gateway_action_def validate_action_def split: if_splits)
  ultimately show ?thesis using a dec(2)
    by (intro exI[of _ a] exI[of _ i] exI[of _ d] exI[of _ ms]) simp
qed

definition quiet_call :: gateway_call where
  "quiet_call = \<lparr>gc_tool = [], gc_args = None, gc_principal_did = None, gc_agent_did = Some ''did:test:t'',
     gc_tenant_id = ''default'', gc_intent = None\<rparr>"

definition example_draw :: draw where
  "example_draw = \<lparr>dr_id = 7, dr_now = 0, dr_context = example_context\<rparr>"

text \<open>A handler that counts its calls.\<close>

definition count_calls :: "(nat, unit) tool_handler" where
  "count_calls tool args n = (Inr (), Suc n)"

lemma quiet_call_decided:
  "\<exists>d. decided (interceptor_evaluate (\<lambda>_. Inr ''00'') 0 (example_readings 1)) (gateway_action example_draw quiet_call)
      (example_interceptor [] example_db) = Inr d \<and> verdict d = ALLOW"
proof -
  obtain a where a: "gateway_action example_draw quiet_call = Inr a" "quiet a" "agent_did a = ''did:test:t''"
      "payload_digest a = None"
    by (auto simp: gateway_action_def quiet_call_def example_draw_def or_else_def validate_action_def quiet_def)
  let ?i = "agent_identity ''did:test:t'' ELEVATED (3/4) False"
  have gate: "\<not> gate_closes default_scorer (Some ?i) [calm_factor] a"
  proof -
    have "map_option tier (adjust default_scorer (Some ?i) [calm_factor] ALLOW) \<noteq> Some OBSERVE" by code_simp
    then show ?thesis by (auto simp: gate_closes_def split: option.splits)
  qed
  have "\<exists>d. fst (evaluate (example_deps []) (mem_lookup example_db) (example_readings 1) a fresh_state) = Inr d \<and> verdict d = ALLOW"
    by (rule quiet_evaluation[OF a(2) _ _ gate]) (simp_all add: a(3) calm_lookup, simp add: agent_identity_def)
  then show ?thesis using a(1,4)
    by (auto simp: decided_Inr_iff interceptor_evaluate_eq stamp_digest_def split_def Let_def)
qed

theorem tool_runs_only_for_known_agents_witness:
  "snd (snd (gateway_invoke (interceptor_evaluate (\<lambda>_. Inr ''00'') 0 (example_readings 1)) example_draw quiet_call
      (Some count_calls) None (example_interceptor [] example_db) 0)) = 1 \<and>
   (\<exists>i. store_get example_db ''did:test:t'' = Some i \<and> \<not> revoked i)"
proof -
  let ?g = "gateway_invoke (interceptor_evaluate (\<lambda>_. Inr ''00'') 0 (example_readings 1)) example_draw quiet_call
      (Some count_calls) None (example_interceptor [] example_db) 0"
  have w: "snd (snd ?g) = 1"
    using quiet_call_decided by (auto simp: gateway_invoke_world gateway_world runner_def count_calls_def)
  then have "snd (snd ?g) \<noteq> 0" by simp
  from tool_runs_only_for_known_agents[OF this] w show ?thesis
    by (auto simp: quiet_call_def or_else_def)
qed

end
