(* ===== verification/HttpApi.thy ===== *)
theory HttpApi
  imports RateLimit Enforcement
begin

text \<open>
  The HTTP surface: src/src/sentinel/api. A middleware wraps the handler behind it
  (\<open>call_next\<close>); \<open>create_app\<close> adds them so that the last one added runs first. Headers are a
  list of lower-case names with values, as Starlette decodes them. The router and the parsing of
  bodies belong to FastAPI: a request arrives at a route as a value of \<open>route_call\<close>, and a path no
  route matches is answered by FastAPI.
\<close>

section \<open>Requests and responses\<close>

record 'b request =
  rq_path :: string
  rq_headers :: "(string, string) pydict"
  rq_body :: 'b

datatype response_body =
    Error_body "(string, string) pydict"
  | Detail_body string
  | Status_body "(string, string) pydict"
  | Ready_body bool
  | Decision_body decision
  | Policy_body policy_bundle
  | Identity_body identity
  | Pending_body "pending_approval list"
  | Audit_body nat
  | Metrics_body string

record response =
  rs_status :: int
  rs_body :: response_body
  rs_headers :: "(string, string) pydict"

definition mk_response :: "int \<Rightarrow> response_body \<Rightarrow> response" where
  "mk_response code b = \<lparr>rs_status = code, rs_body = b, rs_headers = []\<rparr>"

definition header :: "'b request \<Rightarrow> string \<Rightarrow> string option" where
  "header r name = map_of (rq_headers r) name"

type_synonym ('b, 's) handler = "'b request \<Rightarrow> 's \<Rightarrow> response result \<times> 's"

section \<open>auth.py\<close>

definition public_paths :: "string list" where
  "public_paths = [''/healthz'', ''/livez'', ''/readyz'', ''/metrics'', ''/docs'', ''/openapi.json'', ''/redoc'']"

definition is_public :: "string \<Rightarrow> bool" where
  "is_public p \<longleftrightarrow> p \<in> set public_paths \<or> startswith p ''/static/''"

definition is_ascii :: "string \<Rightarrow> bool" where
  "is_ascii s \<longleftrightarrow> list_all (\<lambda>c. (of_char c :: nat) < 128) s"

text \<open>\<^verbatim>\<open>hmac.compare_digest\<close> on strings.\<close>

definition compare_digest :: "string \<Rightarrow> string \<Rightarrow> bool result" where
  "compare_digest a b = (if is_ascii a \<and> is_ascii b then Inr (a = b)
     else Inl (Exn TypeError ''comparing strings with non-ASCII characters is not supported''))"

definition bearer_auth :: "string \<Rightarrow> ('b, 's) handler \<Rightarrow> ('b, 's) handler" where
  "bearer_auth token call_next r s =
     (if is_public (rq_path r) then call_next r s
      else if token = [] then
        (Inr (mk_response 503 (Error_body [(''error'', ''service_unconfigured''),
           (''detail'', ''SENTINEL_API_TOKEN not set'')])), s)
      else (let auth = (case header r ''authorization'' of None \<Rightarrow> [] | Some v \<Rightarrow> v) in
        if \<not> startswith auth ''Bearer '' then (Inr (mk_response 401 (Error_body [(''error'', ''unauthorized'')])), s)
        else (case compare_digest (strip (removeprefix auth ''Bearer '')) token of
            Inl e \<Rightarrow> (Inl e, s)
          | Inr ok \<Rightarrow>
              if \<not> ok then (Inr (mk_response 401 (Error_body [(''error'', ''unauthorized'')])), s)
              else call_next r s)))"

section \<open>rate_limit.py, the middleware\<close>

text \<open>\<open>made\<close> and \<open>now\<close> are the clocks the bucket reads.\<close>

definition rate_limited :: "rat \<Rightarrow> rat \<Rightarrow> ('b, 's) handler \<Rightarrow> ('b, limiter \<times> 's) handler" where
  "rate_limited made now call_next r st = (let (l, s) = st;
     tenant = (case header r ''x-tenant-id'' of None \<Rightarrow> ''default'' | Some t \<Rightarrow> t);
     (ok, l') = admit made now tenant l in
     if \<not> ok then (Inr \<lparr>rs_status = 429, rs_body = Error_body [(''error'', ''rate_limited''), (''tenant'', tenant)],
         rs_headers = [(''retry-after'', ''1'')]\<rparr>, l', s)
     else (let (resp, s') = call_next r s in (resp, l', s')))"

section \<open>request_id.py\<close>

definition request_id :: "uuid \<Rightarrow> ('b, 's) handler \<Rightarrow> ('b, 's) handler" where
  "request_id fresh call_next r s = (let rid = or_else (header r ''x-request-id'') (uuid_hex fresh);
     (resp, s') = call_next r s in
     (bindR resp (\<lambda>x. Inr (x\<lparr>rs_headers := dict_set ''x-request-id'' rid (rs_headers x)\<rparr>)), s'))"

section \<open>dependencies.py\<close>

record app_state =
  as_interceptor :: interceptor
  as_tenants :: tenant_db

text \<open>\<open>get_state\<close> on the module's global; \<open>install_state\<close> assigns it.\<close>

definition get_state :: "app_state option \<Rightarrow> app_state result" where
  "get_state st = (case st of
     None \<Rightarrow> Inl (Exn RuntimeError ''AppState not installed; call install_state() at startup'')
   | Some s \<Rightarrow> Inr s)"

text \<open>An \<^verbatim>\<open>HTTPException\<close>, which FastAPI turns into a response.\<close>

datatype 'a served = Served 'a | Http_error int string | Raised exn

definition get_tenant :: "string option \<Rightarrow> app_state \<Rightarrow> tenant_config served" where
  "get_tenant x_tenant_id st = (let tid = or_else x_tenant_id ''default'' in
     case tenant_get (as_tenants st) tid of
       Inr c \<Rightarrow> Served c
     | Inl e \<Rightarrow> if catches Exception e then Http_error 404 (''unknown tenant: '' @ tid) else Raised e)"

section \<open>The routes\<close>

datatype route_call =
    Healthz | Livez | Readyz | Get_metrics
  | Evaluate action
  | Get_policy | Reload_policy
  | Get_identity string | Upsert_identity identity
  | List_audit int
  | List_pending | Resolve_pending string string string

text \<open>What an evaluation draws: the clocks of the pipeline and of the stopwatch, and the digest's encoder.\<close>

record evaluation_env =
  ev_readings :: readings
  ev_elapsed :: rat
  ev_digest :: digest

definition with_ic :: "interceptor \<Rightarrow> app_state \<Rightarrow> app_state" where
  "with_ic ic st = st\<lparr>as_interceptor := ic\<rparr>"

text \<open>evaluate.py: the action's tenant must be the tenant of the request.\<close>

definition evaluate_route ::
  "evaluation_env \<Rightarrow> action \<Rightarrow> tenant_config \<Rightarrow> app_state \<Rightarrow> decision served \<times> app_state" where
  "evaluate_route env a tenant st =
     (if act_tenant_id a \<noteq> [] \<and> act_tenant_id a \<noteq> tc_tenant_id tenant
      then (Http_error 403 ''tenant scope mismatch'', st)
      else (let a' = (if act_tenant_id a = [] then a\<lparr>act_tenant_id := tc_tenant_id tenant\<rparr> else a);
                (r, ic) = interceptor_evaluate (ev_digest env) (ev_elapsed env) (ev_readings env) a' (as_interceptor st)
            in ((case r of Inl e \<Rightarrow> Raised e | Inr d \<Rightarrow> Served d), with_ic ic st)))"

definition get_policy_route :: "tenant_config \<Rightarrow> app_state \<Rightarrow> policy_bundle served" where
  "get_policy_route tenant st = Served (current_policy (as_interceptor st))"

definition reload_policy_route ::
  "policy_bundle result option \<Rightarrow> tenant_config \<Rightarrow> app_state \<Rightarrow> string served \<times> app_state" where
  "reload_policy_route loader tenant st = (let (r, ic) = reload_policy loader (as_interceptor st) in
     ((case r of Inl e \<Rightarrow> Raised e | Inr b \<Rightarrow> Served (version b)), with_ic ic st))"

definition get_identity_route :: "string \<Rightarrow> tenant_config \<Rightarrow> app_state \<Rightarrow> identity served" where
  "get_identity_route d tenant st = (case lookup_identity d (as_interceptor st) of
     Inl e \<Rightarrow> Raised e
   | Inr None \<Rightarrow> Http_error 404 ''identity not found''
   | Inr (Some i) \<Rightarrow> Served i)"

definition upsert_identity_route :: "identity \<Rightarrow> tenant_config \<Rightarrow> app_state \<Rightarrow> identity served \<times> app_state" where
  "upsert_identity_route i tenant st = (let (j, ic) = upsert_identity i (as_interceptor st) in (Served j, with_ic ic st))"

definition list_audit_route ::
  "(string \<Rightarrow> int \<Rightarrow> unit list result) option \<Rightarrow> int \<Rightarrow> tenant_config \<Rightarrow> unit list served" where
  "list_audit_route backend limit tenant = (case list_audit backend (tc_tenant_id tenant) limit of
     Inl e \<Rightarrow> Raised e | Inr xs \<Rightarrow> Served xs)"

definition list_pending_route :: "app_state \<Rightarrow> pending_approval list served" where
  "list_pending_route st = (case list_pending_approvals (as_interceptor st) of Inl e \<Rightarrow> Raised e | Inr xs \<Rightarrow> Served xs)"

definition resolve_route :: "string \<Rightarrow> string \<Rightarrow> string \<Rightarrow> app_state \<Rightarrow> (string, string) pydict served" where
  "resolve_route approval_id v reviewer st =
     (if v \<noteq> ''allow'' \<and> v \<noteq> ''deny'' then Http_error 400 ''verdict must be allow|deny''
      else (case fst (resolve_approval approval_id (v = ''allow'') reviewer (as_interceptor st)) of
          Inl e \<Rightarrow> if catches RuntimeError e then Http_error 503 (exn_msg e) else Raised e
        | Inr p \<Rightarrow> Served [(''status'', ''resolved''), (''verdict'', v)]))"

definition readyz_route :: "app_state \<Rightarrow> bool served" where
  "readyz_route st = Served (is_ready (as_interceptor st))"

section \<open>The application\<close>

text \<open>A served value as a response; an exception that is not an \<^verbatim>\<open>HTTPException\<close> leaves the app.\<close>

fun to_response :: "('a \<Rightarrow> response_body) \<Rightarrow> int \<Rightarrow> 'a served \<Rightarrow> response result" where
  "to_response body code (Served x) = Inr (mk_response code (body x))"
| "to_response body code (Http_error c detail) = Inr (mk_response c (Detail_body detail))"
| "to_response body code (Raised e) = Inl e"

text \<open>A route that depends on \<open>get_tenant\<close>.\<close>

definition with_tenant ::
  "string option \<Rightarrow> (tenant_config \<Rightarrow> app_state \<Rightarrow> response result \<times> app_state) \<Rightarrow> app_state \<Rightarrow>
   response result \<times> app_state" where
  "with_tenant hdr f st = (case get_tenant hdr st of
     Served c \<Rightarrow> f c st
   | Http_error code detail \<Rightarrow> (Inr (mk_response code (Detail_body detail)), st)
   | Raised e \<Rightarrow> (Inl e, st))"

text \<open>\<open>re_metrics\<close> is what prometheus_client prints for its registry.\<close>

record route_env =
  re_eval :: evaluation_env
  re_loader :: "policy_bundle result option"
  re_audit :: "(string \<Rightarrow> int \<Rightarrow> unit list result) option"
  re_metrics :: string

fun route :: "route_env \<Rightarrow> string option \<Rightarrow> route_call \<Rightarrow> app_state \<Rightarrow> response result \<times> app_state" where
  "route env hdr Healthz st = (Inr (mk_response 200 (Status_body [(''status'', ''ok''), (''version'', ''0.1.0'')])), st)"
| "route env hdr Livez st = (Inr (mk_response 200 (Status_body [(''status'', ''alive'')])), st)"
| "route env hdr Readyz st = (to_response Ready_body 200 (readyz_route st), st)"
| "route env hdr Get_metrics st = (Inr (mk_response 200 (Metrics_body (re_metrics env))), st)"
| "route env hdr (Evaluate a) st = with_tenant hdr (\<lambda>c s. let (x, s') = evaluate_route (re_eval env) a c s in
     (to_response Decision_body 200 x, s')) st"
| "route env hdr Get_policy st = with_tenant hdr (\<lambda>c s. (to_response Policy_body 200 (get_policy_route c s), s)) st"
| "route env hdr Reload_policy st = with_tenant hdr (\<lambda>c s. let (x, s') = reload_policy_route (re_loader env) c s in
     (to_response (\<lambda>v. Status_body [(''status'', ''reloaded''), (''version'', v)]) 202 x, s')) st"
| "route env hdr (Get_identity d) st = with_tenant hdr (\<lambda>c s. (to_response Identity_body 200 (get_identity_route d c s), s)) st"
| "route env hdr (Upsert_identity i) st = with_tenant hdr (\<lambda>c s. let (x, s') = upsert_identity_route i c s in
     (to_response Identity_body 201 x, s')) st"
| "route env hdr (List_audit n) st = with_tenant hdr (\<lambda>c s.
     (to_response (Audit_body \<circ> length) 200 (list_audit_route (re_audit env) n c), s)) st"
| "route env hdr List_pending st = with_tenant hdr (\<lambda>c s. (to_response Pending_body 200 (list_pending_route s), s)) st"
| "route env hdr (Resolve_pending i v who) st = with_tenant hdr (\<lambda>c s.
     (to_response Status_body 200 (resolve_route i v who s), s)) st"

text \<open>
  \<open>dispatch\<close> is FastAPI's: which route a request calls, or its own answer. \<open>cors\<close> is the CORS
  middleware, when origins are configured, and otherwise the identity.
\<close>

definition router ::
  "('b request \<Rightarrow> route_call + response) \<Rightarrow> route_env \<Rightarrow> ('b, app_state) handler" where
  "router dispatch env r st = (case dispatch r of
     Inl call \<Rightarrow> route env (header r ''x-tenant-id'') call st
   | Inr resp \<Rightarrow> (Inr resp, st))"

record 'b app_env =
  ae_token :: string
  ae_made :: rat
  ae_now :: rat
  ae_fresh :: uuid
  ae_dispatch :: "'b request \<Rightarrow> route_call + response"
  ae_cors :: "('b, app_state) handler \<Rightarrow> ('b, app_state) handler"
  ae_route :: route_env

text \<open>The middleware in the order of execution: the last \<^verbatim>\<open>add_middleware\<close> is the outermost.\<close>

definition app :: "'b app_env \<Rightarrow> ('b, limiter \<times> app_state) handler" where
  "app env = bearer_auth (ae_token env) (rate_limited (ae_made env) (ae_now env)
     (request_id (ae_fresh env) (ae_cors env (router (ae_dispatch env) (ae_route env)))))"

text \<open>
  \<open>create_app\<close>: the state it was given, or the one installed before; the pair is the state of the
  app and the global after, the limiter being empty.
\<close>

definition create_app ::
  "int \<Rightarrow> int \<Rightarrow> app_state option \<Rightarrow> app_state option \<Rightarrow> (limiter \<times> app_state) result \<times> app_state option" where
  "create_app r b given installed = (let g = (case given of None \<Rightarrow> installed | Some st \<Rightarrow> Some st) in
     (bindR (get_state g) (\<lambda>st. Inr (new_limiter r b, st)), g))"

section \<open>Authentication\<close>

definition authenticated :: "string \<Rightarrow> 'b request \<Rightarrow> bool" where
  "authenticated token r \<longleftrightarrow> token \<noteq> [] \<and> is_ascii token \<and>
     (\<exists>v. header r ''authorization'' = Some (''Bearer '' @ v) \<and> strip v = token)"

lemma removeprefix_append: "removeprefix (p @ v) p = v"
proof -
  have "startswith (p @ v) p" by (simp add: startswith_iff)
  then show ?thesis by (simp add: removeprefix_def)
qed

lemma bearer_auth_passes:
  assumes "is_public (rq_path r) \<or> authenticated token r"
  shows "bearer_auth token next_handler r s = next_handler r s"
proof (cases "is_public (rq_path r)")
  case False
  with assms obtain v where v: "token \<noteq> []" "is_ascii token" "header r ''authorization'' = Some (''Bearer '' @ v)"
      "strip v = token" by (auto simp: authenticated_def)
  have st: "startswith (''Bearer '' @ v) ''Bearer ''" by (simp add: startswith_iff)
  show ?thesis
    using v st removeprefix_append[of "''Bearer ''" v] False
    by (simp add: bearer_auth_def compare_digest_def Let_def del: append.simps)
qed (simp add: bearer_auth_def)

lemma bearer_auth_rejects:
  assumes "\<not> is_public (rq_path r)" "\<not> authenticated token r"
  shows "snd (bearer_auth token next_handler r s) = s \<and>
    (case fst (bearer_auth token next_handler r s) of
       Inl e \<Rightarrow> exn_class e = TypeError
     | Inr resp \<Rightarrow> rs_status resp = (if token = [] then 503 else 401) \<and> (\<exists>e. rs_body resp = Error_body e))"
proof (cases "header r ''authorization''")
  case None
  then show ?thesis using assms by (simp add: bearer_auth_def mk_response_def startswith_iff)
next
  case (Some auth)
  show ?thesis
  proof (cases "token \<noteq> [] \<and> startswith auth ''Bearer ''")
    case True
    then obtain v where v: "auth = ''Bearer '' @ v" by (auto simp: startswith_iff)
    then have "strip v \<noteq> token \<or> \<not> is_ascii token" using assms(2) Some True by (auto simp: authenticated_def)
    then show ?thesis
      using assms True Some v removeprefix_append[of "''Bearer ''" v]
      by (auto simp: bearer_auth_def compare_digest_def mk_response_def Let_def simp del: append.simps)
  qed (use assms Some in \<open>auto simp: bearer_auth_def mk_response_def Let_def\<close>)
qed

section \<open>Tenants\<close>

lemma with_tenant_eq:
  "with_tenant hdr f st = (let tid = or_else hdr ''default'' in
     case map_of (as_tenants st) tid of
       Some c \<Rightarrow> f c st
     | None \<Rightarrow> (Inr (mk_response 404 (Detail_body (''unknown tenant: '' @ tid))), st))"
  by (simp add: with_tenant_def get_tenant_def tenant_get_def catches_Exception_iff Let_def split: option.split)

lemma with_tenant_unknown:
  "map_of (as_tenants st) (or_else hdr ''default'') = None \<Longrightarrow>
     \<exists>detail. with_tenant hdr f st = (Inr (mk_response 404 (Detail_body detail)), st)"
  unfolding with_tenant_eq Let_def by (rule exI) simp

definition tenant_header :: "'b request \<Rightarrow> string" where
  "tenant_header r = (case header r ''x-tenant-id'' of None \<Rightarrow> ''default'' | Some t \<Rightarrow> t)"

lemma rate_limited_eq:
  "rate_limited made now call_next r (l, s) = (let (ok, l') = admit made now (tenant_header r) l in
     if ok then (fst (call_next r s), l', snd (call_next r s))
     else (Inr \<lparr>rs_status = 429, rs_body = Error_body [(''error'', ''rate_limited''), (''tenant'', tenant_header r)],
         rs_headers = [(''retry-after'', ''1'')]\<rparr>, l', s))"
  by (simp add: rate_limited_def tenant_header_def split_def Let_def)

lemma request_id_answer:
  "fst (request_id fresh call_next r s) = Inr resp \<Longrightarrow>
     map_of (rs_headers resp) ''x-request-id'' = Some (or_else (header r ''x-request-id'') (uuid_hex fresh))"
  by (auto simp: request_id_def split_def Let_def bindR_Inr_iff)

text \<open>A decision in a response comes from an evaluation of the interceptor.\<close>

lemma route_decision:
  assumes "fst (route env hdr call st) = Inr resp" "rs_body resp = Decision_body d"
  obtains a c where "call = Evaluate a" "map_of (as_tenants st) (or_else hdr ''default'') = Some c"
    "act_tenant_id a = [] \<or> act_tenant_id a = tc_tenant_id c"
    "fst (interceptor_evaluate (ev_digest (re_eval env)) (ev_elapsed (re_eval env)) (ev_readings (re_eval env))
       (if act_tenant_id a = [] then a\<lparr>act_tenant_id := tc_tenant_id c\<rparr> else a) (as_interceptor st)) = Inr d"
proof (cases "\<exists>a. call = Evaluate a")
  case True
  then obtain a where a: "call = Evaluate a" by blast
  obtain c where c: "map_of (as_tenants st) (or_else hdr ''default'') = Some c"
    using assms a by (cases "map_of (as_tenants st) (or_else hdr ''default'')") (auto simp: with_tenant_eq Let_def mk_response_def)
  define ev where "ev = evaluate_route (re_eval env) a c st"
  have "to_response Decision_body 200 (fst ev) = Inr resp"
    using assms(1) a c by (simp add: with_tenant_eq Let_def split_def ev_def)
  then have "fst ev = Served d" using assms(2) by (cases "fst ev") (auto simp: mk_response_def)
  then show ?thesis
    by (intro that[OF a c]) (auto simp: ev_def evaluate_route_def Let_def split_def split: if_splits sum.splits)
next
  case False
  have "to_response body n x = Inr resp' \<Longrightarrow> \<forall>v e. body v \<noteq> Decision_body e \<Longrightarrow> rs_body resp' \<noteq> Decision_body d"
    for body :: "'x \<Rightarrow> response_body" and n x resp'
    by (cases x) (auto simp: mk_response_def)
  note no = this
  show ?thesis
    using assms False
    by (cases call) (auto simp: with_tenant_eq Let_def split_def mk_response_def dest: no split: option.splits)
qed

section \<open>Properties\<close>

text \<open>
  C7: The application is closed to the unauthenticated: a request to a path that is not public
  whose Authorization header does not carry the configured token changes nothing, neither the state
  behind the routes nor the rate limiter, and is answered 401, or 503 when no token is configured,
  or ends in the TypeError that the comparison raises on characters outside ASCII. Every other
  request is charged to the bucket its tenant header names; if the bucket refuses, it is answered
  429 before any route runs, and otherwise the answer carries the caller's request id or a fresh one.
\<close>

theorem app_requires_token:
  "if is_public (rq_path r) \<or> authenticated (ae_token env) r
   then fst (snd (app env r (l, st))) = snd (admit (ae_made env) (ae_now env) (tenant_header r) l) \<and>
     (if fst (admit (ae_made env) (ae_now env) (tenant_header r) l)
      then (case fst (app env r (l, st)) of
          Inl e \<Rightarrow> True
        | Inr resp \<Rightarrow> map_of (rs_headers resp) ''x-request-id'' =
            Some (or_else (header r ''x-request-id'') (uuid_hex (ae_fresh env))))
      else snd (snd (app env r (l, st))) = st \<and> map_sum (\<lambda>e. e) rs_status (fst (app env r (l, st))) = Inr 429)
   else snd (app env r (l, st)) = (l, st) \<and>
     (case fst (app env r (l, st)) of
        Inl e \<Rightarrow> exn_class e = TypeError
      | Inr resp \<Rightarrow> rs_status resp = (if ae_token env = [] then 503 else 401))"
proof (cases "is_public (rq_path r) \<or> authenticated (ae_token env) r")
  case True
  let ?inner = "request_id (ae_fresh env) (ae_cors env (router (ae_dispatch env) (ae_route env)))"
  have "app env r (l, st) = rate_limited (ae_made env) (ae_now env) ?inner r (l, st)"
    unfolding app_def by (rule bearer_auth_passes[OF True])
  moreover have "case fst (?inner r st) of Inl e \<Rightarrow> True
      | Inr resp \<Rightarrow> map_of (rs_headers resp) ''x-request-id'' = Some (or_else (header r ''x-request-id'') (uuid_hex (ae_fresh env)))"
    by (auto dest: request_id_answer split: sum.split)
  ultimately show ?thesis using True by (simp add: rate_limited_eq split_def Let_def)
next
  case False
  then have no: "\<not> is_public (rq_path r)" "\<not> authenticated (ae_token env) r" by auto
  have "snd (app env r (l, st)) = (l, st) \<and> (case fst (app env r (l, st)) of
       Inl e \<Rightarrow> exn_class e = TypeError
     | Inr resp \<Rightarrow> rs_status resp = (if ae_token env = [] then 503 else 401) \<and> (\<exists>e. rs_body resp = Error_body e))"
    unfolding app_def by (rule bearer_auth_rejects[OF no])
  then show ?thesis unfolding if_not_P[OF False] by (cases "fst (app env r (l, st))") simp_all
qed

text \<open>
  C30: Tenant scope of the routes. Under an unknown tenant every tenant route is answered 404 with
  nothing changed, and an action naming another tenant is answered 403 before the interceptor
  sees it. Identities have no tenant at all: whichever registered tenant asks, the same identity is
  returned, and an upsert replaces the identity of that DID whoever it belongs to, so another
  tenant's caller can lift a revocation.
\<close>

theorem tenant_scope:
  assumes "map_of (as_tenants st) (or_else hdr ''default'') = Some c"
    and "map_of (as_tenants st) (or_else hdr' ''default'') = None"
    and "act_tenant_id a \<noteq> []" "act_tenant_id a \<noteq> tc_tenant_id c"
  shows "route env hdr (Evaluate a) st = (Inr (mk_response 403 (Detail_body ''tenant scope mismatch'')), st) \<and>
    (\<forall>call. call \<in> {Healthz, Livez, Readyz, Get_metrics} \<or>
       (\<exists>detail. route env hdr' call st = (Inr (mk_response 404 (Detail_body detail)), st))) \<and>
    get_identity_route d c st = get_identity_route d c2 st \<and>
    (\<not> revoked i \<longrightarrow> get_identity_route (did i) c2 (snd (upsert_identity_route i c st)) = Served i)"
proof (intro conjI impI allI)
  show "route env hdr (Evaluate a) st = (Inr (mk_response 403 (Detail_body ''tenant scope mismatch'')), st)"
    using assms(1,3,4) by (simp add: with_tenant_eq evaluate_route_def Let_def)
  show "call \<in> {Healthz, Livez, Readyz, Get_metrics} \<or> (\<exists>detail. route env hdr' call st = (Inr (mk_response 404 (Detail_body detail)), st))" for call
    by (cases call) (simp_all add: with_tenant_unknown[OF assms(2)])
  show "get_identity_route d c st = get_identity_route d c2 st" by (simp add: get_identity_route_def)
  show "get_identity_route (did i) c2 (snd (upsert_identity_route i c st)) = Served i" if "\<not> revoked i"
    using that mem_store.resolve_after_put[of i "ic_identities (as_interceptor st)"]
    by (simp add: get_identity_route_def upsert_identity_route_def upsert_identity_def lookup_identity_def with_ic_def)
qed

definition example_app_state :: "tenant_config list \<Rightarrow> app_state" where
  "example_app_state ts = \<lparr>as_interceptor = example_interceptor [] example_db, as_tenants = new_tenant_db (Some ts)\<rparr>"

theorem tenant_scope_witness:
  "fst (route \<lparr>re_eval = \<lparr>ev_readings = example_readings 1, ev_elapsed = 0, ev_digest = (\<lambda>_. Inr ''00'')\<rparr>, re_loader = None, re_audit = None, re_metrics = []\<rparr>
      (Some ''acme'') (Evaluate calm_action) (example_app_state [default_tenant_config ''acme'' ''Acme''])) =
     Inr (mk_response 403 (Detail_body ''tenant scope mismatch''))"
proof -
  have "map_of (as_tenants (example_app_state [default_tenant_config ''acme'' ''Acme''])) t =
      (if t = ''acme'' then Some (default_tenant_config ''acme'' ''Acme'') else None)" for t
    by (simp add: example_app_state_def new_tenant_db_def tenant_register_def default_tenant_config_def)
  then have lookup: "map_of (as_tenants (example_app_state [default_tenant_config ''acme'' ''Acme''])) (or_else (Some ''acme'') ''default'')
        = Some (default_tenant_config ''acme'' ''Acme'')"
      "map_of (as_tenants (example_app_state [default_tenant_config ''acme'' ''Acme''])) (or_else (Some ''other'') ''default'') = None"
    by (simp_all add: or_else_def)
  have a: "act_tenant_id calm_action \<noteq> []" "act_tenant_id calm_action \<noteq> tc_tenant_id (default_tenant_config ''acme'' ''Acme'')"
    by (simp_all add: calm_action_def example_action_def default_tenant_config_def)
  from conjunct1[OF tenant_scope[OF lookup a]] show ?thesis by (simp only: fst_conv)
qed

end
