(* ===== verification/Client.thy ===== *)
theory Client
  imports Enforcement
begin

text \<open>
  src/src/sentinel/client.py: the SDK facade, embedded or remote. \<open>post\<close> is what httpx answers to the
  POST of the action including \<^verbatim>\<open>raise_for_status()\<close>, a response or an exception, and
  \<open>parse\<close> is \<^verbatim>\<open>Decision.model_validate(resp.json())\<close>. Like every enforcement point of the
  locale of theory Enforcement, \<open>sdk_allow\<close> passes on ALLOW only.
\<close>

record remote_config =
  base_url :: string
  rc_token :: string
  rc_tenant_id :: string
  timeout_seconds :: rat
  fail_closed :: bool

text \<open>\<open>sdk_remote\<close> is also what decides whether there is an HTTP client.\<close>

record sdk =
  sdk_embedded :: bool
  sdk_remote :: "remote_config option"

definition mk_remote :: "string \<Rightarrow> string \<Rightarrow> string \<Rightarrow> remote_config" where
  "mk_remote url token tid = \<lparr>base_url = url, rc_token = token, rc_tenant_id = tid, timeout_seconds = 5, fail_closed = True\<rparr>"

definition new_sdk :: "bool \<Rightarrow> remote_config option \<Rightarrow> sdk result" where
  "new_sdk embedded rc = (if \<not> embedded \<and> rc = None
     then Inl (Exn SentinelError ''Sentinel requires either an interceptor or a RemoteConfig'')
     else Inr \<lparr>sdk_embedded = embedded, sdk_remote = rc\<rparr>)"

definition environ :: "(string, string) pydict \<Rightarrow> string \<Rightarrow> string result" where
  "environ env k = (case map_of env k of None \<Rightarrow> Inl (Exn KeyError (repr_str k)) | Some v \<Rightarrow> Inr v)"

definition sdk_from_env :: "(string, string) pydict \<Rightarrow> sdk result" where
  "sdk_from_env env =
     bindR (environ env ''SENTINEL_BASE_URL'') (\<lambda>url.
     bindR (environ env ''SENTINEL_API_TOKEN'') (\<lambda>token.
       new_sdk False (Some (mk_remote url token
         (case map_of env ''SENTINEL_TENANT_ID'' of None \<Rightarrow> ''default'' | Some t \<Rightarrow> t)))))"

text \<open>\<open>new_id\<close>, \<open>now\<close> and \<open>other_id\<close> are drawn by the fail-closed decision.\<close>

definition sdk_evaluate ::
  "'s decider \<Rightarrow> (remote_config \<Rightarrow> action \<Rightarrow> 'resp result) \<Rightarrow> ('resp \<Rightarrow> decision result) \<Rightarrow>
   uuid \<times> datetime \<times> uuid \<Rightarrow> sdk \<Rightarrow> action \<Rightarrow> 's \<Rightarrow> decision result \<times> 's" where
  "sdk_evaluate decide post parse fresh c a s =
     (if sdk_embedded c then decide a s
      else case sdk_remote c of
        None \<Rightarrow> (Inl (Exn RuntimeError ''Sentinel client not in remote mode''), s)
      | Some rc \<Rightarrow> (case post rc a of
          Inl e \<Rightarrow>
            (if catches Exception e \<and> fail_closed rc then
               (let (new_id, now, other_id) = fresh in
                (Inr (decision_deny new_id now other_id (''sentinel_unreachable: '' @ exn_msg e) (Some (act_id a)) True), s))
             else (Inl e, s))
        | Inr resp \<Rightarrow> (parse resp, s)))"

definition sdk_allow ::
  "'s decider \<Rightarrow> (remote_config \<Rightarrow> action \<Rightarrow> 'resp result) \<Rightarrow> ('resp \<Rightarrow> decision result) \<Rightarrow>
   uuid \<times> datetime \<times> uuid \<Rightarrow> sdk \<Rightarrow> action \<Rightarrow> 's \<Rightarrow> bool result \<times> 's" where
  "sdk_allow decide post parse fresh c a s = (let (r, s') = sdk_evaluate decide post parse fresh c a s in
     (bindR r (\<lambda>d. Inr (verdict d = ALLOW)), s'))"

interpretation sdk: enforcement_point "\<lambda>d. verdict d = ALLOW" "\<lambda>b. b"
  by unfold_locales simp

lemma deny_never_allows: "verdict (decision_deny x t y r i g) = DENY" "degraded (decision_deny x t y r i g) = g"
  "risk_score (explanation (decision_deny x t y r i g)) = 1"
  by (simp_all add: decision_deny_def)

text \<open>
  C31: The SDK never turns a failure into permission. It says yes exactly when the embedded
  interceptor, or the remote control plane in a response that was read as a decision, decided
  ALLOW; and when the control plane cannot be reached and the client is configured to fail
  closed, the answer is a degraded DENY of risk score 1, while other failures are raised.
\<close>

theorem sdk_fails_closed:
  "(fst (sdk_allow decide post parse fresh c a s) = Inr True \<longleftrightarrow>
     (\<exists>d. verdict d = ALLOW \<and>
       (if sdk_embedded c then fst (decide a s) = Inr d
        else \<exists>rc resp. sdk_remote c = Some rc \<and> post rc a = Inr resp \<and> parse resp = Inr d))) \<and>
   (case sdk_remote c of None \<Rightarrow> True | Some rc \<Rightarrow>
      (case post rc a of Inr resp \<Rightarrow> True | Inl e \<Rightarrow>
        sdk_embedded c \<or>
        (if catches Exception e \<and> fail_closed rc
         then \<exists>d. fst (sdk_evaluate decide post parse fresh c a s) = Inr d \<and> verdict d = DENY \<and> degraded d \<and>
                risk_score (explanation d) = 1
         else fst (sdk_evaluate decide post parse fresh c a s) = Inl e)))"
proof (intro conjI)
  have deny: "\<exists>d. Inr d = Inr (decision_deny x t y r i True) \<and> verdict d \<noteq> ALLOW" for x t y r i
    by (simp add: deny_never_allows)
  have "fst (sdk_allow decide post parse fresh c a s) = Inr True \<longleftrightarrow>
      (\<exists>d. fst (sdk_evaluate decide post parse fresh c a s) = Inr d \<and> verdict d = ALLOW)"
    using sdk.answer_passes[of "fst (sdk_evaluate decide post parse fresh c a s)" True]
    by (auto simp: sdk_allow_def split_def Let_def bindR_Inr_iff)
  also have "\<dots> \<longleftrightarrow> (\<exists>d. verdict d = ALLOW \<and>
       (if sdk_embedded c then fst (decide a s) = Inr d
        else \<exists>rc resp. sdk_remote c = Some rc \<and> post rc a = Inr resp \<and> parse resp = Inr d))"
    by (auto simp: sdk_evaluate_def deny_never_allows split_def Let_def split: option.splits sum.splits if_splits)
  finally show "fst (sdk_allow decide post parse fresh c a s) = Inr True \<longleftrightarrow>
     (\<exists>d. verdict d = ALLOW \<and>
       (if sdk_embedded c then fst (decide a s) = Inr d
        else \<exists>rc resp. sdk_remote c = Some rc \<and> post rc a = Inr resp \<and> parse resp = Inr d))" .
qed (auto simp: sdk_evaluate_def deny_never_allows split_def Let_def split: option.split sum.split)

end
