(* ===== verification/Documents.thy ===== *)
theory Documents
  imports Interceptor Enforcement
begin

text \<open>
  Actions and risk factors as documents: the models of src/src/sentinel/models/action.py and
  decision.py as pydantic builds them from the JSON of a request or from keyword arguments, with the
  aliases, defaults and constraints the classes declare, and the audit record of models/audit.py. What
  pydantic's conversion of a single value does for UUIDs, datetimes, integers, floats and booleans is the record
  \<open>readers\<close>; every failure is a ValidationError, whose text nothing reads.
\<close>

record readers =
  rd_uuid :: "pyval \<Rightarrow> uuid option"
  rd_datetime :: "pyval \<Rightarrow> datetime option"
  rd_int :: "pyval \<Rightarrow> int option"
  rd_float :: "pyval \<Rightarrow> rat option"
  rd_bool :: "pyval \<Rightarrow> bool option"

definition invalid :: "'a result" where
  "invalid = Inl (Exn ValidationError ''invalid document'')"

text \<open>\<^verbatim>\<open>AliasChoices\<close>: the first of the names the document has.\<close>

definition choice :: "string list \<Rightarrow> (string \<times> pyval) list \<Rightarrow> pyval option" where
  "choice names d = first_some (map_of d) names"

text \<open>A field with a default, and one without.\<close>

definition field :: "(pyval \<Rightarrow> 'a option) \<Rightarrow> 'a \<Rightarrow> pyval option \<Rightarrow> 'a result" where
  "field rd dflt v = (case v of None \<Rightarrow> Inr dflt | Some x \<Rightarrow> (case rd x of None \<Rightarrow> invalid | Some y \<Rightarrow> Inr y))"

definition required :: "(pyval \<Rightarrow> 'a option) \<Rightarrow> pyval option \<Rightarrow> 'a result" where
  "required rd v = (case v of None \<Rightarrow> invalid | Some x \<Rightarrow> (case rd x of None \<Rightarrow> invalid | Some y \<Rightarrow> Inr y))"

fun as_str :: "pyval \<Rightarrow> string option" where
  "as_str (VStr s) = Some s"
| "as_str _ = None"

fun as_dict :: "pyval \<Rightarrow> (string \<times> pyval) list option" where
  "as_dict (VDict d) = Some d"
| "as_dict _ = None"

definition optional :: "(pyval \<Rightarrow> 'a option) \<Rightarrow> pyval \<Rightarrow> 'a option option" where
  "optional rd v = (if v = VNone then Some None else map_option Some (rd v))"

text \<open>\<^verbatim>\<open>dict[str, str]\<close>\<close>

fun str_items :: "(string \<times> pyval) list \<Rightarrow> (string, string) pydict option" where
  "str_items [] = Some []"
| "str_items ((k, v) # d) = (case (as_str v, str_items d) of (Some s, Some e) \<Rightarrow> Some ((k, s) # e) | _ \<Rightarrow> None)"

definition as_str_dict :: "pyval \<Rightarrow> (string, string) pydict option" where
  "as_str_dict v = (case as_dict v of None \<Rightarrow> None | Some d \<Rightarrow> str_items d)"

section \<open>Actions (models/action.py)\<close>

definition action_types :: "action_type list" where
  "action_types = [TOOL_CALL, FILE_WRITE, FILE_READ, HTTP_REQUEST, CODE_EXECUTION, SHELL_COMMAND, AGENT_MESSAGE,
     MEMORY_WRITE, MEMORY_READ, LLM_PROMPT, PAYMENT, NOTIFICATION, DATABASE_QUERY, AGENT_HANDOFF, OTHER]"

definition as_action_type :: "pyval \<Rightarrow> action_type option" where
  "as_action_type v = (case as_str v of None \<Rightarrow> None
     | Some s \<Rightarrow> find (\<lambda>t. action_type_value t = s) action_types)"

definition context_fields :: "string list" where
  "context_fields = [''session_id'', ''parent_action_id'', ''correlation_id'', ''tenant_id'', ''environment'',
     ''invoked_by'', ''plan_id'', ''step_index'', ''tags'']"

text \<open>\<open>fresh\<close> is the session id drawn when the document has none; unknown keys are forbidden.\<close>

definition context_of_doc :: "readers \<Rightarrow> uuid \<Rightarrow> (string \<times> pyval) list \<Rightarrow> action_context result" where
  "context_of_doc rd fresh d =
     (if \<not> list_all (\<lambda>k. k \<in> set context_fields) (map fst d) then invalid
      else bindR (field (rd_uuid rd) fresh (map_of d ''session_id'')) (\<lambda>sid.
        bindR (field (optional (rd_uuid rd)) None (map_of d ''parent_action_id'')) (\<lambda>parent.
        bindR (field (optional as_str) None (map_of d ''correlation_id'')) (\<lambda>corr.
        bindR (field as_str ''default'' (map_of d ''tenant_id'')) (\<lambda>tenant.
        bindR (field as_str ''production'' (map_of d ''environment'')) (\<lambda>env.
        bindR (field (optional as_str) None (map_of d ''invoked_by'')) (\<lambda>who.
        bindR (field (optional (rd_uuid rd)) None (map_of d ''plan_id'')) (\<lambda>plan.
        bindR (field (optional (rd_int rd)) None (map_of d ''step_index'')) (\<lambda>step.
        bindR (field as_str_dict [] (map_of d ''tags'')) (\<lambda>tags.
          Inr \<lparr>session_id = sid, parent_action_id = parent, correlation_id = corr, ctx_tenant_id = tenant,
            environment = env, invoked_by = who, plan_id = plan, step_index = step, ctx_tags = tags\<rparr>))))))))))"

text \<open>The value of the context field: a document, or the default built with what was drawn.\<close>

definition context_field :: "readers \<Rightarrow> draw \<Rightarrow> pyval option \<Rightarrow> action_context result" where
  "context_field rd dr v = (case v of
     None \<Rightarrow> Inr (dr_context dr)
   | Some x \<Rightarrow> (case as_dict x of None \<Rightarrow> invalid | Some e \<Rightarrow> context_of_doc rd (session_id (dr_context dr)) e))"

definition action_of_doc :: "readers \<Rightarrow> draw \<Rightarrow> pyval \<Rightarrow> action result" where
  "action_of_doc rd dr v = (case as_dict v of None \<Rightarrow> invalid
   | Some d \<Rightarrow>
       bindR (field (rd_uuid rd) (dr_id dr) (map_of d ''id'')) (\<lambda>i.
       bindR (required as_action_type (map_of d ''type'')) (\<lambda>t.
       bindR (field as_str ''did:anon:unknown'' (choice [''agent_did'', ''principal_did''] d)) (\<lambda>agent.
       bindR (field as_str ''default'' (map_of d ''tenant_id'')) (\<lambda>tenant.
       bindR (field (optional as_str) None (map_of d ''tool'')) (\<lambda>tool.
       bindR (field as_dict [] (choice [''arguments'', ''args''] d)) (\<lambda>args.
       bindR (field (optional as_str) None (map_of d ''payload_digest'')) (\<lambda>dig.
       bindR (field (optional as_str) None (map_of d ''intent'')) (\<lambda>intnt.
       bindR (context_field rd dr (map_of d ''context'')) (\<lambda>ctx.
       bindR (field (rd_datetime rd) (dr_now dr) (map_of d ''created_at'')) (\<lambda>made.
         validate_action \<lparr>act_id = i, act_type = t, agent_did = agent, act_tenant_id = tenant, act_tool = tool,
           arguments = args, payload_digest = dig, intent = intnt, act_context = ctx, act_created_at = made\<rparr>)))))))))))"

section \<open>Risk factors (models/decision.py)\<close>

definition risk_factor_of_doc :: "readers \<Rightarrow> pyval \<Rightarrow> risk_factor result" where
  "risk_factor_of_doc rd v = (case as_dict v of None \<Rightarrow> invalid
   | Some d \<Rightarrow>
       bindR (required as_str (map_of d ''code'')) (\<lambda>c.
       bindR (field (rd_float rd) (1/2) (choice [''severity'', ''score''] d)) (\<lambda>s.
       bindR (field as_str ''unknown'' (choice [''detector'', ''source''] d)) (\<lambda>det.
       bindR (field as_str [] (map_of d ''message'')) (\<lambda>msg.
       bindR (field as_str_dict [] (map_of d ''evidence'')) (\<lambda>ev.
         mk_risk_factor c s det msg ev))))))"

section \<open>Audit records (models/audit.py)\<close>

record audit_record =
  au_id :: uuid
  sequence :: int
  au_tenant_id :: string
  timestamp :: datetime
  au_action :: action
  au_decision :: decision
  previous_digest :: string
  record_digest :: string
  au_signature :: "string option"

text \<open>
  The constructor's own constraint. (As the module stands the class cannot be built at all: its
  annotations name classes imported for type checking only.)
\<close>

definition mk_audit_record ::
  "uuid \<Rightarrow> int \<Rightarrow> string \<Rightarrow> datetime \<Rightarrow> action \<Rightarrow> decision \<Rightarrow> string \<Rightarrow> string \<Rightarrow> string option \<Rightarrow> audit_record result" where
  "mk_audit_record i n tid made a d prev dig sg =
     (if 0 \<le> n then Inr \<lparr>au_id = i, sequence = n, au_tenant_id = tid, timestamp = made, au_action = a, au_decision = d,
        previous_digest = prev, record_digest = dig, au_signature = sg\<rparr>
      else invalid)"

section \<open>What documents denote\<close>

lemma choice_simps [simp]:
  "choice [] d = None"
  "choice (k # ks) d = (case map_of d k of None \<Rightarrow> choice ks d | Some v \<Rightarrow> Some v)"
  by (simp_all add: choice_def split: option.split)

lemma action_type_of_value [simp]: "as_action_type (VStr (action_type_value t)) = Some t"
  by (cases t) (simp_all add: as_action_type_def action_types_def)

text \<open>A document that is refused is refused with a ValidationError.\<close>

definition validation_only :: "'a result \<Rightarrow> bool" where
  "validation_only r \<longleftrightarrow> (\<forall>e. r = Inl e \<longrightarrow> exn_class e = ValidationError)"

lemma validation_only_intros:
  "validation_only invalid" "validation_only (Inr x)" "validation_only (field rdr dflt v)" "validation_only (required rdr v)"
  "validation_only (validate_action a)" "validation_only (mk_risk_factor c s de m ev)"
  by (auto simp: validation_only_def invalid_def field_def required_def validate_action_def mk_risk_factor_def
      split: option.splits if_splits)

lemma validation_only_bindR:
  "validation_only m \<Longrightarrow> (\<And>x. validation_only (f x)) \<Longrightarrow> validation_only (bindR m f)"
  by (auto simp: validation_only_def bindR_Inl_iff)

lemmas validation_only_rules = validation_only_intros validation_only_bindR

lemma validation_only_context: "validation_only (context_field rd dr v)"
proof -
  have "validation_only (context_of_doc rd fresh d)" for fresh d
    unfolding context_of_doc_def by (rule if_split[THEN iffD2]) (intro conjI impI validation_only_rules)
  then show ?thesis by (auto simp: context_field_def validation_only_intros split: option.split)
qed

lemma validation_only_action: "validation_only (action_of_doc rd dr v)"
  unfolding action_of_doc_def
  by (cases "as_dict v", simp_all add: validation_only_intros) (intro validation_only_rules validation_only_context)

lemma validation_only_risk: "validation_only (risk_factor_of_doc rd v)"
  unfolding risk_factor_of_doc_def
  by (cases "as_dict v", simp_all only: option.case validation_only_intros) (intro validation_only_rules)

lemma action_of_doc_Inr:
  assumes "action_of_doc rd dr (VDict d) = Inr a"
  shows "8 \<le> length (agent_did a)"
    "field as_str ''did:anon:unknown'' (choice [''agent_did'', ''principal_did''] d) = Inr (agent_did a)"
    "field as_dict [] (choice [''arguments'', ''args''] d) = Inr (arguments a)"
    "required as_action_type (map_of d ''type'') = Inr (act_type a)"
    "field as_str ''default'' (map_of d ''tenant_id'') = Inr (act_tenant_id a)"
  using assms
  by (auto simp: action_of_doc_def bindR_Inr_iff validate_action_def simp del: choice_simps split: if_splits)

section \<open>Properties\<close>

text \<open>
  C37: What a document denotes. A document is refused with a ValidationError or denotes an action whose
  agent is the string under \<^verbatim>\<open>agent_did\<close>, or else the one under \<^verbatim>\<open>principal_did\<close>, or else the anonymous
  DID, and never shorter than 8 characters, and whose arguments are the mapping under
  \<^verbatim>\<open>arguments\<close>, or else under \<^verbatim>\<open>args\<close>, or else empty. So leaving the agent out is not a way in: while
  no identity is stored under the anonymous DID, such a document is never allowed.
\<close>

theorem documents_denote_actions:
  "(case action_of_doc rd dr v of
      Inl e \<Rightarrow> exn_class e = ValidationError
    | Inr a \<Rightarrow> \<exists>d. v = VDict d \<and> 8 \<le> length (agent_did a) \<and>
        (case (map_of d ''agent_did'', map_of d ''principal_did'') of
           (Some x, _) \<Rightarrow> x = VStr (agent_did a)
         | (None, Some x) \<Rightarrow> x = VStr (agent_did a)
         | (None, None) \<Rightarrow> agent_did a = ''did:anon:unknown'' \<and>
             (store_get (ic_identities ic) ''did:anon:unknown'' = None \<longrightarrow>
                (\<forall>dec. fst (interceptor_evaluate digest elapsed rdg a ic) = Inr dec \<longrightarrow> verdict dec \<noteq> ALLOW))) \<and>
        (case (map_of d ''arguments'', map_of d ''args'') of
           (Some x, _) \<Rightarrow> x = VDict (arguments a)
         | (None, Some x) \<Rightarrow> x = VDict (arguments a)
         | (None, None) \<Rightarrow> arguments a = []))"
proof (cases "action_of_doc rd dr v")
  case (Inl e)
  then show ?thesis using validation_only_action[of rd dr v] by (simp add: validation_only_def)
next
  case (Inr a)
  then obtain d where v: "v = VDict d"
    by (cases v) (simp_all add: action_of_doc_def invalid_def)
  have str: "as_str x = Some s \<longleftrightarrow> x = VStr s" for x s by (cases x) auto
  have dict: "as_dict x = Some e \<longleftrightarrow> x = VDict e" for x e by (cases x) auto
  note facts = action_of_doc_Inr[OF Inr[unfolded v]]
  have never: "verdict dec \<noteq> ALLOW"
    if "agent_did a = ''did:anon:unknown''" "store_get (ic_identities ic) ''did:anon:unknown'' = None"
      "fst (interceptor_evaluate digest elapsed rdg a ic) = Inr dec" for dec
    using interceptor_allowed[OF that(3)] that(1,2) by fastforce
  show ?thesis
    unfolding v Inr[unfolded v] sum.case
  proof (rule exI[of _ d], intro conjI refl)
    show "8 \<le> length (agent_did a)" by (rule facts(1))
    show "case (map_of d ''agent_did'', map_of d ''principal_did'') of
           (Some x, _) \<Rightarrow> x = VStr (agent_did a)
         | (None, Some x) \<Rightarrow> x = VStr (agent_did a)
         | (None, None) \<Rightarrow> agent_did a = ''did:anon:unknown'' \<and>
             (store_get (ic_identities ic) ''did:anon:unknown'' = None \<longrightarrow>
                (\<forall>dec. fst (interceptor_evaluate digest elapsed rdg a ic) = Inr dec \<longrightarrow> verdict dec \<noteq> ALLOW))"
      using facts(2) never
      by (cases "map_of d ''agent_did''"; cases "map_of d ''principal_did''") (auto simp: field_def invalid_def str split: option.splits)
    show "case (map_of d ''arguments'', map_of d ''args'') of
           (Some x, _) \<Rightarrow> x = VDict (arguments a)
         | (None, Some x) \<Rightarrow> x = VDict (arguments a)
         | (None, None) \<Rightarrow> arguments a = []"
      using facts(3)
      by (cases "map_of d ''arguments''"; cases "map_of d ''args''") (auto simp: field_def invalid_def dict split: option.splits)
  qed
qed

text \<open>Readers that take numbers as they are, and UUIDs and times written as numbers.\<close>

definition text_int :: "string \<Rightarrow> int" where
  "text_int s = (let (neg, ds) = sign_split s in if neg then - digits_val ds else digits_val ds)"

definition plain_readers :: readers where
  "plain_readers = \<lparr>rd_uuid = (\<lambda>v. case v of VStr s \<Rightarrow> Some (nat (text_int s)) | _ \<Rightarrow> None),
     rd_datetime = (\<lambda>v. case v of VStr s \<Rightarrow> Some (text_int s) | _ \<Rightarrow> None),
     rd_int = (\<lambda>v. case v of VInt i \<Rightarrow> Some i | _ \<Rightarrow> None),
     rd_float = (\<lambda>v. case v of VInt i \<Rightarrow> Some (of_int i) | VFloat (Fin x) \<Rightarrow> Some x | _ \<Rightarrow> None),
     rd_bool = (\<lambda>v. case v of VBool b \<Rightarrow> Some b | _ \<Rightarrow> None)\<rparr>"

theorem documents_denote_actions_witness:
  "\<exists>a. action_of_doc plain_readers example_draw (VDict [(''type'', VStr ''payment'')]) = Inr a \<and> agent_did a = ''did:anon:unknown'' \<and>
     \<not> (\<exists>dec. fst (interceptor_evaluate (\<lambda>_. Inr ''00'') 0 (example_readings 1) a (example_interceptor [] [])) = Inr dec \<and>
        verdict dec = ALLOW)"
proof -
  let ?d = "VDict [(''type'', VStr ''payment'')]"
  obtain a where a: "action_of_doc plain_readers example_draw ?d = Inr a"
    by (simp add: action_of_doc_def field_def required_def context_field_def validate_action_def as_action_type_def action_types_def)
  have s: "store_get (ic_identities (example_interceptor [] [])) ''did:anon:unknown'' = None"
    by (simp add: example_interceptor_def store_get_def new_interceptor_def)
  from documents_denote_actions[where rd = plain_readers and dr = example_draw and v = ?d and ic = "example_interceptor [] []"
      and digest = "\<lambda>_. Inr ''00''" and elapsed = 0 and rdg = "example_readings 1"]
  show ?thesis using a s by auto
qed

end
