(* ===== verification/Remote.thy ===== *)
theory Remote
  imports HttpApi Client Documents
begin

text \<open>
  The two halves of the system over the wire: the remote mode of src/src/sentinel/client.py posting to
  the application of src/src/sentinel/api. The network, httpx, the ASGI server and FastAPI carry the
  request as documented: the action's JSON is the body, an answer outside 200 to 299 makes
  \<^verbatim>\<open>raise_for_status\<close> raise, and an exception that leaves the application is answered 500.
\<close>

text \<open>The POST of the client, with the headers of its configuration.\<close>

definition remote_request :: "remote_config \<Rightarrow> pyval \<Rightarrow> pyval request" where
  "remote_request rc doc = \<lparr>rq_path = ''/v1/evaluate'',
     rq_headers = [(''authorization'', ''Bearer '' @ rc_token rc), (''x-tenant-id'', rc_tenant_id rc),
       (''content-type'', ''application/json'')],
     rq_body = doc\<rparr>"

text \<open>\<open>rl_dump\<close> and \<open>rl_parse\<close> are pydantic's JSON of an action and reading of a decision, \<open>rl_message\<close> httpx's text for a status; theory Wire writes the first two out.\<close>

record link =
  rl_dump :: "action \<Rightarrow> pyval"
  rl_parse :: "response \<Rightarrow> decision result"
  rl_message :: "int \<Rightarrow> string"

definition http_answer :: "(int \<Rightarrow> string) \<Rightarrow> response result \<Rightarrow> response result" where
  "http_answer message r = (case r of
     Inl e \<Rightarrow> Inl (Exn HTTPStatusError (message 500))
   | Inr resp \<Rightarrow> if 200 \<le> rs_status resp \<and> rs_status resp < 300 then Inr resp
       else Inl (Exn HTTPStatusError (message (rs_status resp))))"

text \<open>The client in remote mode, with the application's state before and after.\<close>

definition remote_evaluate ::
  "link \<Rightarrow> pyval app_env \<Rightarrow> uuid \<times> datetime \<times> uuid \<Rightarrow> remote_config \<Rightarrow> action \<Rightarrow> limiter \<times> app_state \<Rightarrow>
   decision result \<times> (limiter \<times> app_state)" where
  "remote_evaluate lk env fresh rc a S =
     (let (r, S') = app env (remote_request rc (rl_dump lk a)) S in
      (fst (sdk_evaluate (\<lambda>a s. (Inl (Exn RuntimeError []), s)) (\<lambda>rc a. http_answer (rl_message lk) r) (rl_parse lk) fresh
         \<lparr>sdk_embedded = False, sdk_remote = Some rc\<rparr> a ()), S'))"

text \<open>The same client in embedded mode, on the interceptor behind the application.\<close>

definition embedded_evaluate :: "pyval app_env \<Rightarrow> action \<Rightarrow> limiter \<times> app_state \<Rightarrow> decision result \<times> interceptor" where
  "embedded_evaluate env a S = (let ev = re_eval (ae_route env) in
     interceptor_evaluate (ev_digest ev) (ev_elapsed ev) (ev_readings ev) a (as_interceptor (snd S)))"

section \<open>Through the middleware\<close>

text \<open>Documented of FastAPI: the body of the route's path is read as an action, or answered 422.\<close>

definition routes_documents :: "readers \<Rightarrow> draw \<Rightarrow> pyval app_env \<Rightarrow> bool" where
  "routes_documents rd dr env \<longleftrightarrow> (\<forall>r. rq_path r = ''/v1/evaluate'' \<longrightarrow>
     (case action_of_doc rd dr (rq_body r) of
        Inr a \<Rightarrow> ae_dispatch env r = Inl (Evaluate a)
      | Inl e \<Rightarrow> \<exists>resp. ae_dispatch env r = Inr resp \<and> rs_status resp = 422))"

text \<open>A token that can be presented: not empty, ASCII, without space around it.\<close>

definition usable_token :: "string \<Rightarrow> bool" where
  "usable_token t \<longleftrightarrow> t \<noteq> [] \<and> is_ascii t \<and> strip t = t"

lemma remote_authenticated:
  "usable_token token \<Longrightarrow> rc_token rc = token \<Longrightarrow> authenticated token (remote_request rc doc)"
  by (simp add: authenticated_def usable_token_def remote_request_def header_def)

lemma remote_headers:
  "tenant_header (remote_request rc doc) = rc_tenant_id rc"
  "header (remote_request rc doc) ''x-tenant-id'' = Some (rc_tenant_id rc)"
  "header (remote_request rc doc) ''x-request-id'' = None"
  "rq_path (remote_request rc doc) = ''/v1/evaluate''" "rq_body (remote_request rc doc) = doc"
  by (simp_all add: tenant_header_def header_def remote_request_def)

text \<open>What the application does with the client's request, when nothing stands between it and the route.\<close>

lemma app_remote:
  assumes "usable_token (ae_token env)" "rc_token rc = ae_token env" "ae_cors env = (\<lambda>h. h)"
    and "routes_documents rd dr env" "action_of_doc rd dr doc = Inr a"
    and "map_of (as_tenants st) (or_else (Some (rc_tenant_id rc)) ''default'') = Some c"
  shows "app env (remote_request rc doc) (l, st) =
    (let (ok, l') = admit (ae_made env) (ae_now env) (rc_tenant_id rc) l;
         (x, st') = evaluate_route (re_eval (ae_route env)) a c st
     in if ok then (bindR (to_response Decision_body 200 x)
            (\<lambda>r. Inr (r\<lparr>rs_headers := dict_set ''x-request-id'' (uuid_hex (ae_fresh env)) (rs_headers r)\<rparr>)), l', st')
        else (Inr \<lparr>rs_status = 429, rs_body = Error_body [(''error'', ''rate_limited''), (''tenant'', rc_tenant_id rc)],
            rs_headers = [(''retry-after'', ''1'')]\<rparr>, l', st))"
proof -
  let ?r = "remote_request rc doc"
  have auth: "is_public (rq_path ?r) \<or> authenticated (ae_token env) ?r"
    using remote_authenticated[OF assms(1,2)] by blast
  have disp: "ae_dispatch env ?r = Inl (Evaluate a)"
    using assms(4,5) remote_headers(4,5)[of rc doc] by (force simp: routes_documents_def)
  have route: "router (ae_dispatch env) (ae_route env) ?r st =
      (let (x, st') = evaluate_route (re_eval (ae_route env)) a c st in (to_response Decision_body 200 x, st'))"
    by (simp add: router_def disp remote_headers(2) with_tenant_eq assms(6))
  have "app env ?r (l, st) = rate_limited (ae_made env) (ae_now env)
      (request_id (ae_fresh env) (router (ae_dispatch env) (ae_route env))) ?r (l, st)"
    unfolding app_def bearer_auth_passes[OF auth] assms(3) by (rule refl)
  then show ?thesis
    unfolding rate_limited_eq remote_headers(1) by (simp add: request_id_def route remote_headers(3) or_else_def split_def Let_def)
qed

section \<open>Against the interceptor itself\<close>

text \<open>
  When the documents that travel read back as they were written, the client's answer is that of the
  interceptor behind the application, up to the refusals of the way there and back.
\<close>

lemma remote_embedded:
  assumes "usable_token (ae_token env)" "rc_token rc = ae_token env" "ae_cors env = (\<lambda>h. h)"
    and "routes_documents rd dr env" "action_of_doc rd dr (rl_dump lk a) = Inr a"
    and "\<And>resp d. fst (embedded_evaluate env a (l, st)) = Inr d \<Longrightarrow> rs_body resp = Decision_body d \<Longrightarrow> rl_parse lk resp = Inr d"
    and "map_of (as_tenants st) (or_else (Some (rc_tenant_id rc)) ''default'') = Some c" "act_tenant_id a = tc_tenant_id c"
  shows "let (r, l', st') = remote_evaluate lk env (x, t, y) rc a (l, st);
      (e, ic') = embedded_evaluate env a (l, st);
      failed = (\<lambda>status. if fail_closed rc
        then Inr (decision_deny x t y (''sentinel_unreachable: '' @ rl_message lk status) (Some (act_id a)) True)
        else Inl (Exn HTTPStatusError (rl_message lk status)))
    in if fst (admit (ae_made env) (ae_now env) (rc_tenant_id rc) l)
       then as_interceptor st' = ic' \<and> as_tenants st' = as_tenants st \<and>
         r = (case e of Inr d \<Rightarrow> Inr d | Inl ex \<Rightarrow> failed 500)
       else st' = st \<and> r = failed 429"
proof -
  obtain ok l' where adm: "admit (ae_made env) (ae_now env) (rc_tenant_id rc) l = (ok, l')"
    by (cases "admit (ae_made env) (ae_now env) (rc_tenant_id rc) l")
  obtain e ic' where emb: "embedded_evaluate env a (l, st) = (e, ic')" by (cases "embedded_evaluate env a (l, st)")
  have same: "(if act_tenant_id a = [] then a\<lparr>act_tenant_id := tc_tenant_id c\<rparr> else a) = a"
    using assms(8) by (cases a) simp
  have ev: "evaluate_route (re_eval (ae_route env)) a c st =
      (case e of Inl ex \<Rightarrow> Raised ex | Inr d \<Rightarrow> Served d, with_ic ic' st)"
    using emb assms(8) unfolding evaluate_route_def same by (simp add: embedded_evaluate_def Let_def)
  have http: "catches Exception (Exn HTTPStatusError m)" for m by (simp add: catches_Exception_iff)
  note ap = app_remote[OF assms(1-5,7), of l]
  show ?thesis
  proof (cases ok)
    case True
    then have "app env (remote_request rc (rl_dump lk a)) (l, st) =
       (bindR (to_response Decision_body 200 (case e of Inl ex \<Rightarrow> Raised ex | Inr d \<Rightarrow> Served d))
            (\<lambda>r. Inr (r\<lparr>rs_headers := dict_set ''x-request-id'' (uuid_hex (ae_fresh env)) (rs_headers r)\<rparr>)), l', with_ic ic' st)"
      unfolding ap by (simp add: adm ev)
    then show ?thesis
      using True assms(6) http
      by (cases e) (simp_all add: remote_evaluate_def emb adm sdk_evaluate_def http_answer_def mk_response_def with_ic_def Let_def)
  next
    case False
    then have "app env (remote_request rc (rl_dump lk a)) (l, st) =
       (Inr \<lparr>rs_status = 429, rs_body = Error_body [(''error'', ''rate_limited''), (''tenant'', rc_tenant_id rc)],
            rs_headers = [(''retry-after'', ''1'')]\<rparr>, l', st)"
      unfolding ap by (simp add: adm ev)
    then show ?thesis
      using False http by (simp add: remote_evaluate_def emb adm sdk_evaluate_def http_answer_def Let_def)
  qed
qed

end
