(* ===== verification/Encoding.thy ===== *)
theory Encoding
  imports Registry "HOL-Library.Word"
begin

text \<open>
  Bytes and their texts: base 64 as Python's \<^verbatim>\<open>base64\<close> module encodes and, leniently,
  decodes it, UTF-8 of the strings of the development, and hexadecimal digests.
\<close>

type_synonym bytes = "8 word list"

section \<open>Base 64\<close>

definition b64_alphabet :: string where
  "b64_alphabet = ''ABCDEFGHIJKLMNOPQRSTUVWXYZabcdefghijklmnopqrstuvwxyz0123456789+/''"

definition sextet_char :: "nat \<Rightarrow> char" where
  "sextet_char n = b64_alphabet ! n"

fun index_in :: "char \<Rightarrow> string \<Rightarrow> nat option" where
  "index_in c [] = None"
| "index_in c (x # xs) = (if x = c then Some 0 else map_option Suc (index_in c xs))"

definition char_sextet :: "char \<Rightarrow> nat option" where
  "char_sextet c = index_in c b64_alphabet"

fun b64encode :: "bytes \<Rightarrow> string" where
  "b64encode [] = []"
| "b64encode [a] = [sextet_char (unat a div 4), sextet_char (unat a mod 4 * 16), CHR ''='', CHR ''='']"
| "b64encode [a, b] = [sextet_char (unat a div 4), sextet_char (unat a mod 4 * 16 + unat b div 16),
     sextet_char (unat b mod 16 * 4), CHR ''='']"
| "b64encode (a # b # c # xs) = sextet_char (unat a div 4) # sextet_char (unat a mod 4 * 16 + unat b div 16) #
     sextet_char (unat b mod 16 * 4 + unat c div 64) # sextet_char (unat c mod 64) # b64encode xs"

text \<open>
  \<^verbatim>\<open>binascii.a2b_base64\<close> without strict mode: characters outside the alphabet are skipped, a
  padding that completes a group of four ends the input. \<open>pos\<close> is the place in the group, \<open>left\<close> the
  bits not yet written, \<open>n\<close> the number of bytes written.
\<close>

fun a2b_base64 :: "string \<Rightarrow> nat \<Rightarrow> nat \<Rightarrow> nat \<Rightarrow> nat \<Rightarrow> bytes result" where
  "a2b_base64 [] pos left pads n =
     (if pos = 0 then Inr []
      else if pos = 1 then Inl (Exn BinasciiError (''Invalid base64-encoded string: number of data characters ('' @
        str_int (int (n div 3 * 4 + 1)) @ '') cannot be 1 more than a multiple of 4''))
      else Inl (Exn BinasciiError ''Incorrect padding''))"
| "a2b_base64 (c # cs) pos left pads n =
     (if c = CHR ''='' then
        (if 2 \<le> pos then (if 4 \<le> pos + pads + 1 then Inr [] else a2b_base64 cs pos left (pads + 1) n)
         else a2b_base64 cs pos left pads n)
      else case char_sextet c of
        None \<Rightarrow> a2b_base64 cs pos left pads n
      | Some v \<Rightarrow>
          (if pos = 0 then a2b_base64 cs 1 v 0 n
           else if pos = 1 then
             bindR (a2b_base64 cs 2 (v mod 16) 0 (n + 1)) (\<lambda>bs. Inr (of_nat (left * 4 + v div 16) # bs))
           else if pos = 2 then
             bindR (a2b_base64 cs 3 (v mod 4) 0 (n + 1)) (\<lambda>bs. Inr (of_nat (left * 16 + v div 4) # bs))
           else
             bindR (a2b_base64 cs 0 0 0 (n + 1)) (\<lambda>bs. Inr (of_nat (left * 64 + v) # bs))))"

text \<open>\<^verbatim>\<open>base64.b64decode\<close> of a string.\<close>

definition b64decode :: "string \<Rightarrow> bytes result" where
  "b64decode s = (if list_all (\<lambda>c. (of_char c :: nat) < 128) s then a2b_base64 s 0 0 0 0
     else Inl (Exn ValueError ''string argument should contain only ASCII characters''))"

lemma sextets:
  "n < 64 \<Longrightarrow> char_sextet (sextet_char n) = Some n \<and> sextet_char n \<noteq> CHR ''='' \<and> (of_char (sextet_char n) :: nat) < 128"
proof -
  have "list_all (\<lambda>n. char_sextet (sextet_char n) = Some n \<and> sextet_char n \<noteq> CHR ''='' \<and>
      (of_char (sextet_char n) :: nat) < 128) [0..<64]"
    by code_simp
  then show "n < 64 \<Longrightarrow> ?thesis" by (simp add: list_all_iff)
qed

lemma unat_byte: "unat (a :: 8 word) < 256"
  using unsigned_less[of a] by simp

lemma unat_back: "of_nat (unat a) = (a :: 8 word)"
  by simp

lemma byte_bounds:
  fixes a b :: "8 word"
  shows "unat a div 4 < 64" "unat a mod 4 * 16 + unat b div 16 < 64" "unat b mod 16 * 4 + unat a div 64 < 64"
    "unat a mod 4 * 16 < 64" "unat b mod 16 * 4 < 64" "unat a mod 64 < 64"
  using unat_byte[of a] unat_byte[of b] by (auto simp: less_mult_imp_div_less)

lemma nat_parts:
  fixes x y z :: nat
  assumes "x < 256" "y < 256" "z < 256"
  shows "x div 4 * 4 + (x mod 4 * 16 + y div 16) div 16 = x"
    "(x mod 4 * 16 + y div 16) mod 16 * 16 + (y mod 16 * 4 + z div 64) div 4 = y"
    "(y mod 16 * 4 + z div 64) mod 4 * 64 + z mod 64 = z"
    "x div 4 * 4 + x mod 4 * 16 div 16 = x"
    "(x mod 4 * 16 + y div 16) mod 16 * 16 + y mod 16 * 4 div 4 = y"
proof -
  have k: "y div 16 < 16" "z div 64 < 4" using assms by (simp_all add: less_mult_imp_div_less)
  have a: "(m * 16 + l) div 16 = m" "(m * 16 + l) mod 16 = l" if "l < 16" for m l :: nat using that by simp_all
  have b: "(m * 4 + l) div 4 = m" "(m * 4 + l) mod 4 = l" if "l < 4" for m l :: nat using that by simp_all
  show "x div 4 * 4 + (x mod 4 * 16 + y div 16) div 16 = x"
    "(x mod 4 * 16 + y div 16) mod 16 * 16 + (y mod 16 * 4 + z div 64) div 4 = y"
    "(y mod 16 * 4 + z div 64) mod 4 * 64 + z mod 64 = z"
    "x div 4 * 4 + x mod 4 * 16 div 16 = x"
    "(x mod 4 * 16 + y div 16) mod 16 * 16 + y mod 16 * 4 div 4 = y"
    unfolding a[OF k(1)] b[OF k(2)] by simp_all
qed

lemma a2b_char:
  "v < 64 \<Longrightarrow> a2b_base64 (sextet_char v # cs) pos left pads n =
     (if pos = 0 then a2b_base64 cs 1 v 0 n
      else if pos = 1 then
        bindR (a2b_base64 cs 2 (v mod 16) 0 (n + 1)) (\<lambda>bs. Inr (of_nat (left * 4 + v div 16) # bs))
      else if pos = 2 then
        bindR (a2b_base64 cs 3 (v mod 4) 0 (n + 1)) (\<lambda>bs. Inr (of_nat (left * 16 + v div 4) # bs))
      else
        bindR (a2b_base64 cs 0 0 0 (n + 1)) (\<lambda>bs. Inr (of_nat (left * 64 + v) # bs)))"
  using sextets[of v] by (simp only: a2b_base64.simps if_False option.case)

lemma a2b_pad:
  "a2b_base64 [CHR ''=''] 3 left 0 n = Inr []"
  "a2b_base64 [CHR ''='', CHR ''=''] 2 left 0 n = Inr []"
  by simp_all

lemma bindR_bindR: "bindR (bindR m f) g = bindR m (\<lambda>x. bindR (f x) g)"
  by (cases m) simp_all

text \<open>A group of four characters gives three bytes.\<close>

lemma a2b_group:
  assumes "p < 64" "q < 64" "r < 64" "t < 64"
  shows "a2b_base64 (sextet_char p # sextet_char q # sextet_char r # sextet_char t # cs) 0 0 0 n =
      bindR (a2b_base64 cs 0 0 0 (n + 1 + 1 + 1)) (\<lambda>bs. Inr (of_nat (p * 4 + q div 16) #
        of_nat (q mod 16 * 16 + r div 4) # of_nat (r mod 4 * 64 + t) # bs))"
    "a2b_base64 [sextet_char p, sextet_char q, sextet_char r, CHR ''=''] 0 0 0 n =
      Inr [of_nat (p * 4 + q div 16), of_nat (q mod 16 * 16 + r div 4)]"
    "a2b_base64 [sextet_char p, sextet_char q, CHR ''='', CHR ''=''] 0 0 0 n = Inr [of_nat (p * 4 + q div 16)]"
proof -
  have ne: "(1::nat) = 0 \<longleftrightarrow> False" "(2::nat) = 0 \<longleftrightarrow> False" "(2::nat) = 1 \<longleftrightarrow> False" "(3::nat) = 0 \<longleftrightarrow> False"
    "(3::nat) = 1 \<longleftrightarrow> False" "(3::nat) = 2 \<longleftrightarrow> False" by simp_all
  note steps = assms[THEN a2b_char]
  show "a2b_base64 (sextet_char p # sextet_char q # sextet_char r # sextet_char t # cs) 0 0 0 n =
      bindR (a2b_base64 cs 0 0 0 (n + 1 + 1 + 1)) (\<lambda>bs. Inr (of_nat (p * 4 + q div 16) #
        of_nat (q mod 16 * 16 + r div 4) # of_nat (r mod 4 * 64 + t) # bs))"
    "a2b_base64 [sextet_char p, sextet_char q, sextet_char r, CHR ''=''] 0 0 0 n =
      Inr [of_nat (p * 4 + q div 16), of_nat (q mod 16 * 16 + r div 4)]"
    "a2b_base64 [sextet_char p, sextet_char q, CHR ''='', CHR ''=''] 0 0 0 n = Inr [of_nat (p * 4 + q div 16)]"
    by (simp_all only: steps ne if_True if_False refl bindR_bindR bindR_simps a2b_pad)
qed

lemma a2b_b64encode: "a2b_base64 (b64encode bs) 0 0 0 n = Inr bs"
proof (induction bs arbitrary: n rule: b64encode.induct)
  case 1
  then show ?case by simp
next
  case (2 a)
  show ?case
    by (simp only: b64encode.simps a2b_group(3)[OF byte_bounds(1,4) byte_bounds(1,1)] nat_parts(4)[OF unat_byte unat_byte unat_byte]
        unat_back)
next
  case (3 a b)
  show ?case
    by (simp only: b64encode.simps a2b_group(2)[OF byte_bounds(1,2,5) byte_bounds(1)] nat_parts[OF unat_byte unat_byte unat_byte]
        unat_back)
next
  case (4 a b c xs)
  show ?case
    by (simp only: b64encode.simps a2b_group(1)[OF byte_bounds(1,2,3,6)] nat_parts[OF unat_byte unat_byte unat_byte]
        unat_back 4 bindR_simps)
qed

lemma b64encode_ascii: "list_all (\<lambda>c. (of_char c :: nat) < 128) (b64encode bs)"
  by (induction bs rule: b64encode.induct) (simp_all add: sextets byte_bounds)

lemma b64_roundtrip [simp]: "b64decode (b64encode bs) = Inr bs"
  by (simp add: b64decode_def b64encode_ascii a2b_b64encode)

lemma b64decode_errors: "b64decode s = Inl e \<Longrightarrow> catches ValueError e"
proof -
  have "a2b_base64 s pos left pads n = Inl e \<Longrightarrow> exn_class e = BinasciiError" for s pos left pads n
    by (induction s pos left pads n rule: a2b_base64.induct)
       (auto simp: bindR_Inl_iff split: if_splits option.splits)
  then have "b64decode s = Inl e \<Longrightarrow> exn_class e = BinasciiError \<or> exn_class e = ValueError"
    by (auto simp: b64decode_def simp del: One_nat_def split: if_splits)
  moreover have "is_subclass BinasciiError ValueError" by (simp add: is_subclass_def eval_nat_numeral)
  ultimately show "b64decode s = Inl e \<Longrightarrow> catches ValueError e" by (auto simp: catches_def)
qed

section \<open>UTF-8 and hexadecimal\<close>

text \<open>The characters of the development are below U+0100: one byte, or two.\<close>

definition utf8_char :: "char \<Rightarrow> bytes" where
  "utf8_char c = (let n = (of_char c :: nat) in
     if n < 128 then [of_nat n] else [of_nat (192 + n div 64), of_nat (128 + n mod 64)])"

definition utf8 :: "string \<Rightarrow> bytes" where
  "utf8 s = concat (map utf8_char s)"

definition hexdigest :: "bytes \<Rightarrow> string" where
  "hexdigest bs = concat (map (\<lambda>b. [hex_digit (unat b div 16), hex_digit (unat b mod 16)]) bs)"

lemma hex_digit_inj:
  assumes "a < 16" "b < 16"
  shows "hex_digit a = hex_digit b \<longleftrightarrow> a = b"
proof
  have code: "(of_char (hex_digit n) :: nat) = (if n < 10 then 48 + n else 87 + n)" if "n < 16" for n
    using that by (simp add: hex_digit_def)
  assume "hex_digit a = hex_digit b"
  then have "(of_char (hex_digit a) :: nat) = of_char (hex_digit b)" by simp
  then show "a = b" using assms by (simp add: code split: if_splits)
qed simp

lemma hexdigest_inj: "hexdigest xs = hexdigest ys \<longleftrightarrow> xs = ys"
proof (induction xs arbitrary: ys)
  case Nil
  then show ?case by (cases ys) (simp_all add: hexdigest_def)
next
  case (Cons x xs)
  show ?case
  proof (cases ys)
    case (Cons y zs)
    have b: "unat x div 16 < 16" "unat y div 16 < 16" using unat_byte[of x] unat_byte[of y] by auto
    have "unat x div 16 = unat y div 16 \<and> unat x mod 16 = unat y mod 16 \<longleftrightarrow> x = y"
      by (metis div_mult_mod_eq word_unat_eq_iff)
    then show ?thesis using Cons Cons.IH[of zs] b by (auto simp: hexdigest_def hex_digit_inj)
  qed (simp add: hexdigest_def)
qed

end
