(* ===== verification/Canonical.thy ===== *)
theory Canonical
  imports Encoding "HOL-Library.Multiset"
begin

text \<open>
  src/src/sentinel/utils/canonical.py and crypto.py: the canonical bytes that are hashed and
  signed, and the Ed25519 primitives. What belongs to orjson, hashlib and the
  \<^verbatim>\<open>cryptography\<close> package is the record \<open>toolkit\<close>; \<open>ed25519_correct\<close> and \<open>sorts_keys\<close>
  are the documented behaviour the properties rely on.
\<close>

record ('sk, 'pk) toolkit =
  tk_orjson :: "pyval \<Rightarrow> bytes result"
  tk_sha256 :: "bytes \<Rightarrow> bytes"
  tk_public :: "'sk \<Rightarrow> 'pk"
  tk_sign :: "'sk \<Rightarrow> bytes \<Rightarrow> bytes"
  tk_verify :: "'pk \<Rightarrow> bytes \<Rightarrow> bytes \<Rightarrow> unit result"
  tk_raw_public :: "'pk \<Rightarrow> bytes"

section \<open>canonical.py\<close>

definition int64_min :: int where
  "int64_min = - (2 ^ 63)"

definition int64_max :: int where
  "int64_max = 2 ^ 63 - 1"

fun has_oversized_int :: "pyval \<Rightarrow> bool" where
  "has_oversized_int (VBool b) = False"
| "has_oversized_int (VInt i) = (i < int64_min \<or> int64_max < i)"
| "has_oversized_int (VDict d) = list_ex (\<lambda>p. has_oversized_int (snd p)) d"
| "has_oversized_int (VList xs) = list_ex has_oversized_int xs"
| "has_oversized_int _ = False"

text \<open>\<^verbatim>\<open>json.dumps\<close> with sorted keys, no whitespace and without \<^verbatim>\<open>ensure_ascii\<close>.\<close>

definition json_char_utf8 :: "char \<Rightarrow> string" where
  "json_char_utf8 c = (if (of_char c :: nat) < 127 then json_char c else [c])"

definition json_str_utf8 :: "string \<Rightarrow> string" where
  "json_str_utf8 s = CHR 0x22 # concat (map json_char_utf8 s) @ [CHR 0x22]"

fun dumps_compact :: "pyval \<Rightarrow> string" where
  "dumps_compact VNone = ''null''"
| "dumps_compact (VBool b) = (if b then ''true'' else ''false'')"
| "dumps_compact (VInt i) = str_int i"
| "dumps_compact (VFloat f) = json_float f"
| "dumps_compact (VStr s) = json_str_utf8 s"
| "dumps_compact (VList xs) = ''['' @ join '','' (map dumps_compact xs) @ '']''"
| "dumps_compact (VDict d) = ''{'' @ join '','' (map (\<lambda>(k, t). json_str_utf8 k @ '':'' @ t)
     (sort_key fst (map (\<lambda>(k, v). (k, dumps_compact v)) d))) @ ''}''"

definition canonical_bytes :: "('sk, 'pk) toolkit \<Rightarrow> pyval \<Rightarrow> bytes result" where
  "canonical_bytes tk v = (case tk_orjson tk v of
     Inr bs \<Rightarrow> Inr bs
   | Inl e \<Rightarrow> if catches TypeError e then (if has_oversized_int v then Inr (utf8 (dumps_compact v)) else Inl e) else Inl e)"

definition canonical_hash :: "('sk, 'pk) toolkit \<Rightarrow> pyval \<Rightarrow> bytes result" where
  "canonical_hash tk v = bindR (canonical_bytes tk v) (\<lambda>bs. Inr (tk_sha256 tk bs))"

definition sha256_hex :: "('sk, 'pk) toolkit \<Rightarrow> pyval \<Rightarrow> string result" where
  "sha256_hex tk v = bindR (canonical_bytes tk v) (\<lambda>bs. Inr (hexdigest (tk_sha256 tk bs)))"

section \<open>crypto.py\<close>

definition crypto_sign :: "('sk, 'pk) toolkit \<Rightarrow> 'sk \<Rightarrow> bytes \<Rightarrow> bytes" where
  "crypto_sign tk sk payload = tk_sign tk sk payload"

definition crypto_verify :: "('sk, 'pk) toolkit \<Rightarrow> 'pk \<Rightarrow> bytes \<Rightarrow> bytes \<Rightarrow> bool result" where
  "crypto_verify tk pk sig payload = (case tk_verify tk pk sig payload of
     Inr _ \<Rightarrow> Inr True
   | Inl e \<Rightarrow> if catches Exception e then Inr False else Inl e)"

definition constant_time_equals :: "bytes \<Rightarrow> bytes \<Rightarrow> bool" where
  "constant_time_equals a b \<longleftrightarrow> a = b"

text \<open>Documented: a signature is not empty and verifies under the signer's public key.\<close>

definition ed25519_correct :: "('sk, 'pk) toolkit \<Rightarrow> bool" where
  "ed25519_correct tk \<longleftrightarrow> (\<forall>sk m. tk_sign tk sk m \<noteq> [] \<and> tk_verify tk (tk_public tk sk) (tk_sign tk sk m) m = Inr ())"

text \<open>Documented for \<^verbatim>\<open>OPT_SORT_KEYS\<close>: the order of a dictionary's keys does not matter.\<close>

definition sorts_keys :: "('sk, 'pk) toolkit \<Rightarrow> bool" where
  "sorts_keys tk \<longleftrightarrow> (\<forall>d d'. dict_wf d \<and> mset d = mset d' \<longrightarrow> tk_orjson tk (VDict d) = tk_orjson tk (VDict d'))"

text \<open>A signature by one key that verifies for a message the key did not sign with it.\<close>

definition forgery :: "('sk, 'pk) toolkit \<Rightarrow> 'pk \<Rightarrow> bytes \<Rightarrow> bytes \<Rightarrow> bytes \<Rightarrow> bool" where
  "forgery tk pk sig m m' \<longleftrightarrow> m \<noteq> m' \<and> tk_verify tk pk sig m' = Inr ()"

lemma crypto_verify_True: "crypto_verify tk pk sig m = Inr True \<longleftrightarrow> tk_verify tk pk sig m = Inr ()"
  by (auto simp: crypto_verify_def split: sum.splits if_splits)

lemma verify_signed: "ed25519_correct tk \<Longrightarrow> crypto_verify tk (tk_public tk sk) (crypto_sign tk sk m) m = Inr True"
  by (simp add: ed25519_correct_def crypto_verify_True crypto_sign_def)

section \<open>The order of keys\<close>

lemma dumps_compact_perm:
  assumes "dict_wf d" "mset d = mset d'"
  shows "dumps_compact (VDict d) = dumps_compact (VDict d')"
proof -
  let ?f = "\<lambda>(k, v). (k, dumps_compact v)"
  have ms: "mset (map ?f d) = mset (map ?f d')" using assms(2) by (simp only: mset_map)
  have "map fst (map ?f d) = map fst d" by (induction d) auto
  then have inj: "inj_on fst (set (map ?f d))" using assms(1) by (metis distinct_map)
  have "mset (sort_key fst (map ?f d')) = mset (map ?f d)" using ms by simp
  then have "sort_key fst (map ?f d) = sort_key fst (map ?f d')"
    using inj by (intro sort_key_inj_key_eq) simp_all
  then show ?thesis by simp
qed

lemma oversized_perm: "mset d = mset d' \<Longrightarrow> has_oversized_int (VDict d) = has_oversized_int (VDict d')"
  using mset_eq_setD[of d d'] by (simp add: list_ex_iff)

text \<open>All values inside a value.\<close>

fun inside :: "pyval \<Rightarrow> pyval list" where
  "inside (VList xs) = VList xs # concat (map inside xs)"
| "inside (VDict d) = VDict d # concat (map (\<lambda>p. inside (snd p)) d)"
| "inside v = [v]"

lemma oversized_iff: "has_oversized_int v \<longleftrightarrow> (\<exists>i. VInt i \<in> set (inside v) \<and> (i < - (2 ^ 63) \<or> 2 ^ 63 \<le> i))"
  by (induction v rule: inside.induct) (auto simp: list_ex_iff int64_min_def int64_max_def)

section \<open>Properties\<close>

text \<open>
  Canonical bytes do not depend on the insertion order of a dictionary, and so neither do the
  digests, given that orjson sorts keys; and a value orjson rejects with a TypeError still has
  canonical bytes exactly when it contains, at any depth, an integer outside the signed 64-bit range.
\<close>

theorem canonical_key_order:
  assumes "sorts_keys tk" "dict_wf d" "mset d = mset d'" "tk_orjson tk v = Inl e" "catches TypeError e"
  shows "canonical_bytes tk (VDict d) = canonical_bytes tk (VDict d') \<and>
    sha256_hex tk (VDict d) = sha256_hex tk (VDict d') \<and> canonical_hash tk (VDict d) = canonical_hash tk (VDict d') \<and>
    ((\<exists>bs. canonical_bytes tk v = Inr bs) \<longleftrightarrow>
       (\<exists>i. VInt i \<in> set (inside v) \<and> (i < - (2 ^ 63) \<or> 2 ^ 63 \<le> i)))"
proof -
  have "tk_orjson tk (VDict d) = tk_orjson tk (VDict d')" using assms(1-3) by (simp add: sorts_keys_def)
  then have "canonical_bytes tk (VDict d) = canonical_bytes tk (VDict d')"
    unfolding canonical_bytes_def dumps_compact_perm[OF assms(2,3)] oversized_perm[OF assms(3)] by simp
  then show ?thesis
    using assms(4,5) oversized_iff[of v] by (auto simp: sha256_hex_def canonical_hash_def canonical_bytes_def)
qed

text \<open>A toolkit of the documented behaviour: it encodes with sorted keys, integers of 64 bits only.\<close>

definition toy_toolkit :: "(nat, nat) toolkit" where
  "toy_toolkit = \<lparr>tk_orjson = (\<lambda>v. if has_oversized_int v then Inl (Exn TypeError ''Integer exceeds 64-bit range'')
       else Inr (utf8 (dumps_compact v))),
     tk_sha256 = (\<lambda>bs. bs), tk_public = (\<lambda>k. k), tk_sign = (\<lambda>k m. of_nat k # m),
     tk_verify = (\<lambda>k s m. if s = of_nat k # m then Inr () else Inl (Exn ValueError ''InvalidSignature'')),
     tk_raw_public = (\<lambda>k. [of_nat k])\<rparr>"

lemma toy_correct: "ed25519_correct toy_toolkit"
  by (simp add: ed25519_correct_def toy_toolkit_def)

lemma toy_sorts: "sorts_keys toy_toolkit"
  unfolding sorts_keys_def
proof (intro allI impI)
  fix d d' :: "(string \<times> pyval) list"
  assume "dict_wf d \<and> mset d = mset d'"
  then have "dumps_compact (VDict d) = dumps_compact (VDict d')" "has_oversized_int (VDict d) = has_oversized_int (VDict d')"
    using dumps_compact_perm oversized_perm by blast+
  then show "tk_orjson toy_toolkit (VDict d) = tk_orjson toy_toolkit (VDict d')"
    unfolding toy_toolkit_def by (simp del: dumps_compact.simps has_oversized_int.simps)
qed

theorem canonical_key_order_witness:
  "canonical_bytes toy_toolkit (VDict [(''b'', VInt 1), (''a'', VInt 2)]) =
     canonical_bytes toy_toolkit (VDict [(''a'', VInt 2), (''b'', VInt 1)]) \<and>
   (\<exists>bs. canonical_bytes toy_toolkit (VList [VInt (2 ^ 63)]) = Inr bs)"
proof -
  have o: "tk_orjson toy_toolkit (VList [VInt (2 ^ 63)]) = Inl (Exn TypeError ''Integer exceeds 64-bit range'')"
    by (simp add: toy_toolkit_def int64_max_def)
  have t: "catches TypeError (Exn TypeError ''Integer exceeds 64-bit range'')" by (simp add: catches_def)
  note k = canonical_key_order[OF toy_sorts _ _ o t]
  have "dict_wf [(''b'', VInt 1), (''a'', VInt 2)]" by simp
  then show ?thesis
    using k[of "[(''b'', VInt 1), (''a'', VInt 2)]" "[(''a'', VInt 2), (''b'', VInt 1)]"] by simp
qed

end
