(* ===== verification/Signing.thy ===== *)
theory Signing
  imports Canonical
begin

text \<open>
  The three signed documents of the program: actions (src/src/sentinel/identity/signing.py),
  inter-agent envelopes (comms/iatp.py) and memory receipts (verification/cmvk.py). What a signed
  document owes is the locale \<open>signed_document\<close>; each of the three interprets it. The dumps
  of the models to JSON values, \<open>dump\<close>, are parameters here and written out in theory Wire.
\<close>

locale signed_document =
  fixes sign :: "('sk, 'pk) toolkit \<Rightarrow> 'sk \<Rightarrow> 'd \<Rightarrow> 'e result"
    and verify :: "('sk, 'pk) toolkit \<Rightarrow> 'pk \<Rightarrow> 'e \<Rightarrow> bool result"
    and payload :: "('sk, 'pk) toolkit \<Rightarrow> 'e \<Rightarrow> bytes result"
    and signature_of :: "'e \<Rightarrow> string option"
  assumes sign_Inr: "sign tk sk d = Inr e \<Longrightarrow>
      \<exists>m. payload tk e = Inr m \<and> signature_of e = Some (b64encode (crypto_sign tk sk m))"
    and verify_True: "verify tk pk e = Inr True \<longleftrightarrow>
      (\<exists>t s m. signature_of e = Some t \<and> b64decode t = Inr s \<and> payload tk e = Inr m \<and> crypto_verify tk pk s m = Inr True)"
begin

lemma roundtrip: "ed25519_correct tk \<Longrightarrow> sign tk sk d = Inr e \<Longrightarrow> verify tk (tk_public tk sk) e = Inr True"
  using sign_Inr[of tk sk d e] verify_signed[of tk sk] by (auto simp: verify_True)

text \<open>A document accepted under a signature made for another payload is a forgery.\<close>

lemma tamper:
  assumes "sign tk sk d = Inr e" "verify tk pk e' = Inr True" "signature_of e' = signature_of e"
    and "payload tk e' \<noteq> payload tk e"
  shows "\<exists>m m'. payload tk e = Inr m \<and> payload tk e' = Inr m' \<and> forgery tk pk (crypto_sign tk sk m) m m'"
proof -
  obtain m where m: "payload tk e = Inr m" "signature_of e = Some (b64encode (crypto_sign tk sk m))"
    using sign_Inr[OF assms(1)] by blast
  obtain t s m' where m': "signature_of e' = Some t" "b64decode t = Inr s" "payload tk e' = Inr m'"
      "crypto_verify tk pk s m' = Inr True"
    using assms(2) unfolding verify_True by blast
  have "t = b64encode (crypto_sign tk sk m)" using m'(1) m(2) assms(3) by simp
  then have "s = crypto_sign tk sk m" using m'(2) by simp
  then show ?thesis using m m' assms(4) by (auto simp: forgery_def crypto_verify_True)
qed

lemma unsigned: "signature_of e = None \<Longrightarrow> verify tk pk e \<noteq> Inr True"
  by (simp add: verify_True)

end

section \<open>signing.py\<close>

record signed_action =
  sa_action :: action
  sa_signature_b64 :: string
  sa_key_id :: string

definition get_args :: "signed_action \<Rightarrow> (string, pyval) pydict" where
  "get_args sa = arguments (sa_action sa)"

definition set_args :: "(string, pyval) pydict \<Rightarrow> signed_action \<Rightarrow> signed_action" where
  "set_args v sa = sa\<lparr>sa_action := (sa_action sa)\<lparr>arguments := v\<rparr>\<rparr>"

definition fingerprint :: "('sk, 'pk) toolkit \<Rightarrow> 'pk \<Rightarrow> string" where
  "fingerprint tk pk = ''k_'' @ take 16 (hexdigest (tk_sha256 tk (tk_raw_public tk pk)))"

text \<open>The signer's key id: the given one, or the fingerprint when it is absent or empty.\<close>

definition signer_key_id :: "('sk, 'pk) toolkit \<Rightarrow> 'sk \<Rightarrow> string option \<Rightarrow> string" where
  "signer_key_id tk sk key_id = (if truthy key_id then or_empty key_id else fingerprint tk (tk_public tk sk))"

definition sign_action ::
  "(action \<Rightarrow> pyval) \<Rightarrow> string option \<Rightarrow> ('sk, 'pk) toolkit \<Rightarrow> 'sk \<Rightarrow> action \<Rightarrow> signed_action result" where
  "sign_action dump key_id tk sk a = bindR (canonical_bytes tk (dump a)) (\<lambda>payload.
     Inr \<lparr>sa_action = a, sa_signature_b64 = b64encode (crypto_sign tk sk payload),
          sa_key_id = signer_key_id tk sk key_id\<rparr>)"

definition verify_action ::
  "(action \<Rightarrow> pyval) \<Rightarrow> ('sk, 'pk) toolkit \<Rightarrow> 'pk \<Rightarrow> signed_action \<Rightarrow> bool result" where
  "verify_action dump tk pk sa = (case b64decode (sa_signature_b64 sa) of
     Inl e \<Rightarrow> if catches ValueError e \<or> catches TypeError e then Inr False else Inl e
   | Inr sig \<Rightarrow> bindR (canonical_bytes tk (dump (sa_action sa))) (\<lambda>payload. crypto_verify tk pk sig payload))"

interpretation signed_actions: signed_document "sign_action dump key_id" "verify_action dump"
  "\<lambda>tk sa. canonical_bytes tk (dump (sa_action sa))" "\<lambda>sa. Some (sa_signature_b64 sa)" for dump key_id
  by unfold_locales (auto simp: sign_action_def verify_action_def bindR_Inr_iff split: sum.splits if_splits)

section \<open>iatp.py\<close>

record iatp_message =
  sender_did :: string
  recipient_did :: string
  conversation_id :: string
  nonce :: int
  iatp_issued_at :: datetime
  iatp_intent :: string
  iatp_body :: "(string, pyval) pydict"

record iatp_envelope = iatp_message +
  iatp_signature_b64 :: "string option"

definition mk_envelope :: "iatp_message \<Rightarrow> string option \<Rightarrow> iatp_envelope result" where
  "mk_envelope m sig = (if 0 \<le> nonce m
     then Inr (iatp_message.extend m (iatp_envelope.fields sig))
     else Inl (Exn ValidationError ''nonce: Input should be greater than or equal to 0''))"

text \<open>\<open>canonical_body\<close>: the dump of every field but the signature.\<close>

definition canonical_body :: "(iatp_message \<Rightarrow> pyval) \<Rightarrow> iatp_envelope \<Rightarrow> pyval" where
  "canonical_body dump e = dump (iatp_message.truncate e)"

definition iatp_seal ::
  "(iatp_message \<Rightarrow> pyval) \<Rightarrow> ('sk, 'pk) toolkit \<Rightarrow> 'sk \<Rightarrow> iatp_envelope \<Rightarrow> iatp_envelope result" where
  "iatp_seal dump tk sk e = bindR (canonical_bytes tk (canonical_body dump e)) (\<lambda>m.
     Inr (e\<lparr>iatp_signature_b64 := Some (b64encode (crypto_sign tk sk m))\<rparr>))"

definition iatp_verify ::
  "(iatp_message \<Rightarrow> pyval) \<Rightarrow> ('sk, 'pk) toolkit \<Rightarrow> 'pk \<Rightarrow> iatp_envelope \<Rightarrow> bool result" where
  "iatp_verify dump tk pk e = (case iatp_signature_b64 e of
     None \<Rightarrow> Inr False
   | Some t \<Rightarrow> (case b64decode t of
       Inl x \<Rightarrow> if catches ValueError x \<or> catches TypeError x then Inr False else Inl x
     | Inr sig \<Rightarrow> bindR (canonical_bytes tk (canonical_body dump e)) (\<lambda>m. crypto_verify tk pk sig m)))"

lemma canonical_body_signature: "canonical_body dump (e\<lparr>iatp_signature_b64 := t\<rparr>) = canonical_body dump e"
  by (cases e) (simp add: canonical_body_def iatp_message.defs)

interpretation iatp: signed_document "iatp_seal dump" "iatp_verify dump"
  "\<lambda>tk e. canonical_bytes tk (canonical_body dump e)" iatp_signature_b64 for dump
  by unfold_locales
    (auto simp: iatp_seal_def iatp_verify_def canonical_body_signature bindR_Inr_iff split: option.splits sum.splits if_splits)

section \<open>cmvk.py\<close>

record memory_receipt =
  mr_id :: uuid
  mr_agent_did :: string
  mr_key :: string
  digest_hex :: string
  mr_signature_b64 :: string
  mr_issued_at :: datetime
  mr_version :: int

definition memory_doc :: "string \<Rightarrow> pyval \<Rightarrow> string \<Rightarrow> pyval" where
  "memory_doc key v agent = VDict [(''key'', VStr key), (''value'', v), (''agent_did'', VStr agent)]"

definition receipt_doc :: "string \<Rightarrow> string \<Rightarrow> string \<Rightarrow> pyval" where
  "receipt_doc agent key digest = VDict [(''agent_did'', VStr agent), (''key'', VStr key), (''digest'', VStr digest)]"

text \<open>\<open>d\<close> is the agent, the key and the value written.\<close>

definition cmvk_issue ::
  "uuid \<Rightarrow> datetime \<Rightarrow> ('sk, 'pk) toolkit \<Rightarrow> 'sk \<Rightarrow> string \<times> string \<times> pyval \<Rightarrow> memory_receipt result" where
  "cmvk_issue fresh now tk sk d = (let (agent, key, v) = d in
     bindR (sha256_hex tk (memory_doc key v agent)) (\<lambda>digest.
     bindR (canonical_bytes tk (receipt_doc agent key digest)) (\<lambda>body.
       Inr \<lparr>mr_id = fresh, mr_agent_did = agent, mr_key = key, digest_hex = digest,
            mr_signature_b64 = b64encode (crypto_sign tk sk body), mr_issued_at = now, mr_version = 1\<rparr>)))"

definition receipt_body :: "('sk, 'pk) toolkit \<Rightarrow> memory_receipt \<Rightarrow> bytes result" where
  "receipt_body tk r = canonical_bytes tk (receipt_doc (mr_agent_did r) (mr_key r) (digest_hex r))"

definition cmvk_verify ::
  "('sk, 'pk) toolkit \<Rightarrow> 'pk \<Rightarrow> memory_receipt \<Rightarrow> pyval \<Rightarrow> bool result" where
  "cmvk_verify tk pk r v =
     bindR (sha256_hex tk (memory_doc (mr_key r) v (mr_agent_did r))) (\<lambda>expected.
       if expected \<noteq> digest_hex r then Inr False
       else bindR (receipt_body tk r) (\<lambda>body. case b64decode (mr_signature_b64 r) of
           Inl e \<Rightarrow> if catches ValueError e \<or> catches TypeError e then Inr False else Inl e
         | Inr sig \<Rightarrow> crypto_verify tk pk sig body))"

text \<open>The signature of a receipt, apart from the digest it carries.\<close>

definition receipt_signed :: "('sk, 'pk) toolkit \<Rightarrow> 'pk \<Rightarrow> memory_receipt \<Rightarrow> bool result" where
  "receipt_signed tk pk r = bindR (receipt_body tk r) (\<lambda>body. case b64decode (mr_signature_b64 r) of
     Inl e \<Rightarrow> if catches ValueError e \<or> catches TypeError e then Inr False else Inl e
   | Inr sig \<Rightarrow> crypto_verify tk pk sig body)"

interpretation receipts: signed_document "cmvk_issue fresh now" receipt_signed receipt_body "\<lambda>r. Some (mr_signature_b64 r)"
  for fresh now
proof
  show "cmvk_issue fresh now tk sk d = Inr e \<Longrightarrow>
      \<exists>m. receipt_body tk e = Inr m \<and> Some (mr_signature_b64 e) = Some (b64encode (crypto_sign tk sk m))" for tk sk d e
    by (auto simp: cmvk_issue_def receipt_body_def bindR_Inr_iff split: prod.splits)
  show "receipt_signed tk pk e = Inr True \<longleftrightarrow> (\<exists>t s m. Some (mr_signature_b64 e) = Some t \<and> b64decode t = Inr s \<and>
      receipt_body tk e = Inr m \<and> crypto_verify tk pk s m = Inr True)" for tk pk e
    by (cases "b64decode (mr_signature_b64 e)") (auto simp: receipt_signed_def bindR_Inr_iff)
qed

lemma cmvk_verify_True_iff:
  "cmvk_verify tk pk r v = Inr True \<longleftrightarrow>
     sha256_hex tk (memory_doc (mr_key r) v (mr_agent_did r)) = Inr (digest_hex r) \<and> receipt_signed tk pk r = Inr True"
  by (auto simp: cmvk_verify_def receipt_signed_def bindR_Inr_iff split: if_splits)

lemma issue_fields:
  "cmvk_issue fresh now tk sk (agent, key, v) = Inr r \<Longrightarrow>
     mr_agent_did r = agent \<and> mr_key r = key \<and> sha256_hex tk (memory_doc key v agent) = Inr (digest_hex r)"
  by (auto simp: cmvk_issue_def bindR_Inr_iff)

lemma sha256_hex_eq:
  assumes "sha256_hex tk x = sha256_hex tk y" "sha256_hex tk y = Inr h"
  shows "\<exists>m m'. canonical_bytes tk x = Inr m \<and> canonical_bytes tk y = Inr m' \<and> tk_sha256 tk m = tk_sha256 tk m'"
  using assms by (auto simp: sha256_hex_def bindR_Inr_iff hexdigest_inj)

section \<open>Properties\<close>

text \<open>
  C19: What is signed verifies: a signed action, a sealed envelope and a memory receipt are all
  accepted under the public key of the signer, the receipt for the value that was written; the
  base-64 text of every signature decodes to the signature; and the key id of a signed action is
  the signer's own, or starts with the fingerprint's prefix.
\<close>

theorem signing_roundtrips:
  assumes "ed25519_correct tk" "sign_action dump key_id tk sk a = Inr sa" "iatp_seal dump_msg tk sk env = Inr env'"
    "cmvk_issue fresh now tk sk (agent, key, v) = Inr rc"
  shows "verify_action dump tk (tk_public tk sk) sa = Inr True \<and> sa_action sa = a \<and>
    iatp_verify dump_msg tk (tk_public tk sk) env' = Inr True \<and> iatp_message.truncate env' = iatp_message.truncate env \<and>
    cmvk_verify tk (tk_public tk sk) rc v = Inr True \<and>
    b64decode (b64encode sig) = Inr sig \<and>
    (if truthy key_id then sa_key_id sa = or_empty key_id else startswith (sa_key_id sa) ''k_'')"
proof (intro conjI)
  show "verify_action dump tk (tk_public tk sk) sa = Inr True" by (rule signed_actions.roundtrip[OF assms(1,2)])
  show "iatp_verify dump_msg tk (tk_public tk sk) env' = Inr True" by (rule iatp.roundtrip[OF assms(1,3)])
  show "cmvk_verify tk (tk_public tk sk) rc v = Inr True"
    using receipts.roundtrip[OF assms(1,4)] issue_fields[OF assms(4)] by (simp add: cmvk_verify_True_iff)
  show "sa_action sa = a" "if truthy key_id then sa_key_id sa = or_empty key_id else startswith (sa_key_id sa) ''k_''"
    using assms(2) by (auto simp: sign_action_def bindR_Inr_iff signer_key_id_def fingerprint_def)
  show "iatp_message.truncate env' = iatp_message.truncate env"
    using assms(3) by (cases env) (auto simp: iatp_seal_def bindR_Inr_iff iatp_message.defs)
qed simp

lemma toy_canonical: "canonical_bytes toy_toolkit v = Inr (utf8 (dumps_compact v))"
  by (simp add: canonical_bytes_def toy_toolkit_def catches_def)

definition example_envelope :: iatp_envelope where
  "example_envelope = \<lparr>sender_did = ''did:test:a'', recipient_did = ''did:test:b'', conversation_id = ''c1'', nonce = 0,
     iatp_issued_at = 0, iatp_intent = ''hand off'', iatp_body = [], iatp_signature_b64 = None\<rparr>"

lemma toy_signs:
  "\<exists>sa. sign_action dump key_id toy_toolkit sk a = Inr sa" "\<exists>e'. iatp_seal dump_msg toy_toolkit sk e = Inr e'"
  "\<exists>rc. cmvk_issue fresh now toy_toolkit sk (agent, key, v) = Inr rc"
  by (simp_all add: sign_action_def iatp_seal_def cmvk_issue_def sha256_hex_def toy_canonical)

theorem signing_roundtrips_witness:
  "\<exists>sa env rc. sign_action (\<lambda>a. VDict (arguments a)) None toy_toolkit 5 (example_action PAYMENT None [(''amount'', VInt 3)]) = Inr sa \<and>
     iatp_seal (\<lambda>m. VStr (sender_did m)) toy_toolkit 5 example_envelope = Inr env \<and>
     cmvk_issue 1 0 toy_toolkit 5 (''did:test:a'', ''k'', VInt 1) = Inr rc \<and>
     verify_action (\<lambda>a. VDict (arguments a)) toy_toolkit 5 sa = Inr True \<and>
     iatp_verify (\<lambda>m. VStr (sender_did m)) toy_toolkit 5 env = Inr True \<and> cmvk_verify toy_toolkit 5 rc (VInt 1) = Inr True"
proof -
  obtain sa where sa: "sign_action (\<lambda>a. VDict (arguments a)) None toy_toolkit 5 (example_action PAYMENT None [(''amount'', VInt 3)]) = Inr sa"
    using toy_signs(1) by blast
  obtain env where env: "iatp_seal (\<lambda>m. VStr (sender_did m)) toy_toolkit 5 example_envelope = Inr env"
    using toy_signs(2) by blast
  obtain rc where rc: "cmvk_issue 1 0 toy_toolkit 5 (''did:test:a'', ''k'', VInt 1) = Inr rc"
    using toy_signs(3) by blast
  have "tk_public toy_toolkit 5 = 5" by (simp add: toy_toolkit_def)
  then show ?thesis using signing_roundtrips[OF toy_correct sa env rc] sa env rc by auto
qed

lemma set_args_fields:
  "agent_did (sa_action (set_args v sa)) = agent_did (sa_action sa)"
  "sa_signature_b64 (set_args v sa) = sa_signature_b64 sa"
  by (simp_all add: set_args_def)

end
