(* ===== verification/Numbers.thy ===== *)
theory Numbers
  imports PyValue
begin

text \<open>
  Reading integers back: \<^verbatim>\<open>int(s)\<close>, as the configuration of the application uses it, and the facts
  about decimal digits it shares with the JSON reader.
\<close>

section \<open>Digits\<close>

lemma is_digit_int: "is_digit c \<longleftrightarrow> 48 \<le> (of_char c :: int) \<and> (of_char c :: int) \<le> 57"
proof -
  have "(of_char c :: int) = int (of_char c)" by (rule of_nat_of_char[symmetric])
  then show ?thesis unfolding is_digit_def Let_def by linarith
qed

lemma is_digit_char_of: "0 \<le> n \<Longrightarrow> n < 10 \<Longrightarrow> is_digit (char_of (48 + n :: int))"
  by (simp add: is_digit_int)

lemma of_char_digit: "0 \<le> n \<Longrightarrow> n < 10 \<Longrightarrow> of_char (char_of (48 + n :: int)) = 48 + n"
  by simp

lemma digits_of_digits: "0 \<le> n \<Longrightarrow> list_all is_digit (digits_of n)"
proof (induction n rule: digits_of.induct)
  case (1 n)
  show ?case
  proof (cases "n < 10")
    case True
    then show ?thesis using 1(2) is_digit_char_of[of n] by (simp add: digits_of.simps[of n])
  next
    case False
    have "is_digit (char_of (48 + n mod 10))" by (rule is_digit_char_of) simp_all
    then show ?thesis using False 1 by (simp add: digits_of.simps[of n])
  qed
qed

lemma digits_of_not_Nil [simp]: "digits_of n \<noteq> []"
  by (subst digits_of.simps) simp

lemma digits_val_snoc: "digits_val (s @ [c]) = 10 * digits_val s + (of_char c - 48)"
  by (simp add: digits_val_def)

lemma digits_val_of [simp]: "0 \<le> n \<Longrightarrow> digits_val (digits_of n) = n"
proof (induction n rule: digits_of.induct)
  case (1 n)
  show ?case
  proof (cases "n < 10")
    case True
    then show ?thesis using 1(2) of_char_digit[of n] by (simp add: digits_of.simps[of n] digits_val_def)
  next
    case False
    have "of_char (char_of (48 + n mod 10)) = 48 + n mod 10" by (rule of_char_digit) simp_all
    then show ?thesis using False 1 by (simp add: digits_of.simps[of n] digits_val_snoc)
  qed
qed

text \<open>No leading zero: the first digit of a positive number is one of 1 to 9.\<close>

lemma digits_of_hd: "0 < n \<Longrightarrow> hd (digits_of n) \<noteq> CHR ''0''"
proof (induction n rule: digits_of.induct)
  case (1 n)
  show ?case
  proof (cases "n < 10")
    case True
    have "(char_of (48 + n) :: char) \<noteq> CHR ''0''"
    proof
      assume "(char_of (48 + n) :: char) = CHR ''0''"
      then have "(of_char (char_of (48 + n) :: char) :: int) = of_char CHR ''0''" by (rule arg_cong)
      then show False using True 1(2) by simp
    qed
    then show ?thesis using True by (simp add: digits_of.simps[of n])
  next
    case False
    then show ?thesis using 1 by (simp add: digits_of.simps[of n])
  qed
qed

lemma digits_of_0 [simp]: "digits_of 0 = ''0''"
  by (subst digits_of.simps) (simp, code_simp)

section \<open>int\<close>

text \<open>The longest run of digits Python converts.\<close>

definition max_str_digits :: nat where
  "max_str_digits = 4300"

definition py_int_error :: "string \<Rightarrow> exn" where
  "py_int_error s = Exn ValueError (''invalid literal for int() with base 10: '' @ repr_str s)"

definition py_int :: "string \<Rightarrow> int result" where
  "py_int s = (case drop_underscores False (strip s) of
     None \<Rightarrow> Inl (py_int_error s)
   | Some t \<Rightarrow>
       (let (neg, ds) = sign_split t in
        if ds = [] \<or> \<not> list_all is_digit ds then Inl (py_int_error s)
        else if max_str_digits < length ds then
          Inl (Exn ValueError ''Exceeds the limit (4300 digits) for integer string conversion'')
        else Inr (if neg then - digits_val ds else digits_val ds)))"

lemma is_digit_facts:
  "is_digit c \<Longrightarrow> \<not> is_space c" "is_digit c \<Longrightarrow> c \<noteq> CHR ''_''" "is_digit c \<Longrightarrow> c \<noteq> CHR ''-''"
  "is_digit c \<Longrightarrow> c \<noteq> CHR ''+''"
  by (auto simp: is_digit_def is_space_def Let_def)

lemma minus_no_space: "\<not> is_space CHR ''-''"
  by (simp add: is_space_def)

lemma drop_underscores_none: "CHR ''_'' \<notin> set s \<Longrightarrow> drop_underscores b s = Some s"
  by (induction s arbitrary: b) auto

lemma strip_id: "s \<noteq> [] \<Longrightarrow> \<not> is_space (hd s) \<Longrightarrow> \<not> is_space (last s) \<Longrightarrow> strip s = s"
proof -
  assume "s \<noteq> []" "\<not> is_space (hd s)" "\<not> is_space (last s)"
  then have "dropWhile is_space s = s" "dropWhile is_space (rev s) = rev s"
    by (simp_all add: dropWhile_eq_self_iff hd_rev)
  then show ?thesis by (simp add: strip_def)
qed

lemma py_int_digits:
  assumes "ds \<noteq> []" "list_all is_digit ds" "length ds \<le> max_str_digits"
  shows "py_int ds = Inr (digits_val ds)" "py_int (CHR ''-'' # ds) = Inr (- digits_val ds)"
proof -
  have all: "is_digit c" if "c \<in> set ds" for c using assms(2) that by (simp add: list_all_iff)
  have ends: "is_digit (hd ds)" "is_digit (last ds)" using assms(1) by (intro all; simp)+
  have no: "CHR ''_'' \<notin> set ds" using all is_digit_facts(2) by blast
  have st: "strip ds = ds" "strip (CHR ''-'' # ds) = CHR ''-'' # ds"
    using ends assms(1) by (intro strip_id; simp add: is_digit_facts minus_no_space)+
  have sg: "sign_split ds = (False, ds)" "sign_split (CHR ''-'' # ds) = (True, ds)"
    using ends is_digit_facts assms(1) by (cases ds; auto simp: sign_split_def)+
  have und: "drop_underscores b ds = Some ds" for b using no by (simp add: drop_underscores_none)
  show "py_int ds = Inr (digits_val ds)" "py_int (CHR ''-'' # ds) = Inr (- digits_val ds)"
    using assms by (simp_all add: py_int_def st sg und)
qed

text \<open>What \<^verbatim>\<open>str\<close> writes, \<^verbatim>\<open>int\<close> reads.\<close>

lemma py_int_str_int:
  "length (digits_of \<bar>i\<bar>) \<le> max_str_digits \<Longrightarrow> py_int (str_int i) = Inr i"
  using py_int_digits[of "digits_of \<bar>i\<bar>"] digits_of_digits[of "\<bar>i\<bar>"]
  by (cases "i < 0") (simp_all add: str_int_def)

end
