(* ===== verification/FloatText.thy ===== *)
theory FloatText
  imports Numbers
begin

text \<open>
  A float read back from its text. \<^verbatim>\<open>repr\<close> writes the shortest decimal that rounds to the
  float; seventeen significant digits always do, since the decimals of that length are closer to
  each other than the doubles they lie between, so the search for the shortest ends. The text is an
  integer part, a fraction and an exponent, and \<^verbatim>\<open>float\<close> reads it as the same float.
\<close>

section \<open>Doubles\<close>

text \<open>The finite floats, with the infinities and nan\<close>

fun double_ok :: "pyfloat \<Rightarrow> bool" where
  "double_ok (Fin x) \<longleftrightarrow> is_double x \<and> \<bar>x\<bar> < 2 ^ 1024"
| "double_ok f \<longleftrightarrow> True"

text \<open>What is nearer to a double than half the unit of its own last place rounds to that double.\<close>

lemma rne_near:
  assumes "\<bar>y - of_int n\<bar> < 1/2"
  shows "rne y = n"
proof -
  have "\<bar>of_int (rne y) - (of_int n :: rat)\<bar> < 1" using rne_error[of y] assms by linarith
  then have "\<bar>of_int (rne y - n) :: rat\<bar> < 1" by simp
  then show ?thesis by linarith
qed

lemma fl_near:
  assumes "y \<noteq> 0" "x = of_int m * 2 powi ulp_expo y" "\<bar>y - x\<bar> < 2 powi (ulp_expo y - 1)"
  shows "fl y = x"
proof -
  let ?u = "(2::rat) powi ulp_expo y"
  have "y / ?u - of_int m = (y - x) / ?u" by (simp add: assms(2) diff_divide_distrib)
  then have "\<bar>y / ?u - of_int m\<bar> = \<bar>y - x\<bar> / ?u" by (simp add: abs_divide)
  also have "\<dots> < 2 powi (ulp_expo y - 1) / ?u" using assms(3) by (simp add: divide_strict_right_mono)
  also have "\<dots> = 1/2" by (simp add: power_int_diff)
  finally have "\<bar>y / ?u - of_int m\<bar> < 1/2" .
  then have "rne (y / ?u) = m" by (rule rne_near)
  then show ?thesis using assms(1,2) by (simp add: fl_def)
qed

lemma powi2_multiple:
  assumes "x = of_int m * (2::rat) powi a" "b \<le> a"
  shows "\<exists>n. x = of_int n * 2 powi b"
proof -
  obtain j :: int where j: "(2::rat) powi (a - b) = of_int j"
    using assms(2) by (auto intro: powi2_int[of "a - b"])
  have "(2::rat) powi a = 2 powi (a - b) * 2 powi b" by (simp flip: power_int_add)
  then have "x = of_int (m * j) * 2 powi b" using assms(1) j by simp
  then show ?thesis ..
qed

lemma double_multiple: "is_double x \<Longrightarrow> \<exists>m. x = of_int m * 2 powi ulp_expo x"
  by (cases "x = 0") (auto simp: is_double_def fl_def intro: exI[of _ "rne (x / 2 powi ulp_expo x)"] exI[of _ 0])

lemma double_expo: "is_double x \<Longrightarrow> 0 < x \<Longrightarrow> - 1074 \<le> expo x"
proof -
  assume x: "is_double x" "0 < x"
  obtain m where m: "x = of_int m * 2 powi ulp_expo x" using double_multiple[OF x(1)] ..
  have "0 < of_int m * (2::rat) powi ulp_expo x" using x(2) m by simp
  then have "(0::rat) < of_int m" by (rule zero_less_mult_pos2) simp
  then have "0 < m" by simp
  then have "(1::rat) * 2 powi ulp_expo x \<le> of_int m * 2 powi ulp_expo x" by (intro mult_right_mono) simp_all
  then have "2 powi ulp_expo x \<le> x" by (subst m) simp
  also have "x < 2 powi (expo x + 1)" using expo_bounds(2)[OF x(2)] .
  finally have "ulp_expo x < expo x + 1" by simp
  then show ?thesis by (simp add: ulp_expo_def)
qed

text \<open>A double leaves a unit of its last place to each power of two it differs from.\<close>

lemma grid_step:
  assumes "of_int i * (2::rat) powi u < of_int j * 2 powi u"
  shows "of_int i * (2::rat) powi u + 2 powi u \<le> of_int j * 2 powi u"
proof -
  have "i + 1 \<le> j" using assms by (simp add: mult_less_cancel_right)
  then have "of_int (i + 1) * (2::rat) powi u \<le> of_int j * 2 powi u" by (intro mult_right_mono) simp_all
  then show ?thesis by (simp add: algebra_simps)
qed

lemma double_gaps:
  assumes "is_double x" "0 < x"
  shows "x + 2 powi ulp_expo x \<le> 2 powi (expo x + 1)"
    and "x \<noteq> 2 powi expo x \<Longrightarrow> 2 powi expo x + 2 powi ulp_expo x \<le> x"
proof -
  obtain m where m: "x = of_int m * 2 powi ulp_expo x" using double_multiple[OF assms(1)] ..
  have grid: "\<exists>j. (2::rat) powi k = of_int j * 2 powi ulp_expo x" if "expo x \<le> k" for k
    using powi2_multiple[of "2 powi k" 1 k "ulp_expo x"] that double_expo[OF assms] assms(2) by (simp add: ulp_expo_def)
  obtain i j where ij: "(2::rat) powi expo x = of_int i * 2 powi ulp_expo x"
      "(2::rat) powi (expo x + 1) = of_int j * 2 powi ulp_expo x"
    using grid[of "expo x"] grid[of "expo x + 1"] by auto
  show "x + 2 powi ulp_expo x \<le> 2 powi (expo x + 1)"
    using grid_step[of m "ulp_expo x" j] expo_bounds(2)[OF assms(2)] unfolding ij(2) m[symmetric] by simp
  show "x \<noteq> 2 powi expo x \<Longrightarrow> 2 powi expo x + 2 powi ulp_expo x \<le> x"
    using grid_step[of i "ulp_expo x" m] expo_bounds(1)[OF assms(2)] unfolding ij(1)[symmetric] m[symmetric] by simp
qed

text \<open>
  The relative error a double tolerates. A unit in the last place is at least \<open>x / 2 ^ 53\<close>; below a
  power of two the doubles are twice as dense, and so is the bound.
\<close>

lemma fl_relative:
  assumes "is_double x" "0 < x" "\<bar>y - x\<bar> < x / 2 ^ 54"
  shows "fl y = x"
proof -
  have "x / 2 ^ 54 < x" using assms(2) by simp
  then have y: "0 < y" using assms(3) by linarith
  note gaps = double_gaps[OF assms(1,2)] and bx = expo_bounds[OF assms(2)] and bounds_y = expo_bounds[OF y]
  have ux: "ulp_expo x = max (expo x - 52) (- 1074)" and uy: "ulp_expo y = max (expo y - 52) (- 1074)"
    using assms(2) y by (simp_all add: ulp_expo_def)
  have "x / 2 ^ 54 < 2 powi (expo x + 1) / 2 ^ 54" using bx(2) by (simp add: divide_strict_right_mono)
  also have "\<dots> = 2 powi (expo x - 53)" by (simp add: power_int_add power_int_diff)
  finally have half: "\<bar>y - x\<bar> < 2 powi (expo x - 53)" using assms(3) by linarith
  have small: "(2::rat) powi (expo x - 53) < 2 powi ulp_expo x" using ux by simp
  then have "y < 2 powi (expo x + 1)" using half gaps(1) by linarith
  then have "(2::rat) powi expo y < 2 powi (expo x + 1)" using bounds_y(1) by linarith
  then have le: "expo y \<le> expo x" by simp
  have near: "\<bar>y - x\<bar> < 2 powi (ulp_expo y - 1)"
  proof (cases "expo y = expo x")
    case True
    then have "(2::rat) powi (expo x - 53) \<le> 2 powi (ulp_expo y - 1)" using uy by simp
    then show ?thesis using half by linarith
  next
    case False
    then have lt: "expo y + 1 \<le> expo x" using le by simp
    then have "(2::rat) powi (expo y + 1) \<le> 2 powi expo x" by simp
    then have "y < 2 powi expo x" using bounds_y(2) by linarith
    then have "x = 2 powi expo x" using gaps(2) half small by (cases "x = 2 powi expo x") linarith+
    then have "\<bar>y - x\<bar> < 2 powi expo x / 2 ^ 54" using assms(3) by simp
    also have "\<dots> = 2 powi (expo x - 54)" by (simp add: power_int_diff)
    finally have near: "\<bar>y - x\<bar> < 2 powi (expo x - 54)" .
    moreover have "(2::rat) powi (expo x - 54) \<le> 2 powi (expo x - 1)" by simp
    moreover have "(2::rat) powi expo x = 2 powi (expo x - 1) + 2 powi (expo x - 1)" by (simp add: power_int_diff)
    ultimately have "(2::rat) powi (expo x - 1) < 2 powi (expo y + 1)" using bx(1) bounds_y(2) by linarith
    then have "expo x - 54 \<le> ulp_expo y - 1" using lt uy by simp
    then have "(2::rat) powi (expo x - 54) \<le> 2 powi (ulp_expo y - 1)" by simp
    then show ?thesis using near by linarith
  qed
  obtain m where "x = of_int m * 2 powi ulp_expo x" using double_multiple[OF assms(1)] ..
  then have "\<exists>n. x = of_int n * 2 powi ulp_expo y" using powi2_multiple[of x m "ulp_expo x" "ulp_expo y"] le ux uy by simp
  then show ?thesis using y near by (auto intro: fl_near)
qed

section \<open>Seventeen digits\<close>

lemma digits_of_bounds:
  assumes "0 < n"
  shows "10 ^ (length (digits_of n) - 1) \<le> n" "n < 10 ^ length (digits_of n)"
proof -
  have "10 ^ (length (digits_of n) - 1) \<le> n \<and> n < 10 ^ length (digits_of n)" using assms
  proof (induction n rule: digits_of.induct)
    case (1 n)
    show ?case
    proof (cases "n < 10")
      case True
      then show ?thesis using 1(2) by (simp add: digits_of.simps[of n])
    next
      case False
      define p where "p = length (digits_of (n div 10))"
      have "0 < p" by (simp add: p_def)
      then obtain q where q: "p = Suc q" by (cases p) auto
      have "10 ^ q \<le> n div 10" "n div 10 < 10 ^ p" using 1(1)[OF False] False by (simp_all add: q flip: p_def)
      then have "10 ^ q * 10 \<le> n" "n < 10 ^ p * 10" by linarith+
      then show ?thesis using False by (simp add: digits_of.simps[of n] q flip: p_def)
    qed
  qed
  then show "10 ^ (length (digits_of n) - 1) \<le> n" "n < 10 ^ length (digits_of n)" by simp_all
qed

text \<open>The decimal exponent is a lower bound.\<close>

lemma expo10_le:
  assumes "0 < x"
  shows "10 powi expo10 x \<le> x"
proof (cases "1 \<le> x")
  case True
  let ?n = "length (digits_of \<lfloor>x\<rfloor>)"
  have n: "0 < \<lfloor>x\<rfloor>" using True by simp
  obtain q where q: "?n = Suc q" by (cases ?n) auto
  have e: "expo10 x = int (?n - 1)" using True by (simp add: expo10_def q)
  have "(10::rat) powi expo10 x = of_int (10 ^ (?n - 1))" unfolding e power_int_of_nat by simp
  also have "\<dots> \<le> of_int \<lfloor>x\<rfloor>" using digits_of_bounds(1)[OF n] unfolding of_int_le_iff .
  also have "\<dots> \<le> x" by simp
  finally show ?thesis .
next
  case False
  let ?N = "\<lceil>1 / x\<rceil> - 1"
  let ?n = "length (digits_of ?N)"
  have e: "expo10 x = - int ?n" using False by (simp add: expo10_def)
  have "1 < 1 / x" using False assms by simp
  then have "0 < ?N" by (simp add: less_ceiling_iff)
  then have "?N + 1 \<le> 10 ^ ?n" using digits_of_bounds(2)[of ?N] by linarith
  then have "\<lceil>1 / x\<rceil> \<le> 10 ^ ?n" by simp
  then have "1 / x \<le> of_int (10 ^ ?n)" by (simp only: ceiling_le_iff)
  then have "1 / x \<le> 10 ^ ?n" by simp
  then have "1 \<le> x * 10 ^ ?n" using assms by (simp add: divide_le_eq mult.commute)
  then show ?thesis unfolding e by (simp add: power_int_minus divide_le_eq field_simps)
qed

lemma shortest_at_Some:
  assumes "shortest_at x e n = Some (c, k)"
  shows "fl (of_int c * 10 powi k) = x" "k = e - int n + 1" "\<lfloor>x / 10 powi k\<rfloor> \<le> c"
  using assms by (auto simp: shortest_at_def Let_def split: if_splits)

lemma shortest_at_17:
  assumes "is_double x" "0 < x"
  shows "shortest_at x (expo10 x) 17 \<noteq> None"
proof -
  define k where "k = expo10 x - 16"
  define g where "g = (10::rat) powi k"
  define c where "c = \<lfloor>x / g\<rfloor>"
  have g: "0 < g" by (simp add: g_def)
  have "g * 10 ^ 16 \<le> x"
    using expo10_le[OF assms(2)] by (simp add: g_def k_def power_int_diff)
  then have small: "g / 2 < x / 2 ^ 54" using g by (simp add: field_simps)
  have c: "of_int c * g \<le> x" "x < (of_int c + 1) * g"
    using g floor_correct[of "x / g"] by (simp_all add: c_def pos_le_divide_eq[symmetric] pos_divide_less_eq[symmetric])
  have "fl (of_int c * g) = x \<or> fl (of_int (c + 1) * g) = x"
  proof (cases "x - of_int c * g \<le> g / 2")
    case True
    then have "\<bar>of_int c * g - x\<bar> < x / 2 ^ 54" using small c by linarith
    then show ?thesis using fl_relative[OF assms] by simp
  next
    case False
    have "of_int (c + 1) * g = of_int c * g + g" by (simp add: algebra_simps)
    then have "\<bar>of_int (c + 1) * g - x\<bar> < x / 2 ^ 54" using False small c(2) by (simp add: algebra_simps)
    then show ?thesis using fl_relative[OF assms] by simp
  qed
  then show ?thesis by (auto simp: shortest_at_def Let_def c_def g_def k_def)
qed

lemma first_some_Some: "first_some f xs = Some y \<Longrightarrow> \<exists>x \<in> set xs. f x = Some y"
  by (induction xs) (auto split: option.splits)

lemma first_some_None: "first_some f xs = None \<Longrightarrow> x \<in> set xs \<Longrightarrow> f x = None"
  by (induction xs) (auto split: option.splits)

lemma shortest_exists:
  assumes "is_double x" "0 < x"
  obtains c k where "first_some (shortest_at x (expo10 x)) [1..<18] = Some (c, k)"
    and "fl (of_int c * 10 powi k) = x" "0 < c"
proof (cases "first_some (shortest_at x (expo10 x)) [1..<18]")
  case None
  then have "shortest_at x (expo10 x) 17 = None" by (rule first_some_None) simp
  then show ?thesis using shortest_at_17[OF assms] by simp
next
  case (Some p)
  obtain c k where p: "p = (c, k)" by (cases p)
  obtain n where n: "1 \<le> n" "shortest_at x (expo10 x) n = Some (c, k)"
    using first_some_Some[OF Some] by (auto simp: p)
  have "k \<le> expo10 x" using shortest_at_Some(2)[OF n(2)] n(1) by simp
  then have "(10::rat) powi k \<le> 10 powi expo10 x" by (intro power_int_increasing) simp_all
  then have "10 powi k \<le> x" using expo10_le[OF assms(2)] by linarith
  then have "1 \<le> \<lfloor>x / 10 powi k\<rfloor>" by (simp add: le_floor_iff)
  then have "0 < c" using shortest_at_Some(3)[OF n(2)] by linarith
  then show ?thesis using that[of c k] Some p shortest_at_Some(1)[OF n(2)] by simp
qed

text \<open>What rounds to a double below \<open>2 ^ 1024\<close> is below the bound of overflow.\<close>

lemma fl_overflow_bound: "fl overflow_bound = 2 ^ 1024"
proof -
  have b: "overflow_bound = 2 powi 1024 - 2 powi 970" by (simp add: overflow_bound_def)
  have "(2::rat) powi 970 \<le> 2 powi 1023" "(2::rat) powi 1024 = 2 powi 1023 + 2 powi 1023" "0 < (2::rat) powi 970"
    by simp_all
  then have b: "2 powi 1023 \<le> overflow_bound" "overflow_bound < 2 powi (1023 + 1)" "0 < overflow_bound"
    unfolding b by simp_all
  have "expo overflow_bound = 1023" by (rule expo_unique[OF b(1,2)])
  then have u: "ulp_expo overflow_bound = 971" using b(3) by (simp add: ulp_expo_def)
  have q: "overflow_bound / 2 powi 971 = 18014398509481983 / 2" by (simp add: overflow_bound_def)
  have "\<lfloor>18014398509481983 / 2 :: rat\<rfloor> = 9007199254740991" by (rule floor_unique) simp_all
  then have r: "rne (18014398509481983 / 2) = 9007199254740992" by (simp add: rne_def)
  have "fl overflow_bound = of_int (rne (overflow_bound / 2 powi 971)) * 2 powi 971"
    using b(3) by (simp only: fl_def u) simp
  also have "\<dots> = of_int 9007199254740992 * 2 powi 971" by (simp only: q r)
  also have "\<dots> = 2 ^ 1024" by simp
  finally show ?thesis .
qed

lemma no_overflow: "fl y < 2 ^ 1024 \<Longrightarrow> y < overflow_bound"
  using fl_mono[of overflow_bound y] unfolding fl_overflow_bound by linarith

section \<open>Decimal texts\<close>

text \<open>An integer part, a fraction without its point, and an exponent with its sign\<close>

definition decimal_text :: "string \<Rightarrow> string \<Rightarrow> (bool \<times> string) option \<Rightarrow> string" where
  "decimal_text ip fp ex = ip @ (if fp = [] then [] else CHR ''.'' # fp) @
     (case ex of None \<Rightarrow> [] | Some (neg, es) \<Rightarrow> CHR ''e'' # (if neg then CHR ''-'' else CHR ''+'') # es)"

definition decimal_ok :: "string \<Rightarrow> string \<Rightarrow> (bool \<times> string) option \<Rightarrow> bool" where
  "decimal_ok ip fp ex \<longleftrightarrow> ip \<noteq> [] \<and> (hd ip = CHR ''0'' \<longrightarrow> ip = ''0'') \<and> list_all is_digit (ip @ fp) \<and>
     (case ex of None \<Rightarrow> fp \<noteq> [] | Some (neg, es) \<Rightarrow> es \<noteq> [] \<and> list_all is_digit es)"

definition decimal_exponent :: "string \<Rightarrow> (bool \<times> string) option \<Rightarrow> int" where
  "decimal_exponent fp ex =
     (case ex of None \<Rightarrow> 0 | Some (neg, es) \<Rightarrow> if neg then - digits_val es else digits_val es) - int (length fp)"

definition decimal_val :: "string \<Rightarrow> string \<Rightarrow> (bool \<times> string) option \<Rightarrow> rat" where
  "decimal_val ip fp ex = of_int (digits_val (ip @ fp)) * 10 powi decimal_exponent fp ex"

lemma no_digits [simp]: "\<not> is_digit CHR ''.''" "\<not> is_digit CHR ''e''" "\<not> is_digit CHR ''-''" "\<not> is_digit CHR ''+''"
  "is_digit CHR ''0''"
  by (simp_all add: is_digit_def)

lemma takeWhile_digits:
  assumes "list_all is_digit ds" "r = [] \<or> \<not> is_digit (hd r)"
  shows "takeWhile is_digit (ds @ r) = ds" "dropWhile is_digit (ds @ r) = r"
proof -
  have "takeWhile is_digit (ds @ r) = ds \<and> dropWhile is_digit (ds @ r) = r"
    using assms by (induction ds) (auto, (cases r; simp)+)
  then show "takeWhile is_digit (ds @ r) = ds" "dropWhile is_digit (ds @ r) = r" by simp_all
qed

lemma parse_exponent_text:
  assumes "case ex of None \<Rightarrow> True | Some (neg, es) \<Rightarrow> es \<noteq> [] \<and> list_all is_digit es"
  shows "parse_exponent (case ex of None \<Rightarrow> [] | Some (neg, es) \<Rightarrow> CHR ''e'' # (if neg then CHR ''-'' else CHR ''+'') # es) =
    Some (case ex of None \<Rightarrow> 0 | Some (neg, es) \<Rightarrow> if neg then - digits_val es else digits_val es)"
  using assms by (auto simp: parse_exponent_def sign_split_def split: option.splits)

lemma parse_decimal_text:
  assumes "decimal_ok ip fp ex"
  shows "parse_decimal (decimal_text ip fp ex) = Some (digits_val (ip @ fp), decimal_exponent fp ex)"
proof -
  define et where "et = (case ex of None \<Rightarrow> [] | Some (neg, es) \<Rightarrow> CHR ''e'' # (if neg then CHR ''-'' else CHR ''+'') # es)"
  have et: "et = [] \<or> hd et = CHR ''e''" by (auto simp: et_def split: option.splits)
  have p: "parse_exponent et = Some (decimal_exponent fp ex + int (length fp))"
    unfolding et_def decimal_exponent_def
    by (subst parse_exponent_text) (use assms in \<open>auto simp: decimal_ok_def split: option.splits\<close>)
  have d: "list_all is_digit ip" "list_all is_digit fp" "ip \<noteq> []" using assms by (simp_all add: decimal_ok_def)
  show ?thesis
  proof (cases "fp = []")
    case True
    have t: "decimal_text ip fp ex = ip @ et" by (simp add: decimal_text_def True et_def)
    have "(case et of [] \<Rightarrow> ([], et) | c # cs \<Rightarrow> if c = CHR ''.'' then (takeWhile is_digit cs, dropWhile is_digit cs) else ([], et)) =
        ([], et)"
      using et by (auto split: list.split)
    moreover have "et = [] \<or> \<not> is_digit (hd et)" using et by auto
    ultimately show ?thesis using p d True unfolding parse_decimal_def t by (simp add: takeWhile_digits)
  next
    case False
    have t: "decimal_text ip fp ex = ip @ CHR ''.'' # fp @ et" by (simp add: decimal_text_def False et_def)
    have "et = [] \<or> \<not> is_digit (hd et)" using et by auto
    then show ?thesis using p d unfolding parse_decimal_def t by (simp add: takeWhile_digits)
  qed
qed

lemma decimal_chars: "decimal_ok ip fp ex \<Longrightarrow> c \<in> set (decimal_text ip fp ex) \<Longrightarrow> is_digit c \<or> c \<in> set ''.e+-''"
  by (auto simp: decimal_ok_def decimal_text_def list_all_iff split: option.splits if_splits)

lemma decimal_ends:
  assumes "decimal_ok ip fp ex"
  shows "decimal_text ip fp ex \<noteq> []" "is_digit (hd (decimal_text ip fp ex))" "is_digit (last (decimal_text ip fp ex))"
proof -
  have d: "is_digit (last ds)" if "list_all is_digit ds" "ds \<noteq> []" for ds
    using that by (simp add: list_all_iff)
  show "decimal_text ip fp ex \<noteq> []" "is_digit (hd (decimal_text ip fp ex))"
    using assms by (cases ip; simp add: decimal_ok_def decimal_text_def)+
  show "is_digit (last (decimal_text ip fp ex))"
    using assms d by (auto simp: decimal_ok_def decimal_text_def last_append split: option.splits)
qed

lemma lower_digit: "is_digit c \<Longrightarrow> lower_char c = c"
  by (auto simp: lower_char_def is_digit_def Let_def)

text \<open>\<^verbatim>\<open>float\<close> of a decimal text, with and without a minus sign\<close>

lemma float_of_str_decimal:
  assumes "decimal_ok ip fp ex"
  shows "float_of_str ((if neg then ''-'' else []) @ decimal_text ip fp ex) = Some (float_of_mag neg (decimal_val ip fp ex))"
proof -
  define t where "t = decimal_text ip fp ex"
  note ends = decimal_ends[OF assms, folded t_def]
  have no: "CHR ''_'' \<notin> set t" using decimal_chars[OF assms, of "CHR ''_''"] by (auto simp: t_def is_digit_def)
  have s: "strip ((if neg then ''-'' else []) @ t) = (if neg then ''-'' else []) @ t"
    using ends by (intro strip_id) (auto simp: is_digit_facts minus_no_space)
  have u: "drop_underscores False ((if neg then ''-'' else []) @ t) = Some ((if neg then ''-'' else []) @ t)"
    using no by (intro drop_underscores_none) auto
  have g: "sign_split ((if neg then ''-'' else []) @ t) = (neg, t)"
    using ends(1,2) is_digit_facts by (cases t) (auto simp: sign_split_def)
  have l: "lower t \<noteq> c # cs" if "\<not> is_digit c" for c cs
    using ends(1,2) lower_digit that by (cases t) auto
  have w: "lower t \<noteq> ''inf''" "lower t \<noteq> ''infinity''" "lower t \<noteq> ''nan''" by (rule l; simp add: is_digit_def)+
  show ?thesis
    unfolding float_of_str_def t_def[symmetric] s u option.case g prod.case Let_def
    using parse_decimal_text[OF assms] w by (simp add: t_def decimal_val_def)
qed

section \<open>The text of a float\<close>

lemma digits_val_append: "digits_val (a @ b) = digits_val a * 10 ^ length b + digits_val b"
  by (induction b rule: rev_induct) (simp_all add: digits_val_def algebra_simps flip: append_assoc)

lemma digits_val_zeros [simp]: "digits_val (replicate n CHR ''0'') = 0"
  by (induction n) (simp_all add: digits_val_def)

lemma strip_zeros_split:
  assumes "ds \<noteq> []" "hd ds \<noteq> CHR ''0''"
  obtains z where "ds = strip_zeros ds @ replicate z CHR ''0''" "strip_zeros ds \<noteq> []" "hd (strip_zeros ds) \<noteq> CHR ''0''"
proof -
  define z where "z = length (takeWhile (\<lambda>c. c = CHR ''0'') (rev ds))"
  have "takeWhile (\<lambda>c. c = CHR ''0'') (rev ds) = replicate z CHR ''0''"
    unfolding z_def by (rule replicate_eqI) (auto dest: set_takeWhileD)
  then have "rev ds = replicate z CHR ''0'' @ rev (strip_zeros ds)"
    unfolding strip_zeros_def rev_rev_ident by (metis takeWhile_dropWhile_id)
  then have "rev (rev ds) = rev (replicate z CHR ''0'' @ rev (strip_zeros ds))" by (rule arg_cong)
  then have e: "ds = strip_zeros ds @ replicate z CHR ''0''" by simp
  have "strip_zeros ds \<noteq> []"
  proof
    assume "strip_zeros ds = []"
    with e have "ds = replicate z CHR ''0''" by simp
    then show False using assms by (cases z) auto
  qed
  moreover from this e assms(2) have "hd (strip_zeros ds) \<noteq> CHR ''0''" by (metis hd_append2)
  ultimately show ?thesis using that e by blast
qed

lemma decimal_valI:
  assumes "digits_val (ip @ fp) = l * 10 ^ z" "decimal_exponent fp ex = e - int z"
  shows "decimal_val ip fp ex = of_int l * 10 powi e"
  using assms by (simp add: decimal_val_def power_int_diff)

lemma pad2_digits: "0 \<le> n \<Longrightarrow> list_all is_digit (pad2 (digits_of n)) \<and> digits_val (pad2 (digits_of n)) = n \<and> pad2 (digits_of n) \<noteq> []"
  using digits_of_digits[of n] digits_val_append[of "''0''" "digits_of n"] digits_val_zeros[of 1]
  by (simp add: pad2_def)

lemma point_at_decimal:
  assumes d: "d \<noteq> []" "hd d \<noteq> CHR ''0''" "list_all is_digit d"
  shows "\<exists>ip fp ex. point_at d pt = decimal_text ip fp ex \<and> decimal_ok ip fp ex \<and>
     decimal_val ip fp ex = of_int (digits_val d) * 10 powi (pt - int (length d))"
proof -
  let ?z = "\<lambda>n. replicate n CHR ''0''"
  have z: "list_all is_digit (?z n)" for n by (simp add: list_all_iff)
  have td: "list_all is_digit (take n d)" "list_all is_digit (drop n d)" for n
    using d(3) by (auto simp: list_all_iff dest: in_set_takeD in_set_dropD)
  have ht: "take n d \<noteq> [] \<and> hd (take n d) \<noteq> CHR ''0''" if "0 < n" for n using d(1,2) that by (cases d) (auto simp: take_Cons')
  consider "- 4 < pt" "pt \<le> 0" | "0 < pt" "pt \<le> 16" "int (length d) \<le> pt" | "0 < pt" "pt \<le> 16" "pt < int (length d)"
    | "\<not> (- 4 < pt \<and> pt \<le> 16)" by linarith
  then show ?thesis
  proof cases
    case 1
    have "digits_val (''0'' @ ?z (nat (- pt)) @ d) = digits_val d * 10 ^ 0"
      using digits_val_append[of "?z (Suc (nat (- pt)))" d] digits_val_zeros[of "Suc (nat (- pt))"] by simp
    then show ?thesis
      using 1 d z by (intro exI[of _ "''0''"] exI[of _ "?z (nat (- pt)) @ d"] exI[of _ None] conjI decimal_valI[of _ _ _ 0])
        (simp_all add: point_at_def Let_def decimal_text_def decimal_ok_def decimal_exponent_def)
  next
    case 2
    define n where "n = nat (pt - int (length d))"
    have "(d @ ?z n) @ ''0'' = d @ ?z (Suc n)" by (simp add: replicate_append_same)
    then have "digits_val ((d @ ?z n) @ ''0'') = digits_val d * 10 ^ Suc n"
      by (simp only: digits_val_append digits_val_zeros length_replicate)
    then show ?thesis
      using 2 d z by (intro exI[of _ "d @ ?z n"] exI[of _ "''0''"] exI[of _ None] conjI decimal_valI[of _ _ _ "Suc n"])
        (simp_all add: point_at_def Let_def decimal_text_def decimal_ok_def decimal_exponent_def n_def)
  next
    case 3
    then show ?thesis
      using d td ht[of "nat pt"]
      by (intro exI[of _ "take (nat pt) d"] exI[of _ "drop (nat pt) d"] exI[of _ None] conjI decimal_valI[of _ _ _ 0])
        (simp_all add: point_at_def Let_def decimal_text_def decimal_ok_def decimal_exponent_def)
  next
    case 4
    have "(int (length d) = 1) = (drop 1 d = [])" using d(1) by (cases d) auto
    then show ?thesis
      using 4 d td[of 1] ht[of 1] pad2_digits[of "\<bar>pt - 1\<bar>"]
      by (intro exI[of _ "take 1 d"] exI[of _ "drop 1 d"] exI[of _ "Some (pt - 1 < 0, pad2 (digits_of \<bar>pt - 1\<bar>))"] conjI
          decimal_valI[of _ _ _ 0])
        (auto simp: point_at_def Let_def decimal_text_def decimal_ok_def decimal_exponent_def)
  qed
qed

text \<open>A finite float other than zero is written as a decimal that reads as that float.\<close>

lemma float_repr_decimal:
  assumes "double_ok (Fin x)" "x \<noteq> 0"
  shows "\<exists>ip fp ex. float_repr (Fin x) = (if x < 0 then ''-'' else []) @ decimal_text ip fp ex \<and> decimal_ok ip fp ex \<and>
     float_of_mag (x < 0) (decimal_val ip fp ex) = Fin x"
proof -
  let ?a = "\<bar>x\<bar>"
  have a: "is_double ?a" "0 < ?a" "?a < 2 ^ 1024" using assms by (auto simp: is_double_def abs_if fl_minus)
  obtain c k where ck: "first_some (shortest_at ?a (expo10 ?a)) [1..<18] = Some (c, k)"
      "fl (of_int c * 10 powi k) = ?a" "0 < c"
    using shortest_exists[OF a(1,2)] .
  let ?ds = "digits_of c"
  obtain z where z: "?ds = strip_zeros ?ds @ replicate z CHR ''0''" "strip_zeros ?ds \<noteq> []"
      "hd (strip_zeros ?ds) \<noteq> CHR ''0''"
    using strip_zeros_split[of ?ds] digits_of_hd[OF ck(3)] by auto
  have "list_all is_digit (strip_zeros ?ds @ replicate z CHR ''0'')"
    unfolding z(1)[symmetric] using ck(3) by (simp add: digits_of_digits)
  then have dig: "list_all is_digit (strip_zeros ?ds)" by simp
  have len: "length ?ds = length (strip_zeros ?ds) + z" by (subst z(1)) simp
  have "c = digits_val (strip_zeros ?ds @ replicate z CHR ''0'')" unfolding z(1)[symmetric] using ck(3) by simp
  then have c: "c = digits_val (strip_zeros ?ds) * 10 ^ z" by (simp add: digits_val_append)
  obtain ip fp ex where p: "point_at (strip_zeros ?ds) (int (length ?ds) + k) = decimal_text ip fp ex" "decimal_ok ip fp ex"
      "decimal_val ip fp ex = of_int (digits_val (strip_zeros ?ds)) * 10 powi (int (length ?ds) + k - int (length (strip_zeros ?ds)))"
    using point_at_decimal[OF z(2,3) dig] by blast
  have "decimal_val ip fp ex = of_int (digits_val (strip_zeros ?ds)) * 10 powi (int z + k)"
    unfolding p(3) by (simp add: len)
  also have "\<dots> = of_int c * 10 powi k"
    by (subst (2) c) (simp add: power_int_add)
  finally have v: "decimal_val ip fp ex = of_int c * 10 powi k" .
  have "float_repr_pos ?a = decimal_text ip fp ex" unfolding float_repr_pos_def ck(1) by (simp add: p(1))
  then have "float_repr (Fin x) = (if x < 0 then ''-'' else []) @ decimal_text ip fp ex"
    using assms(2) by (simp add: abs_if split: if_splits)
  moreover have "float_of_mag (x < 0) (decimal_val ip fp ex) = Fin x"
    using no_overflow[of "of_int c * 10 powi k"] a(3) assms(2) unfolding float_of_mag_def v ck(2) by auto
  ultimately show ?thesis using p(2) by blast
qed

text \<open>\<^verbatim>\<open>float(repr(x)) == x\<close>\<close>

lemma float_repr_reads: "double_ok f \<Longrightarrow> float_of_str (float_repr f) = Some f"
proof -
  assume ok: "double_ok f"
  have zero: "float_of_str ((if neg then ''-'' else []) @ ''0.0'') = Some (if neg then NegZero else Fin 0)" for neg
    using float_of_str_decimal[of "''0''" "''0''" None neg]
    by (simp add: decimal_text_def decimal_ok_def decimal_val_def float_of_mag_def overflow_bound_def digits_val_def)
  show ?thesis
  proof (cases f)
    case (Fin x)
    show ?thesis
    proof (cases "x = 0")
      case False
      then obtain ip fp ex where p: "float_repr (Fin x) = (if x < 0 then ''-'' else []) @ decimal_text ip fp ex"
          "decimal_ok ip fp ex" "float_of_mag (x < 0) (decimal_val ip fp ex) = Fin x"
        using float_repr_decimal[of x] ok unfolding Fin by blast
      show ?thesis unfolding Fin p(1) float_of_str_decimal[OF p(2)] p(3) ..
    qed (use zero[of False] in \<open>simp add: Fin\<close>)
  next
    case NegZero
    then show ?thesis using zero[of True] by simp
  qed (simp_all add: float_of_str_def strip_def is_space_def sign_split_def lower_char_def)
qed

end
