(* ===== verification/Json.thy ===== *)
theory Json
  imports FloatText Canonical
begin

text \<open>
  \<^verbatim>\<open>json.loads\<close> of the standard library, with which policy files and the cached bundle are read
  (policy_pac/loader.py, core/cache.py, cli.py), as CPython's scanner reads a text. The fuel of the
  recursion bounds the calls; \<open>json_loads_fuel\<close> proves the fuel given is enough. \<open>depth\<close> is
  the nesting Python's recursion limit allows. A text with an escape above U+00FF denotes a string
  outside the model and is \<open>Foreign\<close>. The messages and positions of errors, which nothing in
  the program reads, are left out.
\<close>

datatype json_error = Malformed | Too_long | Deep | Foreign | Fuel

type_synonym 'a scan = "json_error + ('a \<times> string)"

definition is_ws :: "char \<Rightarrow> bool" where
  "is_ws c = (let n = (of_char c :: nat) in n = 32 \<or> n = 9 \<or> n = 10 \<or> n = 13)"

definition skip_ws :: "string \<Rightarrow> string" where
  "skip_ws s = dropWhile is_ws s"

definition bindS :: "'a scan \<Rightarrow> ('a \<Rightarrow> string \<Rightarrow> 'b scan) \<Rightarrow> 'b scan" where
  "bindS m f = (case m of Inl e \<Rightarrow> Inl e | Inr p \<Rightarrow> f (fst p) (snd p))"

lemma bindS_simps [simp]: "bindS (Inl e) f = Inl e" "bindS (Inr (x, r)) f = f x r"
  by (simp_all add: bindS_def)

lemma bindS_cong [fundef_cong]:
  "m = m' \<Longrightarrow> (\<And>x r. m' = Inr (x, r) \<Longrightarrow> f x r = g x r) \<Longrightarrow> bindS m f = bindS m' g"
  by (cases m') (auto simp: bindS_def)

lemma bindS_Inr_iff: "bindS m f = Inr y \<longleftrightarrow> (\<exists>x r. m = Inr (x, r) \<and> f x r = Inr y)"
  by (cases m) (auto simp: bindS_def)

lemma bindS_Inl_iff: "bindS m f = Inl e \<longleftrightarrow> m = Inl e \<or> (\<exists>x r. m = Inr (x, r) \<and> f x r = Inl e)"
  by (cases m) (auto simp: bindS_def)

section \<open>Strings\<close>

definition hex_val :: "char \<Rightarrow> nat option" where
  "hex_val c = (let n = (of_char c :: nat) in
     if 48 \<le> n \<and> n \<le> 57 then Some (n - 48)
     else if 97 \<le> n \<and> n \<le> 102 then Some (n - 87)
     else if 65 \<le> n \<and> n \<le> 70 then Some (n - 55) else None)"

text \<open>The character an escape of one letter stands for.\<close>

definition unescape :: "char \<Rightarrow> char option" where
  "unescape c = (let n = (of_char c :: nat) in
     if n = 34 \<or> n = 92 \<or> n = 47 then Some c
     else if n = 98 then Some (char_of (8::nat))
     else if n = 102 then Some (char_of (12::nat))
     else if n = 110 then Some (char_of (10::nat))
     else if n = 114 then Some (char_of (13::nat))
     else if n = 116 then Some (char_of (9::nat)) else None)"

definition hex4 :: "string \<Rightarrow> nat option" where
  "hex4 ds = foldl (\<lambda>acc c. case (acc, hex_val c) of (Some m, Some k) \<Rightarrow> Some (16 * m + k) | _ \<Rightarrow> None) (Some 0) ds"

definition push :: "char \<Rightarrow> string scan \<Rightarrow> string scan" where
  "push x r = bindS r (\<lambda>s rest. Inr (x # s, rest))"

text \<open>What follows the opening quote, up to the closing one.\<close>

function scan_str :: "string \<Rightarrow> string scan" where
  "scan_str s = (case s of
     [] \<Rightarrow> Inl Malformed
   | c # cs \<Rightarrow>
       (if c = CHR 0x22 then Inr ([], cs)
        else if c = CHR 0x5C then
          (case cs of
             [] \<Rightarrow> Inl Malformed
           | d # ds \<Rightarrow>
               (if d = CHR ''u'' then
                  (if length ds < 4 then Inl Malformed
                   else case hex4 (take 4 ds) of
                     None \<Rightarrow> Inl Malformed
                   | Some m \<Rightarrow> if 255 < m then Inl Foreign else push (char_of m) (scan_str (drop 4 ds)))
                else case unescape d of None \<Rightarrow> Inl Malformed | Some x \<Rightarrow> push x (scan_str ds)))
        else if (of_char c :: nat) < 32 then Inl Malformed
        else push c (scan_str cs)))"
  by pat_completeness auto
termination
  by (relation "measure length") auto

declare scan_str.simps [simp del]

section \<open>Numbers\<close>

definition int_part :: "string \<Rightarrow> string" where
  "int_part u = (case u of [] \<Rightarrow> [] | c # cs \<Rightarrow> if c = CHR ''0'' then [c] else takeWhile is_digit u)"

definition frac_part :: "string \<Rightarrow> string" where
  "frac_part r = (case r of [] \<Rightarrow> [] | c # cs \<Rightarrow>
     if c = CHR ''.'' \<and> takeWhile is_digit cs \<noteq> [] then c # takeWhile is_digit cs else [])"

definition exp_part :: "string \<Rightarrow> string" where
  "exp_part r = (case r of [] \<Rightarrow> [] | c # cs \<Rightarrow>
     if c \<noteq> CHR ''e'' \<and> c \<noteq> CHR ''E'' then []
     else (let sg = (case cs of d # ds \<Rightarrow> if d = CHR ''+'' \<or> d = CHR ''-'' then [d] else [] | [] \<Rightarrow> []);
               ds = takeWhile is_digit (drop (length sg) cs)
           in if ds = [] then [] else c # sg @ ds))"

definition scan_number :: "string \<Rightarrow> pyval scan" where
  "scan_number s =
     (let neg = startswith s ''-'';
          u = (if neg then drop 1 s else s);
          ip = int_part u; r = drop (length ip) u;
          fr = frac_part r; r1 = drop (length fr) r;
          ex = exp_part r1; r2 = drop (length ex) r1
      in if ip = [] then Inl Malformed
         else if fr = [] \<and> ex = [] then
           (if max_str_digits < length ip then Inl Too_long
            else Inr (VInt (if neg then - digits_val ip else digits_val ip), r))
         else (case float_of_str ((if neg then ''-'' else []) @ ip @ fr @ ex) of
             None \<Rightarrow> Inl Malformed
           | Some f \<Rightarrow> Inr (VFloat f, r2)))"

section \<open>Values\<close>

text \<open>A literal word, or else a number.\<close>

definition scan_literal :: "string \<Rightarrow> pyval scan" where
  "scan_literal s =
     (if startswith s ''null'' then Inr (VNone, drop 4 s)
      else if startswith s ''true'' then Inr (VBool True, drop 4 s)
      else if startswith s ''false'' then Inr (VBool False, drop 5 s)
      else if startswith s ''NaN'' then Inr (VFloat NaN, drop 3 s)
      else if startswith s ''Infinity'' then Inr (VFloat PInf, drop 8 s)
      else if startswith s ''-Infinity'' then Inr (VFloat NInf, drop 9 s)
      else scan_number s)"

text \<open>Pairs are stored one after the other: a later value replaces an earlier one in its place.\<close>

definition dict_of_pairs :: "(string \<times> pyval) list \<Rightarrow> (string \<times> pyval) list" where
  "dict_of_pairs ps = foldl (\<lambda>d p. dict_set (fst p) (snd p) d) [] ps"

fun parse_value :: "nat \<Rightarrow> nat \<Rightarrow> string \<Rightarrow> pyval scan"
  and parse_items :: "nat \<Rightarrow> nat \<Rightarrow> string \<Rightarrow> pyval list scan"
  and parse_members :: "nat \<Rightarrow> nat \<Rightarrow> string \<Rightarrow> (string \<times> pyval) list scan"
where
  "parse_value 0 depth s = Inl Fuel"
| "parse_value (Suc n) depth s =
     (if startswith s [CHR 0x22] then bindS (scan_str (drop 1 s)) (\<lambda>k r. Inr (VStr k, r))
      else if startswith s ''['' then
        (if depth = 0 then Inl Deep
         else let t = skip_ws (drop 1 s) in
           if startswith t '']'' then Inr (VList [], drop 1 t)
           else bindS (parse_items n (depth - 1) t) (\<lambda>xs r. Inr (VList xs, r)))
      else if startswith s ''{'' then
        (if depth = 0 then Inl Deep
         else let t = skip_ws (drop 1 s) in
           if startswith t ''}'' then Inr (VDict [], drop 1 t)
           else bindS (parse_members n (depth - 1) t) (\<lambda>ps r. Inr (VDict (dict_of_pairs ps), r)))
      else scan_literal s)"
| "parse_items 0 depth s = Inl Fuel"
| "parse_items (Suc n) depth s =
     bindS (parse_value n depth s) (\<lambda>v r. let t = skip_ws r in
       if startswith t '']'' then Inr ([v], drop 1 t)
       else if startswith t '','' then bindS (parse_items n depth (skip_ws (drop 1 t))) (\<lambda>vs r. Inr (v # vs, r))
       else Inl Malformed)"
| "parse_members 0 depth s = Inl Fuel"
| "parse_members (Suc n) depth s =
     (if \<not> startswith s [CHR 0x22] then Inl Malformed
      else bindS (scan_str (drop 1 s)) (\<lambda>k r. let t = skip_ws r in
        if \<not> startswith t '':'' then Inl Malformed
        else bindS (parse_value n depth (skip_ws (drop 1 t))) (\<lambda>v r. let t = skip_ws r in
          if startswith t ''}'' then Inr ([(k, v)], drop 1 t)
          else if startswith t '','' then
            bindS (parse_members n depth (skip_ws (drop 1 t))) (\<lambda>ps r. Inr ((k, v) # ps, r))
          else Inl Malformed)))"

definition json_loads :: "nat \<Rightarrow> string \<Rightarrow> json_error + pyval" where
  "json_loads depth s = (let t = skip_ws s in
     case parse_value (2 * length t + 1) depth t of
       Inl e \<Rightarrow> Inl e
     | Inr (v, r) \<Rightarrow> if skip_ws r = [] then Inr v else Inl Malformed)"

section \<open>Every text is answered\<close>

lemma startswith_length: "startswith s p \<Longrightarrow> length p \<le> length s"
  by (auto simp: startswith_iff)

lemma skip_ws_length: "length (skip_ws s) \<le> length s"
  by (simp add: skip_ws_def length_dropWhile_le)

lemma scan_str_shorter: "scan_str s = Inr (k, r) \<Longrightarrow> length r < length s"
proof (induction "length s" arbitrary: s k r rule: less_induct)
  case less
  show ?case
  proof (cases s)
    case Nil
    then show ?thesis using less.prems by (simp add: scan_str.simps)
  next
    case (Cons c cs)
    have "(c = CHR 0x22 \<and> r = cs) \<or> (\<exists>x t. scan_str t = Inr (x, r) \<and> length t \<le> length cs)"
      using less.prems unfolding Cons scan_str.simps[of "c # cs"]
      by (fastforce simp: push_def bindS_Inr_iff split: if_splits list.splits option.splits)
    then show ?thesis
    proof (elim disjE exE)
      fix x t
      assume t: "scan_str t = Inr (x, r) \<and> length t \<le> length cs"
      then have "length r < length t" using less.hyps[of t x r] Cons by simp
      then show ?thesis using t Cons by simp
    qed (simp add: Cons)
  qed
qed

lemma scan_str_not_Fuel: "scan_str s \<noteq> Inl Fuel"
proof (induction s rule: scan_str.induct)
  case (1 s)
  show ?case
  proof (cases s)
    case Nil
    then show ?thesis by (simp add: scan_str.simps)
  next
    case (Cons c cs)
    show ?thesis
      unfolding Cons scan_str.simps[of "c # cs"]
      using 1[OF Cons] by (auto simp: push_def bindS_Inl_iff split: if_splits list.splits option.splits)
  qed
qed

lemma scan_literal_shorter: "scan_literal s = Inr (v, r) \<Longrightarrow> length r < length s"
proof -
  have num: "scan_number s = Inr (v, r) \<Longrightarrow> length r < length s"
  proof -
    assume a: "scan_number s = Inr (v, r)"
    define u where "u = (if startswith s ''-'' then drop 1 s else s)"
    have u: "length u \<le> length s" by (simp add: u_def)
    have ip: "int_part u \<noteq> []" using a by (auto simp: scan_number_def Let_def u_def split: if_splits)
    then have "u \<noteq> []" by (auto simp: int_part_def)
    then have "length (drop (length (int_part u)) u) < length u" using ip by simp
    moreover have "length r \<le> length (drop (length (int_part u)) u)"
      using a[unfolded scan_number_def Let_def, folded u_def] by (auto split: if_splits option.splits)
    ultimately show ?thesis using u by linarith
  qed
  assume "scan_literal s = Inr (v, r)"
  then show ?thesis
    using num by (auto simp: scan_literal_def dest: startswith_length split: if_splits)
qed

lemma scan_literal_not_Fuel: "scan_literal s \<noteq> Inl Fuel"
  by (auto simp: scan_literal_def scan_number_def Let_def split: option.splits)

text \<open>What is left of a text is shorter than the text.\<close>

lemma skip_drop_shorter: "startswith s (c # p) \<Longrightarrow> length (skip_ws (drop 1 s)) < length s"
  using skip_ws_length[of "drop 1 s"] by (cases s) auto

lemma parse_shorter:
  "(parse_value n depth s = Inr (v, r) \<longrightarrow> length r < length s)"
  "(parse_items n depth s = Inr (vs, r) \<longrightarrow> length r < length s)"
  "(parse_members n depth s = Inr (ps, r) \<longrightarrow> length r < length s)"
proof (induction n depth s and n depth s and n depth s arbitrary: v r and vs r and ps r
    rule: parse_value_parse_items_parse_members.induct)
  case (2 n depth s)
  have d: "length (drop 1 (skip_ws (drop 1 s))) < length s" if "startswith s [c]" for c
    using skip_drop_shorter[OF that] by simp
  have str: "length r < length s" if "scan_str (drop 1 s) = Inr (k, r)" for k
    using scan_str_shorter[OF that] by simp
  show ?case
    using 2 d str skip_drop_shorter[of s "CHR ''[''" "[]"] skip_drop_shorter[of s "CHR ''{''" "[]"]
    by (fastforce simp: Let_def bindS_Inr_iff dest: scan_literal_shorter split: if_splits)
next
  case (4 n depth s)
  show ?case
  proof (intro impI)
    assume "parse_items (Suc n) depth s = Inr (vs, r)"
    then obtain w q where w: "parse_value n depth s = Inr (w, q)" and
      q: "(let t = skip_ws q in
       if startswith t '']'' then Inr ([w], drop 1 t)
       else if startswith t '','' then bindS (parse_items n depth (skip_ws (drop 1 t))) (\<lambda>vs r. Inr (w # vs, r))
       else Inl Malformed) = Inr (vs, r)" by (auto simp: bindS_Inr_iff)
    have "length q < length s" using 4(1) w by blast
    moreover have "length r \<le> length (skip_ws q)"
      using q 4(2)[OF w refl] skip_drop_shorter[of "skip_ws q" "CHR '',''" "[]"]
      by (fastforce simp: Let_def bindS_Inr_iff split: if_splits)
    ultimately show "length r < length s" using skip_ws_length[of q] by linarith
  qed
next
  case (6 n depth s)
  show ?case
  proof (intro impI)
    assume a: "parse_members (Suc n) depth s = Inr (ps, r)"
    then obtain k q where k: "startswith s [CHR 0x22]" "scan_str (drop 1 s) = Inr (k, q)" "startswith (skip_ws q) '':''"
      by (auto simp: bindS_Inr_iff Let_def split: if_splits)
    obtain v w where v: "parse_value n depth (skip_ws (drop 1 (skip_ws q))) = Inr (v, w)" and
      w: "(let t = skip_ws w in
          if startswith t ''}'' then Inr ([(k, v)], drop 1 t)
          else if startswith t '','' then
            bindS (parse_members n depth (skip_ws (drop 1 t))) (\<lambda>ps r. Inr ((k, v) # ps, r))
          else Inl Malformed) = Inr (ps, r)"
      using a k by (auto simp: bindS_Inr_iff Let_def)
    have "length q < length s" using scan_str_shorter[OF k(2)] by simp
    moreover have "length w < length (skip_ws (drop 1 (skip_ws q)))" using 6(1)[OF _ k(2) refl] k v by simp
    moreover have "length r \<le> length (skip_ws w)"
      using w 6(2)[OF _ k(2) refl _ v refl] k skip_drop_shorter[of "skip_ws w" "CHR '',''" "[]"]
      by (fastforce simp: Let_def bindS_Inr_iff split: if_splits)
    ultimately show "length r < length s"
      using skip_ws_length[of q] skip_ws_length[of w] skip_ws_length[of "drop 1 (skip_ws q)"] by simp
  qed
qed simp_all

text \<open>Fuel of twice the length is enough.\<close>

lemma parse_fuel:
  "2 * length s + 1 \<le> n \<Longrightarrow> parse_value n depth s \<noteq> Inl Fuel"
  "2 * length s + 2 \<le> n \<Longrightarrow> parse_items n depth s \<noteq> Inl Fuel"
  "2 * length s + 2 \<le> n \<Longrightarrow> parse_members n depth s \<noteq> Inl Fuel"
proof (induction n depth s and n depth s and n depth s rule: parse_value_parse_items_parse_members.induct)
  case (2 n depth s)
  have i: "parse_items n (depth - 1) (skip_ws (drop 1 s)) \<noteq> Inl Fuel" if "startswith s ''[''" "depth \<noteq> 0" "\<not> startswith (skip_ws (drop 1 s)) '']''"
    using 2(1)[OF _ that(1,2) refl that(3)] 2(3) skip_drop_shorter[OF that(1)] that by (cases s) auto
  have m: "parse_members n (depth - 1) (skip_ws (drop 1 s)) \<noteq> Inl Fuel" if "startswith s ''{''" "depth \<noteq> 0" "\<not> startswith (skip_ws (drop 1 s)) ''}''"
    using 2(2)[OF _ _ that(1,2) refl that(3)] 2(3) skip_drop_shorter[OF that(1)] that by (cases s) auto
  show ?case
    using i m by (auto simp: Let_def bindS_Inl_iff scan_str_not_Fuel scan_literal_not_Fuel)
next
  case (4 n depth s)
  have v: "parse_value n depth s \<noteq> Inl Fuel" using 4(1,3) by simp
  have i: "parse_items n depth (skip_ws (drop 1 (skip_ws q))) \<noteq> Inl Fuel"
    if "parse_value n depth s = Inr (x, q)" "\<not> startswith (skip_ws q) '']''" "startswith (skip_ws q) '',''" for x q
    using 4(2)[OF that(1) refl that(2,3)] 4(3) skip_drop_shorter[OF that(3)] skip_ws_length[of q]
      parse_shorter(1)[of n depth s x q] that(1) by simp
  show ?case using v i by (auto simp: Let_def bindS_Inl_iff)
next
  case (6 n depth s)
  have short: "length (skip_ws (drop 1 (skip_ws q))) < length s"
    if "scan_str (drop 1 s) = Inr (k, q)" "startswith (skip_ws q) '':''" for k q
    using scan_str_shorter[OF that(1)] skip_drop_shorter[OF that(2)] skip_ws_length[of q] by simp
  have v: "parse_value n depth (skip_ws (drop 1 (skip_ws q))) \<noteq> Inl Fuel"
    if "startswith s [CHR 0x22]" "scan_str (drop 1 s) = Inr (k, q)" "startswith (skip_ws q) '':''" for k q
    using 6(1)[OF _ that(2) refl] short[OF that(2,3)] 6(3) that by simp
  have i: "parse_members n depth (skip_ws (drop 1 (skip_ws w))) \<noteq> Inl Fuel"
    if "startswith s [CHR 0x22]" "scan_str (drop 1 s) = Inr (k, q)" "startswith (skip_ws q) '':''"
      "parse_value n depth (skip_ws (drop 1 (skip_ws q))) = Inr (x, w)" "\<not> startswith (skip_ws w) ''}''"
      "startswith (skip_ws w) '',''" for k q x w
    using 6(2)[OF _ that(2) refl _ that(4) refl that(5,6)] that short[OF that(2,3)] 6(3) skip_drop_shorter[OF that(6)]
      skip_ws_length[of w] parse_shorter(1)[of n depth "skip_ws (drop 1 (skip_ws q))" x w] by simp
  show ?case
    using v i by (auto simp: Let_def bindS_Inl_iff scan_str_not_Fuel)
qed simp_all

lemma json_loads_fuel: "json_loads depth s \<noteq> Inl Fuel"
  using parse_fuel(1)[of "skip_ws s" "2 * length (skip_ws s) + 1" depth]
  by (auto simp: json_loads_def Let_def split: sum.splits if_splits)

section \<open>Reading back what was written\<close>

text \<open>What may follow a value inside a text that \<open>dumps_compact\<close> writes.\<close>

definition ends :: "string \<Rightarrow> bool" where
  "ends rest \<longleftrightarrow> rest = [] \<or> hd rest \<in> {CHR '','', CHR '']'', CHR ''}''}"

lemma ends_simps [simp]: "ends []" "ends (c # r) \<longleftrightarrow> c \<in> {CHR '','', CHR '']'', CHR ''}''}"
  by (simp_all add: ends_def)

lemma punctuation_no_digit [simp]: "\<not> is_digit CHR '',''" "\<not> is_digit CHR '']''" "\<not> is_digit CHR ''}''"
  by (simp_all add: is_digit_def)

lemma takeWhile_ends: "ends rest \<Longrightarrow> takeWhile is_digit (x @ rest) = takeWhile is_digit x"
  by (cases rest; induction x) auto

lemma int_part_ends: "ends rest \<Longrightarrow> u \<noteq> [] \<Longrightarrow> int_part (u @ rest) = int_part u"
  using takeWhile_ends[of rest u] by (cases u) (auto simp: int_part_def)

lemma frac_part_ends: "ends rest \<Longrightarrow> frac_part (r @ rest) = frac_part r"
  using takeWhile_ends[of rest "tl r"] by (cases r; cases rest) (auto simp: frac_part_def)

lemma exp_part_ends: "ends rest \<Longrightarrow> exp_part (r @ rest) = exp_part r"
proof (cases r)
  case Nil
  assume "ends rest"
  then show ?thesis using Nil by (cases rest) (auto simp: exp_part_def)
next
  case (Cons c cs)
  assume e: "ends rest"
  show ?thesis
  proof (cases cs)
    case Nil
    with e Cons show ?thesis by (cases rest) (auto simp: exp_part_def is_digit_def)
  next
    case (Cons d ds)
    with e \<open>r = c # cs\<close> show ?thesis
      using takeWhile_ends[OF e, of ds] takeWhile_ends[OF e, of "d # ds"] by (auto simp: exp_part_def Let_def)
  qed
qed

lemma part_lengths:
  "length (int_part u) \<le> length u" "length (frac_part r) \<le> length r" "length (exp_part r) \<le> length r"
proof -
  show "length (int_part u) \<le> length u"
    by (cases u) (auto simp: int_part_def length_takeWhile_le le_SucI)
  show "length (frac_part r) \<le> length r"
    by (cases r) (auto simp: frac_part_def length_takeWhile_le)
  have t: "length (takeWhile is_digit (drop n cs)) \<le> length cs - n" for n and cs :: string
    using length_takeWhile_le[of is_digit "drop n cs"] by simp
  show "length (exp_part r) \<le> length r"
    using t[of 1 "tl r"] t[of 0 "tl r"] by (auto simp: exp_part_def Let_def split: list.split)
qed

text \<open>A number read to the end of its text is read the same way when more follows.\<close>

lemma scan_number_ends:
  assumes "scan_number t = Inr (v, [])" "ends rest"
  shows "scan_number (t @ rest) = Inr (v, rest)"
proof -
  define u where "u = (if startswith t ''-'' then drop 1 t else t)"
  have u: "int_part u \<noteq> []" "u \<noteq> []"
    using assms(1) by (auto simp: scan_number_def Let_def u_def int_part_def split: if_splits)
  then have t: "t \<noteq> []" by (auto simp: u_def split: if_splits)
  have neg: "startswith (t @ rest) ''-'' = startswith t ''-''" using t by (cases t) auto
  have ur: "(if startswith (t @ rest) ''-'' then drop 1 (t @ rest) else t @ rest) = u @ rest"
    unfolding neg using t by (cases t) (auto simp: u_def)
  have d: "drop (length p) (x @ rest) = drop (length p) x @ rest" if "length p \<le> length x" for p x :: string
    using that by simp
  show ?thesis
    using assms(1)[unfolded scan_number_def Let_def, folded u_def]
    unfolding scan_number_def Let_def ur unfolding neg int_part_ends[OF assms(2) u(2)] d[OF part_lengths(1)]
      frac_part_ends[OF assms(2)] d[OF part_lengths(2)] exp_part_ends[OF assms(2)] d[OF part_lengths(3)]
    by (auto split: if_splits option.splits)
qed

lemma int_part_digit: "int_part u \<noteq> [] \<Longrightarrow> is_digit (hd u)"
  by (cases u) (auto simp: int_part_def is_digit_def split: if_splits)

lemma scan_literal_number:
  assumes "scan_number t = Inr (v, [])" "ends rest"
  shows "scan_literal (t @ rest) = Inr (v, rest)"
proof -
  define u where "u = (if startswith t ''-'' then drop 1 t else t)"
  have ip: "int_part u \<noteq> []"
    using assms(1) by (auto simp: scan_number_def Let_def u_def split: if_splits)
  then have "u \<noteq> []" by (auto simp: int_part_def)
  then obtain c cs where u: "u = c # cs" "is_digit c" using int_part_digit[OF ip] by (cases u) auto
  have t: "t = (if startswith t ''-'' then CHR ''-'' # u else u)" by (cases t) (auto simp: u_def)
  have "\<not> startswith (t @ rest) p"
    if "p \<in> {''null'', ''true'', ''false'', ''NaN'', ''Infinity'', ''-Infinity''}" for p
    using that u by (cases "startswith t ''-''"; subst t) (auto simp: is_digit_def)
  then show ?thesis using scan_number_ends[OF assms] by (simp add: scan_literal_def)
qed

lemma number_start: "scan_number t = Inr (v, r) \<Longrightarrow> t \<noteq> [] \<and> (is_digit (hd t) \<or> hd t = CHR ''-'')"
proof -
  assume a: "scan_number t = Inr (v, r)"
  define u where "u = (if startswith t ''-'' then drop 1 t else t)"
  have ip: "int_part u \<noteq> []" using a by (auto simp: scan_number_def Let_def u_def split: if_splits)
  then show ?thesis using int_part_digit[OF ip] by (cases t) (auto simp: u_def int_part_def split: if_splits)
qed

lemma int_part_digits:
  assumes "0 \<le> n"
  shows "int_part (digits_of n) = digits_of n"
proof (cases "n = 0")
  case True
  then show ?thesis by (simp add: int_part_def)
next
  case False
  have all: "takeWhile is_digit (digits_of n) = digits_of n"
    using digits_of_digits[OF assms] by (simp add: takeWhile_eq_all_conv list_all_iff)
  show ?thesis
    using False assms digits_of_hd[of n] all digits_of_not_Nil[of n] by (cases "digits_of n") (auto simp: int_part_def)
qed

lemma scan_number_int:
  assumes "length (digits_of \<bar>i\<bar>) \<le> max_str_digits"
  shows "scan_number (str_int i) = Inr (VInt i, [])"
proof -
  have "hd (digits_of \<bar>i\<bar>) \<noteq> CHR ''-''"
    using digits_of_digits[of "\<bar>i\<bar>"] is_digit_facts(3) by (cases "digits_of \<bar>i\<bar>") auto
  then have neg: "startswith (str_int i) ''-'' = (i < 0)"
    by (cases "i < 0"; cases "digits_of \<bar>i\<bar>") (simp_all add: str_int_def)
  have u: "(if i < 0 then drop 1 (str_int i) else str_int i) = digits_of \<bar>i\<bar>" by (simp add: str_int_def)
  show ?thesis
    unfolding scan_number_def Let_def neg u int_part_digits[OF abs_ge_zero] using assms
    by (simp add: frac_part_def exp_part_def)
qed

text \<open>The text of a float other than an infinity or nan.\<close>

lemma number_parts_decimal:
  assumes "decimal_ok ip fp ex"
  defines "fr \<equiv> if fp = [] then [] else CHR ''.'' # fp"
    and "et \<equiv> case ex of None \<Rightarrow> [] | Some (neg, es) \<Rightarrow> CHR ''e'' # (if neg then CHR ''-'' else CHR ''+'') # es"
  shows "int_part (ip @ fr @ et) = ip" "frac_part (fr @ et) = fr" "exp_part et = et" "fr \<noteq> [] \<or> et \<noteq> []"
proof -
  have d: "ip \<noteq> []" "list_all is_digit ip" "list_all is_digit fp" "hd ip = CHR ''0'' \<longrightarrow> ip = ''0''"
    using assms(1) by (simp_all add: decimal_ok_def)
  have et: "et = [] \<or> hd et = CHR ''e''" by (auto simp: et_def split: option.splits)
  then have rest: "fr @ et = [] \<or> \<not> is_digit (hd (fr @ et))" "et = [] \<or> \<not> is_digit (hd et)" by (auto simp: fr_def)
  show "int_part (ip @ fr @ et) = ip"
    using d takeWhile_digits(1)[OF d(2) rest(1)] by (cases ip) (auto simp: int_part_def)
  show "frac_part (fr @ et) = fr"
    using takeWhile_digits(1)[OF d(3) rest(2)] et by (auto simp: frac_part_def fr_def split: list.split)
  have tw: "takeWhile is_digit es = es" if "list_all is_digit es" for es
    using that by (simp add: takeWhile_eq_all_conv list_all_iff)
  show "exp_part et = et" "fr \<noteq> [] \<or> et \<noteq> []"
    using assms(1) by (auto simp: tw list_all_iff exp_part_def et_def fr_def decimal_ok_def Let_def split: option.splits)
qed

lemma scan_number_decimal:
  assumes "decimal_ok ip fp ex"
  shows "scan_number ((if neg then ''-'' else []) @ decimal_text ip fp ex) =
    Inr (VFloat (float_of_mag neg (decimal_val ip fp ex)), [])"
proof -
  note p = number_parts_decimal[OF assms]
  have t: "startswith ((if neg then ''-'' else []) @ decimal_text ip fp ex) ''-'' = neg"
    using decimal_ends(1,2)[OF assms] by (cases "decimal_text ip fp ex") auto
  have u: "(if neg then drop 1 ((if neg then ''-'' else []) @ s) else (if neg then ''-'' else []) @ s) = s" for s
    by simp
  have ip: "ip \<noteq> []" using assms by (simp add: decimal_ok_def)
  show ?thesis
    unfolding scan_number_def Let_def t u
    using p ip float_of_str_decimal[OF assms, of neg] unfolding decimal_text_def by simp
qed

lemma scan_number_float:
  assumes "double_ok f" "f \<notin> {PInf, NInf, NaN}"
  shows "scan_number (float_repr f) = Inr (VFloat f, [])"
proof -
  have zero: "scan_number ((if neg then ''-'' else []) @ ''0.0'') = Inr (VFloat (if neg then NegZero else Fin 0), [])" for neg
    using scan_number_decimal[of "''0''" "''0''" None neg]
    by (simp add: decimal_text_def decimal_ok_def decimal_val_def float_of_mag_def overflow_bound_def digits_val_def)
  show ?thesis
  proof (cases f)
    case (Fin x)
    show ?thesis
    proof (cases "x = 0")
      case False
      then obtain ip fp ex where p: "float_repr (Fin x) = (if x < 0 then ''-'' else []) @ decimal_text ip fp ex"
          "decimal_ok ip fp ex" "float_of_mag (x < 0) (decimal_val ip fp ex) = Fin x"
        using float_repr_decimal[of x] assms(1) unfolding Fin by blast
      show ?thesis unfolding Fin p(1) scan_number_decimal[OF p(2)] p(3) ..
    qed (use zero[of False] in \<open>simp add: Fin\<close>)
  qed (use assms(2) zero[of True] in simp_all)
qed

text \<open>A string, character by character.\<close>

lemma scan_str_quote: "scan_str (CHR 0x22 # r) = Inr ([], r)"
  unfolding scan_str.simps[of "CHR 0x22 # r"] by simp

lemma scan_str_letter: "unescape d = Some x \<Longrightarrow> scan_str (CHR 0x5C # d # r) = push x (scan_str r)"
proof -
  assume u: "unescape d = Some x"
  have "unescape CHR ''u'' = None" by (simp add: unescape_def)
  with u have "d \<noteq> CHR ''u''" by auto
  with u show ?thesis unfolding scan_str.simps[of "CHR 0x5C # d # r"] by simp
qed

lemma scan_str_hex:
  "length ds = 4 \<Longrightarrow> hex4 ds = Some m \<Longrightarrow> m \<le> 255 \<Longrightarrow> scan_str (CHR 0x5C # CHR ''u'' # ds @ r) = push (char_of m) (scan_str r)"
  unfolding scan_str.simps[of "CHR 0x5C # CHR ''u'' # ds @ r"] by simp

lemma scan_str_plain:
  "c \<noteq> CHR 0x22 \<Longrightarrow> c \<noteq> CHR 0x5C \<Longrightarrow> 32 \<le> (of_char c :: nat) \<Longrightarrow> scan_str (c # r) = push c (scan_str r)"
  unfolding scan_str.simps[of "c # r"] by simp

lemma hex_val_digit: "k < 16 \<Longrightarrow> hex_val (hex_digit k) = Some k"
  by (auto simp: hex_val_def hex_digit_def Let_def)

lemma hex4_hex2: "hex4 (''00'' @ hex2 c) = Some (of_char c)"
proof -
  have z: "hex_val CHR ''0'' = Some 0" by (simp add: hex_val_def)
  have "(of_char c :: nat) < 256" by simp
  then have "(of_char c :: nat) div 16 < 16" by linarith
  then have "hex_val (hex_digit (of_char c div 16)) = Some (of_char c div 16)"
    "hex_val (hex_digit (of_char c mod 16)) = Some (of_char c mod 16)"
    by (simp_all add: hex_val_digit)
  then show ?thesis by (simp add: hex4_def hex2_def Let_def z)
qed

lemma scan_str_char: "scan_str (json_char_utf8 c @ r) = push c (scan_str r)"
proof -
  define n where "n = (of_char c :: nat)"
  then have oc: "(of_char c :: nat) = n" and n: "c = char_of n" "n < 256" by simp_all
  have bs: "(char_of (92::nat) :: char) = CHR 0x5C" by (simp add: char_of_eq_iff)
  have plain: "scan_str (c # r) = push c (scan_str r)" if "32 \<le> n" "n \<noteq> 34" "n \<noteq> 92"
  proof (rule scan_str_plain)
    show "c \<noteq> CHR 0x22" "c \<noteq> CHR 0x5C" using that oc by auto
    show "32 \<le> (of_char c :: nat)" using that oc by simp
  qed
  have letter: "scan_str (CHR 0x5C # d # r) = push c (scan_str r)" if "unescape d = Some c" for d
    by (rule scan_str_letter[OF that])
  have control: "scan_str (CHR 0x5C # CHR ''u'' # (''00'' @ hex2 c) @ r) = push c (scan_str r)"
    using scan_str_hex[of "''00'' @ hex2 c" "of_char c" r, OF _ hex4_hex2] oc n by (simp add: hex2_def Let_def)
  consider "n = 34 \<or> n = 92" | "n = 10" | "n = 13" | "n = 9" | "n = 12" | "n = 8"
    | "n < 32" "n \<notin> {10, 13, 9, 12, 8}" | "32 \<le> n" "n \<noteq> 34" "n \<noteq> 92" by force
  then show ?thesis
  proof cases
    case 1
    then have "unescape c = Some c" by (auto simp: unescape_def oc)
    then show ?thesis using letter 1 by (auto simp: json_char_utf8_def json_char_def Let_def oc bs)
  next
    case 7
    then show ?thesis using control by (simp add: json_char_utf8_def json_char_def Let_def oc bs)
  next
    case 8
    then show ?thesis using plain by (simp add: json_char_utf8_def json_char_def Let_def oc)
  qed (use letter n(1) in \<open>simp_all add: json_char_utf8_def json_char_def Let_def oc bs unescape_def\<close>)
qed

lemma scan_str_json: "scan_str (concat (map json_char_utf8 s) @ CHR 0x22 # r) = Inr (s, r)"
  by (induction s) (simp_all add: scan_str_quote scan_str_char push_def)

text \<open>A document as it is read back: the keys of every dictionary sorted.\<close>

fun canon :: "pyval \<Rightarrow> pyval" where
  "canon (VList xs) = VList (map canon xs)"
| "canon (VDict d) = VDict (sort_key fst (map (\<lambda>(k, v). (k, canon v)) d))"
| "canon v = v"

text \<open>
  What can be read back: keys are distinct, integers not longer than Python converts, floats that
  are doubles, infinities or nan, and the nesting within the recursion limit.
\<close>

fun json_ok :: "nat \<Rightarrow> pyval \<Rightarrow> bool" where
  "json_ok depth (VInt i) \<longleftrightarrow> length (digits_of \<bar>i\<bar>) \<le> max_str_digits"
| "json_ok depth (VFloat f) \<longleftrightarrow> double_ok f"
| "json_ok depth (VList xs) \<longleftrightarrow> 0 < depth \<and> (\<forall>x \<in> set xs. json_ok (depth - 1) x)"
| "json_ok depth (VDict d) \<longleftrightarrow> 0 < depth \<and> distinct (map fst d) \<and> (\<forall>p \<in> set d. json_ok (depth - 1) (snd p))"
| "json_ok depth v \<longleftrightarrow> True"

lemma sort_key_map_snd:
  "sort_key fst (map (\<lambda>(k, v). (k, f v)) d) = map (\<lambda>(k, v). (k, f v)) (sort_key fst d)"
proof (induction d)
  case (Cons p d)
  have "insort_key fst (k, f v) (map (\<lambda>(k, v). (k, f v)) e) = map (\<lambda>(k, v). (k, f v)) (insort_key fst (k, v) e)" for k v e
    by (induction e) auto
  then show ?case using Cons by (cases p) simp
qed simp

text \<open>A dictionary as it is read back from its canonical bytes: sorted by key, at every depth.\<close>

definition normal_dict :: "(string \<times> pyval) list \<Rightarrow> (string \<times> pyval) list" where
  "normal_dict d = sort_key fst (map (\<lambda>(k, v). (k, canon v)) d)"

lemma canon_dict: "canon (VDict d) = VDict (normal_dict d)"
  by (simp add: normal_dict_def)

lemma map_of_normal:
  assumes "distinct (map fst d)"
  shows "map_of (normal_dict d) k = map_option canon (map_of d k)"
proof -
  let ?e = "map (\<lambda>(k, v). (k, canon v)) d"
  have keys: "map fst ?e = map fst d" by (induction d) auto
  have "distinct (map fst ?e)" unfolding keys by (rule assms)
  moreover have "mset (map fst (normal_dict d)) = mset (map fst ?e)" by (simp only: normal_dict_def mset_map mset_sort)
  ultimately have e: "distinct (map fst ?e)" "distinct (map fst (normal_dict d))"
    by (metis mset_eq_imp_distinct_iff)+
  have "map_of (normal_dict d) = map_of ?e"
    by (subst map_of_inject_set[OF e(2,1)]) (simp add: normal_dict_def)
  then show ?thesis by (simp add: map_of_map)
qed

lemma dict_of_pairs_distinct: "distinct (map fst ps) \<Longrightarrow> dict_of_pairs ps = ps"
proof (induction ps rule: rev_induct)
  case (snoc p ps)
  have "AList.update (fst p) (snd p) d = d @ [p]" if "fst p \<notin> fst ` set d" for d :: "(string \<times> pyval) list"
    using that by (induction d) auto
  then show ?case using snoc by (auto simp: dict_of_pairs_def)
qed (simp add: dict_of_pairs_def)

lemma skip_ws_start [simp]: "\<not> is_ws c \<Longrightarrow> skip_ws (c # cs) = c # cs" "skip_ws [] = []"
  by (simp_all add: skip_ws_def)

lemma no_ws [simp]:
  "\<not> is_ws CHR '',''" "\<not> is_ws CHR '']''" "\<not> is_ws CHR ''}''" "\<not> is_ws CHR 0x22" "\<not> is_ws CHR '':''"
  "\<not> is_ws CHR ''[''" "\<not> is_ws CHR ''{''" "\<not> is_ws CHR ''n''" "\<not> is_ws CHR ''t''" "\<not> is_ws CHR ''f''"
  "\<not> is_ws CHR ''N''" "\<not> is_ws CHR ''I''" "\<not> is_ws CHR ''-''" "is_digit c \<Longrightarrow> \<not> is_ws c"
  by (auto simp: is_ws_def is_digit_def Let_def)

lemma text_start: "json_ok depth v \<Longrightarrow> \<exists>c cs. dumps_compact v = c # cs \<and> \<not> is_ws c \<and> c \<noteq> CHR '']''"
proof -
  assume ok: "json_ok depth v"
  have num: "\<exists>c cs. t = c # cs \<and> \<not> is_ws c \<and> c \<noteq> CHR '']''" if "scan_number t = Inr (w, [])" for t w
    using number_start[OF that] by (cases t) (auto simp: is_digit_def is_ws_def Let_def)
  show ?thesis
  proof (cases v)
    case (VInt i)
    then show ?thesis using ok num[OF scan_number_int] by simp
  next
    case (VFloat f)
    then show ?thesis using ok num[OF scan_number_float[of f]] by (cases f) auto
  qed (auto simp: json_str_utf8_def)
qed

lemma parse_items_join:
  assumes "xs \<noteq> []"
    and "\<And>x rest n. x \<in> set xs \<Longrightarrow> ends rest \<Longrightarrow> 2 * length (f x @ rest) + 1 \<le> n \<Longrightarrow> parse_value n depth (f x @ rest) = Inr (g x, rest)"
    and "\<And>x. x \<in> set xs \<Longrightarrow> \<exists>c cs. f x = c # cs \<and> \<not> is_ws c"
    and "2 * length (join '','' (map f xs) @ CHR '']'' # rest) + 2 \<le> n"
  shows "parse_items n depth (join '','' (map f xs) @ CHR '']'' # rest) = Inr (map g xs, rest)"
  using assms
proof (induction xs arbitrary: n)
  case (Cons x xs)
  obtain m where m: "n = Suc m" using Cons.prems(4) by (cases n) auto
  show ?case
  proof (cases xs)
    case Nil
    have "parse_value m depth (f x @ CHR '']'' # rest) = Inr (g x, CHR '']'' # rest)"
      using Cons.prems(4) m Nil by (intro Cons.prems(2)) auto
    then show ?thesis using m Nil by simp
  next
    case (Cons y ys)
    let ?t = "join '','' (map f xs) @ CHR '']'' # rest"
    have j: "join '','' (map f (x # xs)) @ CHR '']'' # rest = f x @ CHR '','' # ?t" using Cons by simp
    obtain c cs where c: "f y = c # cs" "\<not> is_ws c" using Cons.prems(3)[of y] Cons by auto
    then have t: "skip_ws ?t = ?t" using Cons by (cases ys) auto
    have "parse_value m depth (f x @ CHR '','' # ?t) = Inr (g x, CHR '','' # ?t)"
      using Cons.prems(4) m unfolding j by (intro Cons.prems(2)) auto
    moreover have "parse_items m depth ?t = Inr (map g xs, rest)"
      using Cons.prems m \<open>xs = y # ys\<close> unfolding j by (intro Cons.IH) auto
    ultimately show ?thesis unfolding j m by (simp add: t)
  qed
qed simp

lemma parse_members_join:
  assumes "ps \<noteq> []"
    and "\<And>p rest n. p \<in> set ps \<Longrightarrow> ends rest \<Longrightarrow> 2 * length (f (snd p) @ rest) + 1 \<le> n \<Longrightarrow>
      parse_value n depth (f (snd p) @ rest) = Inr (g (snd p), rest)"
    and "\<And>p. p \<in> set ps \<Longrightarrow> \<exists>c cs. f (snd p) = c # cs \<and> \<not> is_ws c"
    and "2 * length (join '','' (map (\<lambda>p. json_str_utf8 (fst p) @ '':'' @ f (snd p)) ps) @ CHR ''}'' # rest) + 2 \<le> n"
  shows "parse_members n depth (join '','' (map (\<lambda>p. json_str_utf8 (fst p) @ '':'' @ f (snd p)) ps) @ CHR ''}'' # rest) =
    Inr (map (\<lambda>p. (fst p, g (snd p))) ps, rest)"
  using assms
proof (induction ps arbitrary: n)
  case (Cons p ps)
  let ?f = "\<lambda>p. json_str_utf8 (fst p) @ '':'' @ f (snd p)"
  obtain m where m: "n = Suc m" using Cons.prems(4) by (cases n) auto
  obtain e es where e: "f (snd p) = e # es" "\<not> is_ws e" using Cons.prems(3)[of p] by auto
  have key: "scan_str (concat (map json_char_utf8 (fst p)) @ CHR 0x22 # CHR '':'' # f (snd p) @ q) = Inr (fst p, CHR '':'' # f (snd p) @ q)" for q
    by (rule scan_str_json)
  show ?case
  proof (cases ps)
    case Nil
    have "parse_value m depth (f (snd p) @ CHR ''}'' # rest) = Inr (g (snd p), CHR ''}'' # rest)"
      using Cons.prems(4) m Nil by (intro Cons.prems(2)) auto
    then show ?thesis using m Nil e key by (simp add: json_str_utf8_def)
  next
    case (Cons q qs)
    define tail where "tail = join '','' (map ?f ps) @ CHR ''}'' # rest"
    have j: "join '','' (map ?f (p # ps)) @ CHR ''}'' # rest = ?f p @ CHR '','' # tail" using Cons by (simp add: tail_def)
    have t: "skip_ws tail = tail" using Cons by (cases qs) (auto simp: tail_def json_str_utf8_def)
    have "parse_value m depth (f (snd p) @ CHR '','' # tail) = Inr (g (snd p), CHR '','' # tail)"
      using Cons.prems(4) m unfolding j by (intro Cons.prems(2)) auto
    moreover have "parse_members m depth tail = Inr (map (\<lambda>p. (fst p, g (snd p))) ps, rest)"
      using Cons.prems m \<open>ps = q # qs\<close> unfolding j unfolding tail_def by (intro Cons.IH) auto
    ultimately show ?thesis unfolding j m using e key by (simp add: t json_str_utf8_def)
  qed
qed simp

lemma scan_words:
  "scan_literal (''NaN'' @ r) = Inr (VFloat NaN, r)"
  "scan_literal (''Infinity'' @ r) = Inr (VFloat PInf, r)"
  "scan_literal (''-Infinity'' @ r) = Inr (VFloat NInf, r)"
  "scan_literal (''null'' @ r) = Inr (VNone, r)"
  "scan_literal (''true'' @ r) = Inr (VBool True, r)"
  "scan_literal (''false'' @ r) = Inr (VBool False, r)"
  unfolding scan_literal_def by simp_all

text \<open>What \<open>dumps_compact\<close> writes is read as the same value with its keys sorted.\<close>

lemma parse_dumps:
  assumes "json_ok depth v" "ends rest" "2 * length (dumps_compact v @ rest) + 1 \<le> n"
  shows "parse_value n depth (dumps_compact v @ rest) = Inr (canon v, rest)"
  using assms
proof (induction v arbitrary: depth rest n rule: dumps_compact.induct)
  case (3 i)
  then obtain m where "n = Suc m" by (cases n) auto
  moreover have "scan_literal (str_int i @ rest) = Inr (VInt i, rest)"
    using scan_literal_number[OF scan_number_int] 3 by simp
  ultimately show ?case using number_start[OF scan_number_int[of i]] 3
    by (cases "str_int i") (auto simp: is_digit_def)
next
  case (4 f)
  then obtain m where m: "n = Suc m" by (cases n) auto
  show ?case
  proof (cases "f \<in> {PInf, NInf, NaN}")
    case True
    then have "scan_literal (json_float f @ rest) = Inr (VFloat f, rest)" and "hd (json_float f) \<in> {CHR ''I'', CHR ''-'', CHR ''N''}"
      and "json_float f \<noteq> []"
      using scan_words by auto
    then show ?thesis using m by (cases "json_float f") auto
  next
    case False
    then have num: "scan_number (float_repr f) = Inr (VFloat f, [])" and j: "json_float f = float_repr f"
      using 4(1) scan_number_float[of f] by (cases f; simp)+
    show ?thesis
      using m scan_literal_number[OF num 4(2)] number_start[OF num] j
      by (cases "float_repr f") (auto simp: is_digit_def)
  qed
next
  case (5 s)
  then obtain m where "n = Suc m" by (cases n) auto
  then show ?case using scan_str_json[of s rest] by (simp add: json_str_utf8_def)
next
  case (6 xs)
  then obtain m where m: "n = Suc m" by (cases n) auto
  have d: "depth \<noteq> 0" and ok: "json_ok (depth - 1) x" if "x \<in> set xs" for x using 6(2) that by auto
  show ?case
  proof (cases xs)
    case Nil
    then show ?thesis using m 6(2) by simp
  next
    case (Cons x ys)
    define body where "body = join '','' (map dumps_compact xs) @ CHR '']'' # rest"
    obtain c cs where c: "dumps_compact x = c # cs" "\<not> is_ws c" "c \<noteq> CHR '']''"
      using text_start[OF ok[of x]] Cons by auto
    then obtain bs where b: "body = c # bs" using Cons by (cases ys) (auto simp: body_def)
    have "parse_items m (depth - 1) body = Inr (map canon xs, rest)"
      unfolding body_def
    proof (rule parse_items_join)
      show "xs \<noteq> []" using Cons by simp
      show "parse_value n (depth - 1) (dumps_compact x @ rest) = Inr (canon x, rest)"
        if "x \<in> set xs" "ends rest" "2 * length (dumps_compact x @ rest) + 1 \<le> n" for x rest n
        using that ok 6(1) by blast
      show "\<exists>c cs. dumps_compact x = c # cs \<and> \<not> is_ws c" if "x \<in> set xs" for x
        using text_start[OF ok[OF that]] by blast
      show "2 * length (join '','' (map dumps_compact xs) @ CHR '']'' # rest) + 2 \<le> m"
        using 6(4) m by simp
    qed
    moreover have "dumps_compact (VList xs) @ rest = CHR ''['' # body" by (simp add: body_def)
    ultimately show ?thesis using m b c d 6(2) by simp
  qed
next
  case (7 e)
  then obtain m where m: "n = Suc m" by (cases n) auto
  let ?e = "sort_key fst e"
  have ok: "json_ok (depth - 1) (snd p)" if "p \<in> set ?e" for p using 7(2) that by auto
  have body: "dumps_compact (VDict e) @ rest =
      CHR ''{'' # join '','' (map (\<lambda>p. json_str_utf8 (fst p) @ '':'' @ dumps_compact (snd p)) ?e) @ CHR ''}'' # rest"
    by (simp add: sort_key_map_snd[of dumps_compact, unfolded case_prod_unfold] case_prod_unfold comp_def)
  show ?case
  proof (cases "?e = []")
    case True
    then show ?thesis using m 7(2) unfolding body by (simp add: sort_key_map_snd)
  next
    case False
    have mem: "parse_members m (depth - 1) (join '','' (map (\<lambda>p. json_str_utf8 (fst p) @ '':'' @ dumps_compact (snd p)) ?e) @ CHR ''}'' # rest)
        = Inr (map (\<lambda>p. (fst p, canon (snd p))) ?e, rest)"
    proof (rule parse_members_join)
      show "?e \<noteq> []" by fact
      show "parse_value n (depth - 1) (dumps_compact (snd p) @ rest) = Inr (canon (snd p), rest)"
        if "p \<in> set ?e" "ends rest" "2 * length (dumps_compact (snd p) @ rest) + 1 \<le> n" for p rest n
        using 7(1)[of p "fst p" "snd p" "depth - 1" rest n] ok[OF that(1)] that by simp
      show "\<exists>c cs. dumps_compact (snd p) = c # cs \<and> \<not> is_ws c" if "p \<in> set ?e" for p
        using text_start[OF ok[OF that]] by blast
      show "2 * length (join '','' (map (\<lambda>p. json_str_utf8 (fst p) @ '':'' @ dumps_compact (snd p)) ?e) @ CHR ''}'' # rest) + 2 \<le> m"
        using 7(4) m unfolding body by simp
    qed
    have dist: "distinct (map fst (map (\<lambda>p. (fst p, canon (snd p))) ?e))"
      using 7(2) by (simp add: comp_def distinct_map inj_on_def)
    obtain q qs where q: "?e = q # qs" using False by (cases ?e) auto
    obtain bs where b: "join '','' (map (\<lambda>p. json_str_utf8 (fst p) @ '':'' @ dumps_compact (snd p)) ?e) = CHR 0x22 # bs"
      unfolding q by (cases qs) (auto simp: json_str_utf8_def)
    have c: "canon (VDict e) = VDict (map (\<lambda>p. (fst p, canon (snd p))) ?e)"
      by (simp add: sort_key_map_snd[of canon, unfolded case_prod_unfold] case_prod_unfold)
    show ?thesis
      using m mem 7(2) unfolding body c b by (simp add: dict_of_pairs_distinct[OF dist])
  qed
next
  case 1
  then show ?case using scan_words(4)[of rest] by (cases n) auto
next
  case (2 b)
  then show ?case using scan_words(5,6)[of rest] by (cases n; cases b) auto
qed

theorem json_roundtrip:
  "json_ok depth v \<Longrightarrow> json_loads depth (dumps_compact v) = Inr (canon v)"
proof -
  assume ok: "json_ok depth v"
  obtain c cs where c: "dumps_compact v = c # cs" "\<not> is_ws c" using text_start[OF ok] by blast
  then have t: "skip_ws (dumps_compact v) = dumps_compact v" by simp
  have "parse_value (2 * length (dumps_compact v) + 1) depth (dumps_compact v) = Inr (canon v, [])"
    using parse_dumps[OF ok, of "[]" "2 * length (dumps_compact v) + 1"] by simp
  then show ?thesis unfolding json_loads_def t Let_def by simp
qed

section \<open>Text files\<close>

text \<open>Reading a file in text mode turns every line end into a newline; \<open>c # d # cs\<close> is the text from a carriage return on.\<close>

fun newlines :: "string \<Rightarrow> string" where
  "newlines [] = []"
| "newlines [c] = [if c = CHR 0x0D then CHR 0x0A else c]"
| "newlines (c # d # cs) =
     (if c = CHR 0x0D then (if d = CHR 0x0A then CHR 0x0A # newlines cs else CHR 0x0A # newlines (d # cs))
      else c # newlines (d # cs))"

lemma newlines_id: "CHR 0x0D \<notin> set s \<Longrightarrow> newlines s = s"
  by (induction s rule: newlines.induct) auto

text \<open>UTF-8 back to characters below U+0100.\<close>

fun utf8_read :: "bytes \<Rightarrow> string option" where
  "utf8_read [] = Some []"
| "utf8_read (a # bs) =
     (if a < 128 then map_option ((#) (char_of (unat a))) (utf8_read bs)
      else case bs of
        [] \<Rightarrow> None
      | b # cs \<Rightarrow>
          if 194 \<le> a \<and> a \<le> 195 \<and> 128 \<le> b \<and> b < 192
          then map_option ((#) (char_of (64 * (unat a - 192) + (unat b - 128)))) (utf8_read cs) else None)"

lemma utf8_read_char: "utf8_read (utf8_char c @ bs) = map_option ((#) c) (utf8_read bs)"
proof -
  define n where "n = (of_char c :: nat)"
  have n: "n < 256" "char_of n = c" by (simp_all add: n_def)
  have small: "unat (of_nat k :: 8 word) = k" if "k < 256" for k
    using that by (simp add: unat_of_nat take_bit_nat_eq_self)
  show ?thesis
  proof (cases "n < 128")
    case True
    then have "(of_nat n :: 8 word) < 128" using small[of n] by (simp add: word_less_nat_alt)
    then show ?thesis using True n small[of n] by (simp add: utf8_char_def n_def[symmetric])
  next
    case False
    have a: "unat (of_nat (192 + n div 64) :: 8 word) = 192 + n div 64" "unat (of_nat (128 + n mod 64) :: 8 word) = 128 + n mod 64"
      using n(1) by (intro small; linarith)+
    have q: "n div 64 = 2 \<or> n div 64 = 3" using False n(1) by auto
    have "64 * (n div 64) + n mod 64 = n" by simp
    then have joined: "char_of (64 * (unat (of_nat (192 + n div 64) :: 8 word) - 192) + (unat (of_nat (128 + n mod 64) :: 8 word) - 128)) = c"
      unfolding a using n(2) by simp
    have m: "n mod 64 < 64" by simp
    have "\<not> (of_nat (192 + n div 64) :: 8 word) < 128" "194 \<le> (of_nat (192 + n div 64) :: 8 word)" "(of_nat (192 + n div 64) :: 8 word) \<le> 195"
      "128 \<le> (of_nat (128 + n mod 64) :: 8 word)" "(of_nat (128 + n mod 64) :: 8 word) < 192"
      using q m unfolding word_less_nat_alt word_le_nat_alt a by auto
    then show ?thesis using False joined by (simp add: utf8_char_def n_def[symmetric] del: of_nat_add)
  qed
qed

lemma utf8_read_utf8: "utf8_read (utf8 s) = Some s"
proof -
  have "utf8_read (concat (map utf8_char s)) = Some s"
    by (induction s) (simp_all add: utf8_read_char)
  then show ?thesis by (simp add: utf8_def)
qed

text \<open>No text \<open>dumps_compact\<close> writes has a carriage return in it, so the line ends do not touch it.\<close>

lemma number_chars: "scan_number t = Inr (v, []) \<Longrightarrow> CHR 0x0D \<notin> set t"
proof -
  assume a: "scan_number t = Inr (v, [])"
  define u where "u = (if startswith t ''-'' then drop 1 t else t)"
  define r where "r = drop (length (int_part u)) u"
  define r1 where "r1 = drop (length (frac_part r)) r"
  have dig: "CHR 0x0D \<notin> set (takeWhile is_digit s)" for s
    by (auto dest!: set_takeWhileD simp: is_digit_def)
  have pre: "x = p @ drop (length p) x" if "take (length p) x = p" for x p :: string
    using that by (metis append_take_drop_id)
  note tw = takeWhile_eq_take[symmetric]
  have ip: "CHR 0x0D \<notin> set (int_part u)" "u = int_part u @ r"
    using dig unfolding r_def by (auto simp: int_part_def tw split: list.splits intro!: pre)
  have fr: "CHR 0x0D \<notin> set (frac_part r)" "r = frac_part r @ r1"
    using dig unfolding r1_def by (auto simp: frac_part_def tw split: list.splits intro!: pre)
  have ex: "CHR 0x0D \<notin> set (exp_part r1)" "r1 = exp_part r1 @ drop (length (exp_part r1)) r1"
    using dig by (auto simp: exp_part_def Let_def tw split: list.splits intro!: pre)
  have "r = [] \<or> drop (length (exp_part r1)) r1 = []"
    using a unfolding scan_number_def Let_def u_def[symmetric] r_def[symmetric] r1_def[symmetric]
    by (auto split: if_splits option.splits)
  then have "CHR 0x0D \<notin> set u"
    using ip fr ex by (metis Un_iff append_Nil2 set_append)
  then show ?thesis by (cases t) (auto simp: u_def split: if_splits)
qed

lemma in_join: "c \<in> set (join sep xs) \<Longrightarrow> c \<in> set sep \<or> (\<exists>x \<in> set xs. c \<in> set x)"
  by (induction sep xs rule: join.induct) auto

lemma json_str_chars: "CHR 0x0D \<notin> set (json_str_utf8 s)"
proof -
  have "CHR 0x0D \<notin> set (json_char_utf8 c)" for c
  proof
    assume r: "CHR 0x0D \<in> set (json_char_utf8 c)"
    have hd: "k < 16 \<Longrightarrow> hex_digit k \<noteq> CHR 0x0D" for k
      using hex_val_digit[of k] by (auto simp: hex_val_def)
    have "hex_digit ((of_char c :: nat) mod 16) \<noteq> CHR 0x0D" "(of_char c :: nat) < 127 \<Longrightarrow> hex_digit (of_char c div 16) \<noteq> CHR 0x0D"
      by (intro hd; simp)+
    moreover have "(char_of (92::nat) :: char) \<noteq> CHR 0x0D" by (simp add: char_of_eq_iff)
    ultimately show False
      using r by (auto simp: json_char_utf8_def json_char_def hex2_def Let_def split: if_splits)
  qed
  then show ?thesis by (auto simp: json_str_utf8_def)
qed

lemma dumps_no_return: "json_ok depth v \<Longrightarrow> CHR 0x0D \<notin> set (dumps_compact v)"
proof (induction v arbitrary: depth rule: dumps_compact.induct)
  case (3 i)
  then show ?case using number_chars[OF scan_number_int[of i]] by simp
next
  case (4 f)
  then show ?case using number_chars[OF scan_number_float[of f]] by (cases f) auto
next
  case (6 xs)
  have "CHR 0x0D \<notin> set (dumps_compact x)" if "x \<in> set xs" for x
    using 6(1)[OF that, of "depth - 1"] 6(2) that by simp
  then show ?case by (auto dest!: in_join)
next
  case (7 e)
  have v: "CHR 0x0D \<notin> set (dumps_compact (snd p))" if "p \<in> set e" for p
    using 7(1)[of p "fst p" "snd p" "depth - 1"] 7(2) that by simp
  show ?case using v json_str_chars by (auto simp: case_prod_unfold dest!: in_join)
qed (auto simp: json_str_chars)

end
