(* ===== verification/PolicyPac.thy ===== *)
theory PolicyPac
  imports Signing Json
begin

text \<open>
  Where policy bundles come from: the signed files of src/src/sentinel/policy_pac/loader.py, the
  commands \<^verbatim>\<open>policy sign\<close> and \<^verbatim>\<open>policy verify\<close> of cli.py, the local cache of core/cache.py,
  and the bootstrap that chooses between them. The texts of files are strings. JSON is read as theory Json
  reads it; the record \<open>codecs\<close> holds YAML in both directions, pydantic's validation and dump of a
  bundle, and of JSON what depends on the process: the nesting its recursion limit allows, the
  encoding of its locale, and \<open>cd_foreign\<close>, the reading of texts that escape characters above U+00FF.
  Theory PolicyDocs writes pydantic's part out.
\<close>

record codecs =
  cd_yaml :: "string \<Rightarrow> pyval result"
  cd_foreign :: "string \<Rightarrow> pyval result"
  cd_depth :: nat
  cd_decode :: "bytes \<Rightarrow> string result"
  cd_yaml_dump :: "(string, pyval) pydict \<Rightarrow> string"
  cd_validate :: "(string, pyval) pydict \<Rightarrow> policy_bundle result"
  cd_dump :: "policy_bundle \<Rightarrow> (string, pyval) pydict"

text \<open>\<^verbatim>\<open>json.loads\<close> with the exceptions it raises; the fuel never runs out.\<close>

fun json_exn :: "json_error \<Rightarrow> exc_class" where
  "json_exn Too_long = ValueError"
| "json_exn Deep = RecursionError"
| "json_exn _ = JSONDecodeError"

definition read_json :: "codecs \<Rightarrow> string \<Rightarrow> pyval result" where
  "read_json cd raw = (case json_loads (cd_depth cd) raw of
     Inr v \<Rightarrow> Inr v
   | Inl e \<Rightarrow> if e = Foreign then cd_foreign cd raw else Inl (Exn (json_exn e) ''invalid JSON''))"

text \<open>The file system: the text of a file, or the exception reading it raises.\<close>

type_synonym files = "string \<Rightarrow> string result"

definition endswith :: "string \<Rightarrow> string \<Rightarrow> bool" where
  "endswith s suffix \<longleftrightarrow> startswith (rev s) (rev suffix)"

definition is_yaml :: "string \<Rightarrow> bool" where
  "is_yaml path \<longleftrightarrow> endswith path ''.yaml'' \<or> endswith path ''.yml''"

text \<open>\<^verbatim>\<open>Path.suffix\<close> of a file that is only an extension is empty.\<close>

definition yaml_suffix :: "string \<Rightarrow> bool" where
  "yaml_suffix path \<longleftrightarrow> is_yaml path \<and> last (split_on CHR ''/'' path) \<notin> {''.yaml'', ''.yml''}"

definition dict_pop :: "string \<Rightarrow> (string \<times> 'v) list \<Rightarrow> (string \<times> 'v) list" where
  "dict_pop k d = filter (\<lambda>p. fst p \<noteq> k) d"

definition bundle_bytes :: "codecs \<Rightarrow> ('sk, 'pk) toolkit \<Rightarrow> policy_bundle \<Rightarrow> bytes result" where
  "bundle_bytes cd tk b = canonical_bytes tk (VDict (cd_dump cd b))"

section \<open>loader.py\<close>

text \<open>The signature check of a bundle under a public key.\<close>

definition check_signature ::
  "codecs \<Rightarrow> ('sk, 'pk) toolkit \<Rightarrow> 'pk \<Rightarrow> pyval \<Rightarrow> policy_bundle \<Rightarrow> policy_bundle result" where
  "check_signature cd tk pk sig b =
     (if \<not> py_truth sig then Inl (Exn PolicyError ''Public key supplied but bundle has no signature'')
      else case (case sig of VStr s \<Rightarrow> b64decode s
                 | _ \<Rightarrow> Inl (Exn TypeError ''argument should be a bytes-like object or ASCII string'')) of
        Inl e \<Rightarrow> if catches ValueError e \<or> catches TypeError e
          then Inl (Exn PolicyError ''Bundle signature is not valid base64'') else Inl e
      | Inr raw \<Rightarrow> bindR (bundle_bytes cd tk b) (\<lambda>m. bindR (crypto_verify tk pk raw m) (\<lambda>ok.
          if ok then Inr b else Inl (Exn PolicyError ''Bundle signature verification failed''))))"

definition load_bundle_from_path ::
  "codecs \<Rightarrow> ('sk, 'pk) toolkit \<Rightarrow> files \<Rightarrow> string \<Rightarrow> 'pk option \<Rightarrow> policy_bundle result" where
  "load_bundle_from_path cd tk fs path public_key =
     bindR (fs path) (\<lambda>raw.
     bindR (if is_yaml path then cd_yaml cd raw else read_json cd raw) (\<lambda>data. case data of
       VDict d \<Rightarrow>
         bindR (cd_validate cd (dict_pop ''signature'' d)) (\<lambda>b. case public_key of
           None \<Rightarrow> Inr b
         | Some pk \<Rightarrow> check_signature cd tk pk (case map_of d ''signature'' of None \<Rightarrow> VNone | Some s \<Rightarrow> s) b)
     | _ \<Rightarrow> Inl (Exn PolicyError (''Policy file '' @ path @ '' must be a mapping''))))"

record 'pk policy_loader =
  pl_path :: string
  pl_public_key :: "'pk option"
  pl_bundle :: "policy_bundle option"

definition new_loader :: "string \<Rightarrow> 'pk option \<Rightarrow> 'pk policy_loader" where
  "new_loader path pk = \<lparr>pl_path = path, pl_public_key = pk, pl_bundle = None\<rparr>"


definition loader_reload ::
  "codecs \<Rightarrow> ('sk, 'pk) toolkit \<Rightarrow> files \<Rightarrow> 'pk policy_loader \<Rightarrow> policy_bundle result \<times> 'pk policy_loader" where
  "loader_reload cd tk fs ld = (case load_bundle_from_path cd tk fs (pl_path ld) (pl_public_key ld) of
     Inl e \<Rightarrow> (Inl e, ld)
   | Inr b \<Rightarrow> (Inr b, ld\<lparr>pl_bundle := Some b\<rparr>))"

section \<open>cli.py\<close>

text \<open>
  \<^verbatim>\<open>policy sign\<close> in its two halves, between which the command loads the key (theory Cli): the bundle
  it reads, and the text it writes.
\<close>

definition sign_source :: "codecs \<Rightarrow> string \<Rightarrow> string \<Rightarrow> policy_bundle result" where
  "sign_source cd path raw =
     bindR (if yaml_suffix path then cd_yaml cd raw else read_json cd raw) (\<lambda>data. case data of
       VDict d \<Rightarrow> cd_validate cd d
     | _ \<Rightarrow> Inl (Exn ValidationError ''Input should be a valid dictionary or instance of PolicyBundle''))"

definition signed_text :: "codecs \<Rightarrow> ('sk, 'pk) toolkit \<Rightarrow> 'sk \<Rightarrow> policy_bundle \<Rightarrow> string result" where
  "signed_text cd tk sk b = bindR (bundle_bytes cd tk b) (\<lambda>m.
     Inr (cd_yaml_dump cd (dict_set ''signature'' (VStr (b64encode (crypto_sign tk sk m))) (cd_dump cd b))))"

definition policy_sign ::
  "codecs \<Rightarrow> ('sk, 'pk) toolkit \<Rightarrow> 'sk \<Rightarrow> string \<Rightarrow> string \<Rightarrow> string result" where
  "policy_sign cd tk sk path raw = bindR (sign_source cd path raw) (signed_text cd tk sk)"

definition policy_verify ::
  "codecs \<Rightarrow> ('sk, 'pk) toolkit \<Rightarrow> files \<Rightarrow> string \<Rightarrow> 'pk \<Rightarrow> string result" where
  "policy_verify cd tk fs path pk = bindR (load_bundle_from_path cd tk fs path (Some pk)) (\<lambda>b.
     Inr (''ok: version='' @ version b @ '' rules='' @ str_int (int (length (rules b)))))"

section \<open>cache.py\<close>

text \<open>
  The cached bundle file, if it exists, as bytes. It is written as UTF-8 and read back as text in
  the encoding of the locale, with the line ends of text mode. The disk is what opening and writing the bundle file does, and whether writing the meta file, which
  nothing reads, succeeds.
\<close>

type_synonym cache = "bytes option"

record disk =
  dk_write :: "bytes \<Rightarrow> cache \<Rightarrow> unit result \<times> cache"
  dk_meta :: "unit result"

definition good_disk :: disk where
  "good_disk = \<lparr>dk_write = (\<lambda>m c. (Inr (), Some m)), dk_meta = Inr ()\<rparr>"

definition cache_save :: "codecs \<Rightarrow> ('sk, 'pk) toolkit \<Rightarrow> disk \<Rightarrow> policy_bundle \<Rightarrow> cache \<Rightarrow> unit result \<times> cache" where
  "cache_save cd tk dk b c = (case bundle_bytes cd tk b of
     Inl e \<Rightarrow> (Inl e, c)
   | Inr m \<Rightarrow> (case dk_write dk m c of
       (Inl e, c') \<Rightarrow> (Inl e, c')
     | (Inr _, c') \<Rightarrow> (dk_meta dk, c')))"

definition cache_text :: "codecs \<Rightarrow> bytes \<Rightarrow> pyval result" where
  "cache_text cd m = bindR (cd_decode cd m) (\<lambda>t. read_json cd (newlines t))"

definition cache_load :: "codecs \<Rightarrow> cache \<Rightarrow> policy_bundle option result" where
  "cache_load cd c = (case c of
     None \<Rightarrow> Inr None
   | Some m \<Rightarrow>
       (case bindR (cache_text cd m) (\<lambda>v. case v of VDict d \<Rightarrow> cd_validate cd d
           | _ \<Rightarrow> Inl (Exn ValidationError ''Input should be a valid dictionary or instance of PolicyBundle'')) of
          Inr b \<Rightarrow> Inr (Some b)
        | Inl e \<Rightarrow> if catches Exception e then Inr None else Inl e))"

definition cache_is_present :: "cache \<Rightarrow> bool" where
  "cache_is_present c \<longleftrightarrow> c \<noteq> None"

section \<open>bootstrap.py\<close>

text \<open>The bundle the process starts with: the loader has no public key.\<close>

definition bootstrap_bundle ::
  "codecs \<Rightarrow> ('sk, 'pk) toolkit \<Rightarrow> disk \<Rightarrow> files \<Rightarrow> string \<Rightarrow> cache \<Rightarrow>
   policy_bundle result \<times> cache" where
  "bootstrap_bundle cd tk dk fs path c =
     (let loaded = fst (loader_reload cd tk fs (new_loader path None));
          (saved, c') = (case loaded of Inl e \<Rightarrow> (Inl e, c) | Inr b \<Rightarrow> cache_save cd tk dk b c) in
      case saved of
        Inr _ \<Rightarrow> (loaded, c')
      | Inl e \<Rightarrow>
          if \<not> catches Exception e then (Inl e, c')
          else (case cache_load cd c' of
              Inl x \<Rightarrow> (Inl x, c')
            | Inr None \<Rightarrow> (Inl e, c')
            | Inr (Some b) \<Rightarrow> (Inr b, c')))"

section \<open>The cached text\<close>

text \<open>
  Documented of orjson, at one value: what it writes is UTF-8 of a JSON text of the value, without
  raw control characters and with the keys sorted. The locale's encoding is UTF-8.
\<close>

definition writes_json :: "('sk, 'pk) toolkit \<Rightarrow> nat \<Rightarrow> pyval \<Rightarrow> bool" where
  "writes_json tk depth v \<longleftrightarrow> (\<forall>m. tk_orjson tk v = Inr m \<longrightarrow>
     (\<exists>t. m = utf8 t \<and> CHR 0x0D \<notin> set t \<and> json_loads depth t = Inr (canon v)))"

definition utf8_locale :: "codecs \<Rightarrow> bool" where
  "utf8_locale cd \<longleftrightarrow> (\<forall>s. cd_decode cd (utf8 s) = Inr s)"

lemma cache_text_canonical:
  assumes "canonical_bytes tk v = Inr m" "writes_json tk (cd_depth cd) v" "json_ok (cd_depth cd) v" "utf8_locale cd"
  shows "cache_text cd m = Inr (canon v)"
proof -
  have "\<exists>t. m = utf8 t \<and> CHR 0x0D \<notin> set t \<and> json_loads (cd_depth cd) t = Inr (canon v)"
    using assms(1-3) dumps_no_return[OF assms(3)] json_roundtrip[OF assms(3)]
    by (auto simp: canonical_bytes_def writes_json_def split: sum.splits if_splits)
  then show ?thesis
    using assms(4) by (auto simp: cache_text_def utf8_locale_def newlines_id read_json_def)
qed

section \<open>Signatures of bundles\<close>

text \<open>A bundle as it is read back from sorted text: the keys of every match in order.\<close>

definition normal_rule :: "policy_rule \<Rightarrow> policy_rule" where
  "normal_rule r = r\<lparr>rule_match := normal_dict (rule_match r)\<rparr>"

definition normal_bundle :: "policy_bundle \<Rightarrow> policy_bundle" where
  "normal_bundle b = b\<lparr>rules := map normal_rule (rules b)\<rparr>"

text \<open>
  What the round trips need of YAML and pydantic, at one bundle: what was dumped and written with sorted keys is
  read back, without the signature key it validates to the bundle with no signature and with sorted
  matches, and the order of keys does not show in the canonical bytes. Theory PolicyDocs proves it of the
  documents the models have.
\<close>

definition codec_at :: "codecs \<Rightarrow> ('sk, 'pk) toolkit \<Rightarrow> policy_bundle \<Rightarrow> bool" where
  "codec_at cd tk b \<longleftrightarrow>
     (\<forall>sig. \<exists>d. cd_yaml cd (cd_yaml_dump cd (dict_set ''signature'' (VStr sig) (cd_dump cd b))) = Inr (VDict d) \<and>
        map_of d ''signature'' = Some (VStr sig) \<and>
        cd_validate cd (dict_pop ''signature'' d) = Inr (normal_bundle (b\<lparr>signature := None\<rparr>))) \<and>
     bundle_bytes cd tk (normal_bundle (b\<lparr>signature := None\<rparr>)) = bundle_bytes cd tk (b\<lparr>signature := None\<rparr>)"

lemma b64encode_not_Nil: "bs \<noteq> [] \<Longrightarrow> b64encode bs \<noteq> []"
  by (cases bs rule: b64encode.cases) auto



text \<open>What \<^verbatim>\<open>policy sign\<close> wrote, read by the loader.\<close>

lemma load_signed:
  assumes "policy_sign cd tk sk src raw = Inr txt" "fs out = Inr txt" "is_yaml out"
    and "(if yaml_suffix src then cd_yaml cd raw else read_json cd raw) = Inr (VDict d)" "cd_validate cd d = Inr b"
    and "codec_at cd tk b" "ed25519_correct tk"
  obtains m where "bundle_bytes cd tk b = Inr m"
    "load_bundle_from_path cd tk fs out (Some pk) =
       bindR (bundle_bytes cd tk (b\<lparr>signature := None\<rparr>)) (\<lambda>m'. bindR (crypto_verify tk pk (crypto_sign tk sk m) m') (\<lambda>ok.
         if ok then Inr (normal_bundle (b\<lparr>signature := None\<rparr>)) else Inl (Exn PolicyError ''Bundle signature verification failed'')))"
proof -
  obtain m where m: "bundle_bytes cd tk b = Inr m"
      "txt = cd_yaml_dump cd (dict_set ''signature'' (VStr (b64encode (crypto_sign tk sk m))) (cd_dump cd b))"
    using assms(1,4,5) by (auto simp: policy_sign_def sign_source_def signed_text_def bindR_Inr_iff)
  obtain d' where d': "cd_yaml cd txt = Inr (VDict d')" "map_of d' ''signature'' = Some (VStr (b64encode (crypto_sign tk sk m)))"
      "cd_validate cd (dict_pop ''signature'' d') = Inr (normal_bundle (b\<lparr>signature := None\<rparr>))"
    using assms(6) m(2) unfolding codec_at_def by blast
  have "b64encode (crypto_sign tk sk m) \<noteq> []"
    using assms(7) by (intro b64encode_not_Nil) (simp add: ed25519_correct_def crypto_sign_def)
  then have "load_bundle_from_path cd tk fs out (Some pk) =
       bindR (bundle_bytes cd tk (b\<lparr>signature := None\<rparr>)) (\<lambda>m'. bindR (crypto_verify tk pk (crypto_sign tk sk m) m') (\<lambda>ok.
         if ok then Inr (normal_bundle (b\<lparr>signature := None\<rparr>)) else Inl (Exn PolicyError ''Bundle signature verification failed'')))"
    using assms(2,3,6) d' by (simp add: load_bundle_from_path_def check_signature_def codec_at_def)
  then show ?thesis by (rule that[OF m(1)])
qed

section \<open>Properties\<close>

text \<open>
  Signing and loading a bundle. A bundle without a signature that \<^verbatim>\<open>policy sign\<close> signs to a
  YAML file is loaded under the signer's public key as the same bundle, its matches sorted by key. A bundle that already
  carries a signature does not survive: the command signs the dump with the old signature in it, the
  loader checks the dump without one, so unless the two dumps have the same bytes or the signature
  is a forgery the loader raises PolicyError.
\<close>

theorem policy_sign_roundtrip:
  assumes "policy_sign cd tk sk src raw = Inr txt" "fs out = Inr txt" "is_yaml out"
    and "(if yaml_suffix src then cd_yaml cd raw else read_json cd raw) = Inr (VDict d)" "cd_validate cd d = Inr b"
    and "codec_at cd tk b" "ed25519_correct tk"
  shows "(signature b = None \<longrightarrow> load_bundle_from_path cd tk fs out (Some (tk_public tk sk)) = Inr (normal_bundle b)) \<and>
    (\<forall>m m' e. bundle_bytes cd tk b = Inr m \<and> bundle_bytes cd tk (b\<lparr>signature := None\<rparr>) = Inr m' \<and>
       tk_verify tk pk (crypto_sign tk sk m) m' = Inl e \<and> catches Exception e \<longrightarrow>
       load_bundle_from_path cd tk fs out (Some pk) = Inl (Exn PolicyError ''Bundle signature verification failed''))"
proof (intro conjI impI allI)
  assume s: "signature b = None"
  have same: "b\<lparr>signature := None\<rparr> = b" using s by (cases b) simp
  obtain m where m: "bundle_bytes cd tk b = Inr m"
    and l: "load_bundle_from_path cd tk fs out (Some (tk_public tk sk)) =
       bindR (bundle_bytes cd tk b) (\<lambda>m'. bindR (crypto_verify tk (tk_public tk sk) (crypto_sign tk sk m) m') (\<lambda>ok.
         if ok then Inr (normal_bundle b) else Inl (Exn PolicyError ''Bundle signature verification failed'')))"
    using load_signed[where fs = fs and out = out and pk = "tk_public tk sk", OF assms] unfolding same by blast
  show "load_bundle_from_path cd tk fs out (Some (tk_public tk sk)) = Inr (normal_bundle b)"
    unfolding l m using verify_signed[OF assms(7), of sk m] by simp
next
  fix m m' e
  assume h: "bundle_bytes cd tk b = Inr m \<and> bundle_bytes cd tk (b\<lparr>signature := None\<rparr>) = Inr m' \<and>
       tk_verify tk pk (crypto_sign tk sk m) m' = Inl e \<and> catches Exception e"
  then have "crypto_verify tk pk (crypto_sign tk sk m) m' = Inr False" by (simp add: crypto_verify_def)
  with load_signed[where fs = fs and out = out and pk = pk, OF assms] h
  show "load_bundle_from_path cd tk fs out (Some pk) = Inl (Exn PolicyError ''Bundle signature verification failed'')" by auto
qed


text \<open>
  C29: What the process starts with. A bundle that loads and can be saved to the cache is used;
  when loading fails the last saved bundle is used, and without one the failure is raised. But when
  loading succeeds and only the saving fails, the process starts with the old bundle of the cache
  although a newer one was read.
\<close>

theorem bootstrap_choice:
  assumes "bundle_bytes cd tk old = Inr m" "cache_text cd m = Inr (VDict d)" "cd_validate cd d = Inr old" "catches Exception e"
  shows "case load_bundle_from_path cd tk fs path None of
      Inl x \<Rightarrow> \<not> catches Exception x \<or>
        (bootstrap_bundle cd tk dk fs path (snd (cache_save cd tk good_disk old c)) = (Inr old, Some m) \<and>
         bootstrap_bundle cd tk dk fs path None = (Inl x, None))
    | Inr b \<Rightarrow> (case bundle_bytes cd tk b of
        Inl x \<Rightarrow> True
      | Inr n \<Rightarrow> bootstrap_bundle cd tk good_disk fs path c = (Inr b, Some n) \<and>
          bootstrap_bundle cd tk (good_disk\<lparr>dk_write := (\<lambda>m c. (Inl e, c))\<rparr>) fs path (Some m) = (Inr old, Some m))"
  using assms
  by (auto simp: bootstrap_bundle_def loader_reload_def new_loader_def cache_save_def cache_load_def good_disk_def
      split: sum.split)

text \<open>
  The cache gives back what was put in: what pydantic makes of the dump of the bundle, whether orjson wrote it
  or the fallback, under a locale that reads UTF-8; under one that cannot decode the bytes, nothing.
\<close>

lemma cache_load_saved:
  assumes "bundle_bytes cd tk b = Inr m" "writes_json tk (cd_depth cd) (VDict (cd_dump cd b))"
    and "json_ok (cd_depth cd) (VDict (cd_dump cd b))" "canon (VDict (cd_dump cd b)) = VDict d" "cd_validate cd d = Inr b'"
  shows "fst (cache_save cd tk good_disk b c) = Inr () \<and> cache_is_present (snd (cache_save cd tk good_disk b c)) \<and>
    (utf8_locale cd \<longrightarrow> cache_load cd (snd (cache_save cd tk good_disk b c)) = Inr (Some b')) \<and>
    (\<forall>e. cd_decode cd m = Inl e \<and> catches Exception e \<longrightarrow>
       cache_load cd (snd (cache_save cd tk good_disk b c)) = Inr None)"
proof -
  have saved: "cache_save cd tk good_disk b c = (Inr (), Some m)"
    by (simp add: cache_save_def assms(1) good_disk_def)
  have "cache_text cd m = Inr (VDict d)" if "utf8_locale cd"
    using cache_text_canonical[of tk "VDict (cd_dump cd b)" m cd] assms that unfolding bundle_bytes_def by simp
  then show ?thesis
    using assms(5) by (simp add: saved cache_load_def cache_is_present_def cache_text_def)
qed

section \<open>Concrete codecs\<close>

definition example_pac_bundle :: policy_bundle where
  "example_pac_bundle = \<lparr>version = ''1'', issued_at = 0, issuer = ''ops'', bundle_id = ''b'', rules = [],
     signature = None, bundle_tenant_id = None\<rparr>"

text \<open>Codecs that know one bundle; a file is the text of its signature.\<close>

definition example_codecs :: codecs where
  "example_codecs = \<lparr>cd_yaml = (\<lambda>txt. Inr (VDict [(''signature'', VStr txt)])), cd_foreign = (\<lambda>txt. Inr VNone), cd_depth = 900,
     cd_decode = (\<lambda>bs. case utf8_read bs of None \<Rightarrow> Inl (Exn ValueError ''invalid utf-8'') | Some s \<Rightarrow> Inr s),
     cd_yaml_dump = (\<lambda>d. case map_of d ''signature'' of Some (VStr s) \<Rightarrow> s | _ \<Rightarrow> []),
     cd_validate = (\<lambda>d. Inr example_pac_bundle), cd_dump = (\<lambda>b. [(''version'', VStr (version b))])\<rparr>"

lemma example_normal: "normal_bundle example_pac_bundle = example_pac_bundle"
  by (simp add: normal_bundle_def example_pac_bundle_def)

lemma example_codec_at: "codec_at example_codecs toy_toolkit example_pac_bundle"
  by (simp add: codec_at_def example_codecs_def example_pac_bundle_def dict_pop_def normal_bundle_def)

lemma example_bytes: "\<exists>m. bundle_bytes example_codecs toy_toolkit b = Inr m"
  by (simp add: bundle_bytes_def toy_canonical)

theorem policy_sign_roundtrip_witness:
  "\<exists>txt. policy_sign example_codecs toy_toolkit 5 ''p.yaml'' [] = Inr txt \<and>
     load_bundle_from_path example_codecs toy_toolkit (\<lambda>_. Inr txt) ''q.yaml'' (Some 5) = Inr example_pac_bundle"
proof -
  have y: "yaml_suffix ''p.yaml''" "is_yaml ''q.yaml''" by (simp_all add: yaml_suffix_def is_yaml_def endswith_def)
  have c: "cd_yaml example_codecs [] = Inr (VDict [(''signature'', VStr [])])"
    "cd_validate example_codecs d = Inr example_pac_bundle" for d
    by (simp_all add: example_codecs_def)
  obtain m where m: "bundle_bytes example_codecs toy_toolkit example_pac_bundle = Inr m" using example_bytes by blast
  then obtain t where t: "policy_sign example_codecs toy_toolkit 5 ''p.yaml'' [] = Inr t"
    by (simp add: policy_sign_def sign_source_def signed_text_def y c)
  have pk: "tk_public toy_toolkit 5 = 5" "signature example_pac_bundle = None"
    by (simp_all add: toy_toolkit_def example_pac_bundle_def)
  have src: "(if yaml_suffix ''p.yaml'' then cd_yaml example_codecs [] else read_json example_codecs []) =
      Inr (VDict [(''signature'', VStr [])])" using y c by simp
  from policy_sign_roundtrip[OF t _ y(2) src c(2) example_codec_at toy_correct, of "\<lambda>_. Inr t"] t pk
  show ?thesis by (auto simp: example_normal)
qed


lemma example_cached:
  "\<exists>m. bundle_bytes example_codecs toy_toolkit b = Inr m \<and> cache_text example_codecs m = Inr (VDict [(''version'', VStr (version b))]) \<and>
     writes_json toy_toolkit 900 (VDict (cd_dump example_codecs b)) \<and> json_ok 900 (VDict (cd_dump example_codecs b)) \<and>
     canon (VDict (cd_dump example_codecs b)) = VDict [(''version'', VStr (version b))] \<and> utf8_locale example_codecs"
proof -
  let ?v = "VDict (cd_dump example_codecs b)"
  have dump: "cd_dump example_codecs b = [(''version'', VStr (version b))]" by (simp add: example_codecs_def)
  have ok: "json_ok 900 ?v" and c: "canon ?v = VDict [(''version'', VStr (version b))]" by (simp_all add: dump)
  have w: "writes_json toy_toolkit 900 ?v"
    using dumps_no_return[OF ok] json_roundtrip[OF ok] by (auto simp: writes_json_def toy_toolkit_def split: if_splits)
  have l: "utf8_locale example_codecs" "cd_depth example_codecs = 900"
    by (simp_all add: utf8_locale_def example_codecs_def utf8_read_utf8)
  obtain m where m: "bundle_bytes example_codecs toy_toolkit b = Inr m" using example_bytes by blast
  have "cache_text example_codecs m = Inr (canon ?v)"
    by (rule cache_text_canonical[of toy_toolkit]) (use m ok w l in \<open>simp_all add: bundle_bytes_def\<close>)
  then show ?thesis using m w ok c l by auto
qed

theorem bootstrap_choice_witness:
  "\<exists>m. bootstrap_bundle example_codecs toy_toolkit good_disk (\<lambda>_. Inl (Exn OSError [])) [] (Some m) =
     (Inr example_pac_bundle, Some m)"
proof -
  obtain m where m: "bundle_bytes example_codecs toy_toolkit example_pac_bundle = Inr m"
      "cache_text example_codecs m = Inr (VDict [(''version'', VStr (version example_pac_bundle))])"
    using example_cached by blast
  have e: "catches Exception (Exn OSError [])" "cd_validate example_codecs d = Inr example_pac_bundle" for d
    by (simp_all add: catches_Exception_iff example_codecs_def)
  have l: "load_bundle_from_path example_codecs toy_toolkit (\<lambda>_. Inl (Exn OSError [])) [] None = Inl (Exn OSError [])"
    by (simp add: load_bundle_from_path_def)
  from bootstrap_choice[OF m e(2) e(1),
      where fs = "\<lambda>_. Inl (Exn OSError [])" and path = "[]" and dk = good_disk and c = None] m e(1)
  show ?thesis by (auto simp: l cache_save_def good_disk_def)
qed


end
