(* ===== verification/Wire.thy ===== *)
theory Wire
  imports Remote PolicyPac
begin

text \<open>
  Documents in the other direction: what \<^verbatim>\<open>model_dump(mode="json")\<close> makes of actions, decisions and
  inter-agent messages (src/src/sentinel/models/action.py, decision.py, comms/iatp.py), and the reading of a
  decision. These are the documents that are hashed, signed and sent: \<open>canonical_dict\<close> is the
  interceptor's digest input, the dump of an action is what the signer signs and the client posts. How
  pydantic writes one UUID, datetime or value of type \<^verbatim>\<open>Any\<close> is the record \<open>dumpers\<close>.
\<close>

record dumpers =
  du_uuid :: "uuid \<Rightarrow> string"
  du_datetime :: "datetime \<Rightarrow> string"
  du_any :: "pyval \<Rightarrow> pyval"

text \<open>The values JSON has: what is inside \<^verbatim>\<open>Any\<close> after a JSON body was read, without the special floats.\<close>

fun json_value :: "pyval \<Rightarrow> bool" where
  "json_value (VFloat f) = (f \<notin> {PInf, NInf, NaN})"
| "json_value (VList xs) = list_all json_value xs"
| "json_value (VDict d) = list_all (\<lambda>p. json_value (snd p)) d"
| "json_value _ = True"

text \<open>
  Documented of pydantic: a UUID or datetime in the form it is written in is read back as itself, numbers
  and booleans are read as themselves, and a JSON value is written as it is.
\<close>

definition dumps_read :: "readers \<Rightarrow> dumpers \<Rightarrow> bool" where
  "dumps_read rd du \<longleftrightarrow> (\<forall>u. rd_uuid rd (VStr (du_uuid du u)) = Some u) \<and>
     (\<forall>t. rd_datetime rd (VStr (du_datetime du t)) = Some t) \<and> (\<forall>i. rd_int rd (VInt i) = Some i) \<and>
     (\<forall>x. rd_float rd (VFloat (Fin x)) = Some x) \<and> (\<forall>b. rd_bool rd (VBool b) = Some b) \<and>
     (\<forall>v. json_value v \<longrightarrow> du_any du v = v)"

section \<open>Dumps\<close>

definition opt_doc :: "('a \<Rightarrow> pyval) \<Rightarrow> 'a option \<Rightarrow> pyval" where
  "opt_doc f x = (case x of None \<Rightarrow> VNone | Some y \<Rightarrow> f y)"

definition str_dict_doc :: "(string, string) pydict \<Rightarrow> pyval" where
  "str_dict_doc d = VDict (map (\<lambda>(k, s). (k, VStr s)) d)"

definition any_dict_doc :: "dumpers \<Rightarrow> (string, pyval) pydict \<Rightarrow> pyval" where
  "any_dict_doc du d = VDict (map (\<lambda>(k, v). (k, du_any du v)) d)"

definition exclude :: "string list \<Rightarrow> (string \<times> pyval) list \<Rightarrow> (string \<times> pyval) list" where
  "exclude ks d = filter (\<lambda>(k, v). k \<notin> set ks) d"

definition context_items :: "dumpers \<Rightarrow> action_context \<Rightarrow> (string \<times> pyval) list" where
  "context_items du c =
    [(''session_id'', VStr (du_uuid du (session_id c))),
     (''parent_action_id'', opt_doc (VStr \<circ> du_uuid du) (parent_action_id c)),
     (''correlation_id'', opt_doc VStr (correlation_id c)),
     (''tenant_id'', VStr (ctx_tenant_id c)),
     (''environment'', VStr (environment c)),
     (''invoked_by'', opt_doc VStr (invoked_by c)),
     (''plan_id'', opt_doc (VStr \<circ> du_uuid du) (plan_id c)),
     (''step_index'', opt_doc VInt (step_index c)),
     (''tags'', str_dict_doc (ctx_tags c))]"

definition action_items :: "dumpers \<Rightarrow> action \<Rightarrow> (string \<times> pyval) list" where
  "action_items du a =
    [(''id'', VStr (du_uuid du (act_id a))),
     (''type'', VStr (action_type_value (act_type a))),
     (''agent_did'', VStr (agent_did a)),
     (''tenant_id'', VStr (act_tenant_id a)),
     (''tool'', opt_doc VStr (act_tool a)),
     (''arguments'', any_dict_doc du (arguments a)),
     (''payload_digest'', opt_doc VStr (payload_digest a)),
     (''intent'', opt_doc VStr (intent a)),
     (''context'', VDict (context_items du (act_context a))),
     (''created_at'', VStr (du_datetime du (act_created_at a)))]"

text \<open>\<^verbatim>\<open>action.model_dump(mode="json")\<close>; the aliases it is dumped by are the names of the fields.\<close>

definition action_dump :: "dumpers \<Rightarrow> action \<Rightarrow> pyval" where
  "action_dump du a = VDict (action_items du a)"

definition canonical_dict :: "dumpers \<Rightarrow> action \<Rightarrow> pyval" where
  "canonical_dict du a = VDict (exclude [''payload_digest'', ''created_at''] (action_items du a))"

text \<open>The digest the interceptor stamps an action with.\<close>

definition action_digest :: "dumpers \<Rightarrow> ('sk, 'pk) toolkit \<Rightarrow> action \<Rightarrow> string result" where
  "action_digest du tk a = sha256_hex tk (canonical_dict du a)"

definition message_items :: "dumpers \<Rightarrow> iatp_message \<Rightarrow> (string \<times> pyval) list" where
  "message_items du m =
    [(''sender_did'', VStr (sender_did m)),
     (''recipient_did'', VStr (recipient_did m)),
     (''conversation_id'', VStr (conversation_id m)),
     (''nonce'', VInt (nonce m)),
     (''issued_at'', VStr (du_datetime du (iatp_issued_at m))),
     (''intent'', VStr (iatp_intent m)),
     (''body'', any_dict_doc du (iatp_body m))]"

definition message_dump :: "dumpers \<Rightarrow> iatp_message \<Rightarrow> pyval" where
  "message_dump du m = VDict (message_items du m)"

definition float_doc :: "rat \<Rightarrow> pyval" where
  "float_doc x = VFloat (Fin x)"

definition risk_factor_dump :: "risk_factor \<Rightarrow> pyval" where
  "risk_factor_dump f = VDict
    [(''code'', VStr (rf_code f)), (''severity'', float_doc (severity f)), (''detector'', VStr (detector f)),
     (''message'', VStr (rf_message f)), (''evidence'', str_dict_doc (evidence f))]"

definition explanation_dump :: "explanation \<Rightarrow> pyval" where
  "explanation_dump x = VDict
    [(''summary'', VStr (summary x)), (''triggered_rule_ids'', VList (map VStr (triggered_rule_ids x))),
     (''risk_factors'', VList (map risk_factor_dump (risk_factors x))), (''risk_score'', float_doc (risk_score x)),
     (''recommended_remediation'', opt_doc VStr (recommended_remediation x)),
     (''references'', VList (map VStr (references x)))]"

definition decision_dump :: "dumpers \<Rightarrow> decision \<Rightarrow> pyval" where
  "decision_dump du d = VDict
    [(''id'', VStr (du_uuid du (dec_id d))), (''action_id'', VStr (du_uuid du (action_id d))),
     (''verdict'', VStr (verdict_value (verdict d))), (''decided_at'', VStr (du_datetime du (decided_at d))),
     (''decided_by'', VStr (decided_by d)), (''explanation'', explanation_dump (explanation d)),
     (''latency_ms'', opt_doc float_doc (latency_ms d)), (''cache_hit'', VBool (cache_hit d)),
     (''degraded'', VBool (degraded d))]"

section \<open>Reading decisions (models/decision.py)\<close>

definition verdicts :: "verdict list" where
  "verdicts = [ALLOW, DENY, ESCALATE, THROTTLE]"

definition as_verdict :: "pyval \<Rightarrow> verdict option" where
  "as_verdict v = (case as_str v of None \<Rightarrow> None | Some s \<Rightarrow> find (\<lambda>w. verdict_value w = s) verdicts)"

fun all_some :: "'a option list \<Rightarrow> 'a list option" where
  "all_some [] = Some []"
| "all_some (x # xs) = (case (x, all_some xs) of (Some y, Some ys) \<Rightarrow> Some (y # ys) | _ \<Rightarrow> None)"

definition as_list :: "(pyval \<Rightarrow> 'a option) \<Rightarrow> pyval \<Rightarrow> 'a list option" where
  "as_list f v = (case v of VList xs \<Rightarrow> all_some (map f xs) | _ \<Rightarrow> None)"

definition valid :: "'a result \<Rightarrow> 'a option" where
  "valid r = (case r of Inl e \<Rightarrow> None | Inr x \<Rightarrow> Some x)"

definition explanation_of_doc :: "readers \<Rightarrow> pyval \<Rightarrow> explanation result" where
  "explanation_of_doc rd v = (case as_dict v of None \<Rightarrow> invalid
   | Some d \<Rightarrow>
       bindR (required as_str (map_of d ''summary'')) (\<lambda>s.
       bindR (field (as_list as_str) [] (map_of d ''triggered_rule_ids'')) (\<lambda>ids.
       bindR (field (as_list (valid \<circ> risk_factor_of_doc rd)) [] (map_of d ''risk_factors'')) (\<lambda>fs.
       bindR (field (rd_float rd) 0 (map_of d ''risk_score'')) (\<lambda>sc.
       bindR (field (optional as_str) None (map_of d ''recommended_remediation'')) (\<lambda>rem.
       bindR (field (as_list as_str) [] (map_of d ''references'')) (\<lambda>refs.
         mk_explanation s ids fs sc rem refs)))))))"

definition decision_fields :: "string list" where
  "decision_fields = [''id'', ''action_id'', ''verdict'', ''decided_at'', ''decided_by'', ''explanation'', ''latency_ms'',
     ''cache_hit'', ''degraded'']"

text \<open>\<open>fresh\<close> and \<open>now\<close> are drawn for a document without an id or time; unknown keys are forbidden.\<close>

definition decision_of_doc :: "readers \<Rightarrow> uuid \<Rightarrow> datetime \<Rightarrow> pyval \<Rightarrow> decision result" where
  "decision_of_doc rd fresh now v = (case as_dict v of None \<Rightarrow> invalid
   | Some d \<Rightarrow> if \<not> list_all (\<lambda>k. k \<in> set decision_fields) (map fst d) then invalid
     else
       bindR (field (rd_uuid rd) fresh (map_of d ''id'')) (\<lambda>i.
       bindR (required (rd_uuid rd) (map_of d ''action_id'')) (\<lambda>aid.
       bindR (required as_verdict (map_of d ''verdict'')) (\<lambda>vd.
       bindR (field (rd_datetime rd) now (map_of d ''decided_at'')) (\<lambda>t.
       bindR (field as_str ''sentinel.pipeline'' (map_of d ''decided_by'')) (\<lambda>who.
       bindR (required (valid \<circ> explanation_of_doc rd) (map_of d ''explanation'')) (\<lambda>x.
       bindR (field (optional (rd_float rd)) None (map_of d ''latency_ms'')) (\<lambda>ms.
       bindR (field (rd_bool rd) False (map_of d ''cache_hit'')) (\<lambda>hit.
       bindR (field (rd_bool rd) False (map_of d ''degraded'')) (\<lambda>degr.
         Inr \<lparr>dec_id = i, action_id = aid, verdict = vd, decided_at = t, decided_by = who, explanation = x,
           latency_ms = ms, cache_hit = hit, degraded = degr\<rparr>))))))))))"

section \<open>Reading back what was dumped\<close>

lemma str_dict_reads [simp]: "as_str_dict (str_dict_doc d) = Some d"
proof -
  have "str_items (map (\<lambda>(k, s). (k, VStr s)) d) = Some d" by (induction d) auto
  then show ?thesis by (simp add: as_str_dict_def str_dict_doc_def)
qed

lemma opt_reads: "(\<And>y. rdr (f y) = Some y) \<Longrightarrow> (\<And>y. f y \<noteq> VNone) \<Longrightarrow> optional rdr (opt_doc f x) = Some x"
  by (cases x) (simp_all add: opt_doc_def optional_def)

lemma dumps_readD:
  assumes "dumps_read rd du"
  shows "rd_uuid rd (VStr (du_uuid du u)) = Some u" "rd_datetime rd (VStr (du_datetime du t)) = Some t"
    "rd_int rd (VInt i) = Some i" "rd_float rd (float_doc x) = Some x" "rd_bool rd (VBool b) = Some b"
    "json_value v \<Longrightarrow> du_any du v = v"
    "optional (rd_uuid rd) (opt_doc (VStr \<circ> du_uuid du) ou) = Some ou"
    "optional (rd_int rd) (opt_doc VInt oi) = Some oi" "optional (rd_float rd) (opt_doc float_doc ox) = Some ox"
  using assms by (simp_all add: dumps_read_def float_doc_def opt_reads)

lemma opt_str_reads [simp]: "optional as_str (opt_doc VStr x) = Some x"
  by (simp add: opt_reads)

lemma any_dict_json: "dumps_read rd du \<Longrightarrow> json_value (VDict d) \<Longrightarrow> any_dict_doc du d = VDict d"
  by (auto simp: any_dict_doc_def list_all_iff dumps_readD intro!: map_idI)

lemma field_required_Some [simp]:
  "field rdr x (Some v) = (case rdr v of None \<Rightarrow> invalid | Some y \<Rightarrow> Inr y)" "field rdr x None = Inr x"
  "required rdr (Some v) = (case rdr v of None \<Rightarrow> invalid | Some y \<Rightarrow> Inr y)"
  by (simp_all add: field_def required_def)

text \<open>What a document denotes is decided by what it holds under each key.\<close>

lemma context_of_doc_cong: "map_of d = map_of e \<Longrightarrow> context_of_doc rd fresh d = context_of_doc rd fresh e"
  using dom_map_of_conv_image_fst[of d] dom_map_of_conv_image_fst[of e]
  by (simp add: context_of_doc_def list_all_iff)

lemma action_of_items:
  assumes rd: "dumps_read rd du" and "8 \<le> length (agent_did a)"
    and "map_of d ''id'' = Some (VStr (du_uuid du (act_id a)))" "map_of d ''type'' = Some (VStr (action_type_value (act_type a)))"
      "map_of d ''agent_did'' = Some (VStr (agent_did a))" "map_of d ''tenant_id'' = Some (VStr (act_tenant_id a))"
      "map_of d ''tool'' = Some (opt_doc VStr (act_tool a))" "map_of d ''arguments'' = Some (VDict args)"
      "map_of d ''intent'' = Some (opt_doc VStr (intent a))"
    and "map_of d ''context'' = Some (VDict e)" "context_of_doc rd (session_id (dr_context dr)) e = Inr c"
    and "field (optional as_str) None (map_of d ''payload_digest'') = Inr dig"
    and "field (rd_datetime rd) (dr_now dr) (map_of d ''created_at'') = Inr t"
  shows "action_of_doc rd dr (VDict d) =
    Inr (a\<lparr>arguments := args, act_context := c, payload_digest := dig, act_created_at := t\<rparr>)"
  using assms by (simp add: action_of_doc_def context_field_def validate_action_def dumps_readD[OF rd])

lemma context_reads:
  assumes "dumps_read rd du"
  shows "context_of_doc rd fresh (context_items du c) = Inr c"
  by (simp add: context_of_doc_def context_items_def context_fields_def dumps_readD[OF assms])

lemma action_reads:
  assumes "dumps_read rd du" "8 \<le> length (agent_did a)" "json_value (VDict (arguments a))"
  shows "action_of_doc rd dr (action_dump du a) = Inr a"
proof -
  note ar = any_dict_json[OF assms(1,3)]
  have "action_of_doc rd dr (VDict (action_items du a)) =
      Inr (a\<lparr>arguments := arguments a, act_context := act_context a, payload_digest := payload_digest a,
        act_created_at := act_created_at a\<rparr>)"
    by (rule action_of_items[OF assms(1,2) _ _ _ _ _ _ _ _ context_reads[OF assms(1)]])
      (simp_all add: action_items_def ar dumps_readD[OF assms(1)])
  then show ?thesis by (simp add: action_dump_def)
qed

section \<open>Decisions\<close>

lemma verdict_reads [simp]: "as_verdict (VStr (verdict_value v)) = Some v"
  by (cases v) (simp_all add: as_verdict_def verdicts_def)

lemma list_reads: "(\<And>x. x \<in> set xs \<Longrightarrow> f (g x) = Some x) \<Longrightarrow> as_list f (VList (map g xs)) = Some xs"
  by (induction xs) (simp_all add: as_list_def)

text \<open>Severities and the score are in the unit interval, as the constructors ensure.\<close>

definition decision_ok :: "decision \<Rightarrow> bool" where
  "decision_ok d \<longleftrightarrow> 0 \<le> risk_score (explanation d) \<and> risk_score (explanation d) \<le> 1 \<and>
     (\<forall>f \<in> set (risk_factors (explanation d)). 0 \<le> severity f \<and> severity f \<le> 1)"

lemma risk_factor_reads:
  assumes "dumps_read rd du" "0 \<le> severity f" "severity f \<le> 1"
  shows "risk_factor_of_doc rd (risk_factor_dump f) = Inr f"
  using assms by (simp add: risk_factor_of_doc_def risk_factor_dump_def dumps_readD mk_risk_factor_def)

lemma decision_reads:
  assumes rd: "dumps_read rd du" and "decision_ok d"
  shows "decision_of_doc rd fresh now (decision_dump du d) = Inr d"
proof -
  let ?x = "explanation d"
  have "as_list (valid \<circ> risk_factor_of_doc rd) (VList (map risk_factor_dump (risk_factors ?x))) = Some (risk_factors ?x)"
    using assms(2) by (intro list_reads) (simp add: risk_factor_reads[OF rd] valid_def decision_ok_def)
  then have "explanation_of_doc rd (explanation_dump ?x) = Inr ?x"
    using assms(2)
    by (simp add: explanation_of_doc_def explanation_dump_def list_reads dumps_readD[OF rd] mk_explanation_def decision_ok_def)
  then show ?thesis
    by (simp add: decision_of_doc_def decision_dump_def decision_fields_def dumps_readD[OF rd] valid_def)
qed

section \<open>Canonical bytes are canonical\<close>

definition normal_tags :: "(string, string) pydict \<Rightarrow> (string, string) pydict" where
  "normal_tags t = sort_key fst t"

definition normal_context :: "action_context \<Rightarrow> action_context" where
  "normal_context c = c\<lparr>ctx_tags := normal_tags (ctx_tags c)\<rparr>"

definition normal_action :: "action \<Rightarrow> action" where
  "normal_action a = a\<lparr>arguments := normal_dict (arguments a), act_context := normal_context (act_context a)\<rparr>"

definition normal_message :: "iatp_message \<Rightarrow> iatp_message" where
  "normal_message m = m\<lparr>iatp_body := normal_dict (iatp_body m)\<rparr>"

text \<open>An action without what \<open>canonical_dict\<close> leaves out.\<close>

definition unstamped :: "action \<Rightarrow> action" where
  "unstamped a = a\<lparr>payload_digest := None, act_created_at := 0\<rparr>"

lemma canon_opt [simp]:
  "canon (opt_doc VStr x) = opt_doc VStr x" "canon (opt_doc VInt y) = opt_doc VInt y"
  "canon (opt_doc (VStr \<circ> f) z) = opt_doc (VStr \<circ> f) z"
  by (simp_all add: opt_doc_def split: option.split)

lemma canon_str_dict: "canon (str_dict_doc t) = str_dict_doc (normal_tags t)"
proof -
  have "map (\<lambda>(k, v). (k, canon v)) (map (\<lambda>(k, s). (k, VStr s)) t) = map (\<lambda>(k, s). (k, VStr s)) t"
    by (induction t) auto
  then show ?thesis
    unfolding str_dict_doc_def canon_dict normal_dict_def normal_tags_def by (simp only: sort_key_map_snd)
qed

text \<open>
  Documented of orjson: what it writes of a JSON value is JSON text with the keys sorted, so reading
  it gives the value back in normal form.
\<close>

definition orjson_writes :: "('sk, 'pk) toolkit \<Rightarrow> nat \<Rightarrow> bool" where
  "orjson_writes tk depth \<longleftrightarrow> (\<forall>v. json_ok depth v \<and> json_value v \<longrightarrow> writes_json tk depth v)"

lemma canonical_bytes_reads:
  assumes "orjson_writes tk depth" "json_ok depth v" "json_value v" "canonical_bytes tk v = Inr m"
  shows "\<exists>t. utf8_read m = Some t \<and> json_loads depth t = Inr (canon v)"
  using assms json_roundtrip[OF assms(2)]
  by (fastforce simp: orjson_writes_def writes_json_def canonical_bytes_def utf8_read_utf8 split: sum.splits if_splits)

text \<open>Two values with the same canonical bytes are the same value, up to the order of keys.\<close>

lemma canonical_bytes_inj:
  assumes "orjson_writes tk depth" "json_ok depth v" "json_value v" "json_ok depth w" "json_value w"
    and "canonical_bytes tk v = Inr m" "canonical_bytes tk w = Inr m"
  shows "canon v = canon w"
  using canonical_bytes_reads[OF assms(1-3,6)] canonical_bytes_reads[OF assms(1,4,5,7)] by auto

lemma context_canon_reads:
  assumes "dumps_read rd du"
  shows "context_of_doc rd fresh (normal_dict (context_items du c)) = Inr (normal_context c)"
proof -
  have "map_of (normal_dict (context_items du c)) = map_of (context_items du (normal_context c))"
    by (rule ext, subst map_of_normal) (simp_all add: context_items_def normal_context_def canon_str_dict)
  then show ?thesis using context_reads[OF assms] context_of_doc_cong by metis
qed

lemma canonical_reads:
  assumes rd: "dumps_read rd du" and a: "8 \<le> length (agent_did a)" "json_value (VDict (arguments a))"
  shows "action_of_doc rd dr (canon (canonical_dict du a)) =
    Inr (normal_action (a\<lparr>payload_digest := None, act_created_at := dr_now dr\<rparr>))"
proof -
  let ?d = "exclude [''payload_digest'', ''created_at''] (action_items du a)"
  have "distinct (map fst ?d)" by (simp add: exclude_def action_items_def)
  note m = map_of_normal[OF this]
  have "action_of_doc rd dr (VDict (normal_dict ?d)) =
      Inr (a\<lparr>arguments := normal_dict (arguments a), act_context := normal_context (act_context a), payload_digest := None,
        act_created_at := dr_now dr\<rparr>)"
    by (rule action_of_items[OF rd a(1) _ _ _ _ _ _ _ _ context_canon_reads[OF rd]])
      (simp_all only: m, simp_all add: exclude_def action_items_def any_dict_json[OF rd a(2)] canon_dict del: canon.simps(2))
  then show ?thesis by (simp add: canonical_dict_def canon_dict normal_action_def del: canon.simps(2))
qed

lemma dump_canon_reads:
  assumes rd: "dumps_read rd du" and a: "8 \<le> length (agent_did a)" "json_value (VDict (arguments a))"
  shows "action_of_doc rd dr (canon (action_dump du a)) = Inr (normal_action a)"
proof -
  have "distinct (map fst (action_items du a))" by (simp add: action_items_def)
  note m = map_of_normal[OF this]
  have "action_of_doc rd dr (VDict (normal_dict (action_items du a))) =
      Inr (a\<lparr>arguments := normal_dict (arguments a), act_context := normal_context (act_context a),
        payload_digest := payload_digest a, act_created_at := act_created_at a\<rparr>)"
    by (rule action_of_items[OF rd a(1) _ _ _ _ _ _ _ _ context_canon_reads[OF rd]])
      (simp_all only: m, simp_all add: action_items_def any_dict_json[OF rd a(2)] canon_dict dumps_readD[OF rd] del: canon.simps(2))
  then show ?thesis by (simp add: action_dump_def canon_dict normal_action_def del: canon.simps(2))
qed

text \<open>Actions and messages whose documents JSON can carry and its reader, with nesting \<open>depth\<close>, can read.\<close>

definition sendable :: "nat \<Rightarrow> dumpers \<Rightarrow> action \<Rightarrow> bool" where
  "sendable depth du a \<longleftrightarrow> 8 \<le> length (agent_did a) \<and> json_value (VDict (arguments a)) \<and> json_ok depth (action_dump du a)"

definition message_sendable :: "nat \<Rightarrow> dumpers \<Rightarrow> iatp_message \<Rightarrow> bool" where
  "message_sendable depth du m \<longleftrightarrow> json_value (VDict (iatp_body m)) \<and> json_ok depth (message_dump du m)"

lemma json_value_docs [simp]:
  "json_value (opt_doc VStr x)" "json_value (opt_doc VInt y)" "json_value (opt_doc (VStr \<circ> f) z)" "json_value (str_dict_doc t)"
  by (auto simp: opt_doc_def str_dict_doc_def list_all_iff split: option.split)

lemma sendable_json:
  assumes "dumps_read rd du" "sendable depth du a"
  shows "json_ok depth (action_dump du a)" "json_value (action_dump du a)" "json_ok depth (canonical_dict du a)"
    "json_value (canonical_dict du a)"
proof -
  show ok: "json_ok depth (action_dump du a)" using assms(2) by (simp add: sendable_def)
  show val: "json_value (action_dump du a)"
    using assms by (simp add: sendable_def action_dump_def action_items_def context_items_def any_dict_json)
  have ex: "distinct (map fst (exclude ks d))" "set (exclude ks d) \<subseteq> set d" if "distinct (map fst d)" for ks and d :: "(string \<times> pyval) list"
    using that by (induction d) (auto simp: exclude_def)
  have keys: "distinct (map fst (action_items du a))" by (simp add: action_items_def)
  note ex = ex[OF keys, of "[''payload_digest'', ''created_at'']"]
  show "json_ok depth (canonical_dict du a)"
    using ok ex unfolding action_dump_def canonical_dict_def json_ok.simps by blast
  show "json_value (canonical_dict du a)"
    using val ex(2) unfolding action_dump_def canonical_dict_def json_value.simps list_all_iff by blast
qed

text \<open>Actions with the same signed bytes, or the same hashed bytes, are the same action.\<close>

lemma signed_bytes_inj:
  assumes "dumps_read rd du" "orjson_writes tk depth" "sendable depth du a" "sendable depth du b"
    and "canonical_bytes tk (action_dump du a) = Inr m" "canonical_bytes tk (action_dump du b) = Inr m"
  shows "normal_action a = normal_action b"
proof -
  note ja = sendable_json[OF assms(1,3)] and jb = sendable_json[OF assms(1,4)]
  have "canon (action_dump du a) = canon (action_dump du b)"
    by (rule canonical_bytes_inj[OF assms(2) ja(1,2) jb(1,2) assms(5,6)])
  then have "(Inr (normal_action a) :: action result) = Inr (normal_action b)"
    using dump_canon_reads[OF assms(1)] assms(3,4) unfolding sendable_def by metis
  then show ?thesis by simp
qed

lemma hashed_bytes_inj:
  assumes "dumps_read rd du" "orjson_writes tk depth" "sendable depth du a" "sendable depth du b"
    and "canonical_bytes tk (canonical_dict du a) = Inr m" "canonical_bytes tk (canonical_dict du b) = Inr m"
  shows "normal_action (unstamped a) = normal_action (unstamped b)"
proof -
  note ja = sendable_json[OF assms(1,3)] and jb = sendable_json[OF assms(1,4)]
  let ?dr = "example_draw\<lparr>dr_now := 0\<rparr>"
  have "canon (canonical_dict du a) = canon (canonical_dict du b)"
    by (rule canonical_bytes_inj[OF assms(2) ja(3,4) jb(3,4) assms(5,6)])
  moreover have "action_of_doc rd ?dr (canon (canonical_dict du x)) = Inr (normal_action (unstamped x))" if "sendable depth du x" for x
    using canonical_reads[OF assms(1), of x ?dr] that by (simp add: sendable_def unstamped_def)
  ultimately have "(Inr (normal_action (unstamped a)) :: action result) = Inr (normal_action (unstamped b))"
    using assms(3,4) by metis
  then show ?thesis by simp
qed

lemma message_bytes_inj:
  assumes rd: "dumps_read rd du" and "orjson_writes tk depth" "message_sendable depth du m1" "message_sendable depth du m2"
    and "canonical_bytes tk (message_dump du m1) = Inr m" "canonical_bytes tk (message_dump du m2) = Inr m"
  shows "normal_message m1 = normal_message m2"
proof -
  have j: "json_ok depth (message_dump du x)" "json_value (message_dump du x)" if "message_sendable depth du x" for x
    using that unfolding message_sendable_def by (blast, simp add: message_dump_def message_items_def any_dict_json[OF rd])
  have "canon (message_dump du m1) = canon (message_dump du m2)"
    by (rule canonical_bytes_inj[OF assms(2) j[OF assms(3)] j[OF assms(4)] assms(5,6)])
  then have "map_of (normal_dict (message_items du m1)) k = map_of (normal_dict (message_items du m2)) k" for k
    by (simp add: message_dump_def canon_dict del: canon.simps(2))
  moreover have "distinct (map fst (message_items du x))" for x by (simp add: message_items_def)
  ultimately have same: "map_option canon (map_of (message_items du m1) k) = map_option canon (map_of (message_items du m2) k)" for k
    by (simp add: map_of_normal)
  have time: "du_datetime du t = du_datetime du u \<longleftrightarrow> t = u" for t u
    using dumps_readD(2)[OF rd] by (metis option.inject)
  have body: "any_dict_doc du (iatp_body m1) = VDict (iatp_body m1)" "any_dict_doc du (iatp_body m2) = VDict (iatp_body m2)"
    using assms(3,4) by (simp_all add: any_dict_json[OF rd] message_sendable_def)
  show ?thesis
    using same[of "''sender_did''"] same[of "''recipient_did''"] same[of "''conversation_id''"] same[of "''nonce''"]
      same[of "''issued_at''"] same[of "''intent''"] same[of "''body''"]
    by (simp add: message_items_def time body canon_dict normal_message_def del: canon.simps(2))
qed

section \<open>The link between client and application\<close>



section \<open>Properties\<close>


text \<open>
  C20: Signatures bind contents. A signed action that verifies under a signature made for another
  action is that action in every field, up to the order of the keys of its dictionaries, so every change
  \<open>args\<close> allows is refused; an envelope that verifies under the seal of another is that message; and a
  memory receipt verifies only for the value that was written. Otherwise the signature verifies for a
  message it was not made for, or SHA-256 collides on two documents.
\<close>

theorem signatures_bind_contents:
  assumes rd: "dumps_read rd du" and json: "orjson_writes tk depth"
    and action: "sendable depth du a" "sendable depth du (sa_action sb)" "sign_action (action_dump du) key_id tk sk a = Inr sa"
      "sa_signature_b64 sb = sa_signature_b64 sa" "verify_action (action_dump du) tk pk sb = Inr True"
    and message: "message_sendable depth du (iatp_message.truncate env)" "message_sendable depth du (iatp_message.truncate env')"
      "iatp_seal (message_dump du) tk sk env = Inr sealed" "iatp_signature_b64 env' = iatp_signature_b64 sealed"
      "iatp_verify (message_dump du) tk pk env' = Inr True"
    and receipt: "\<forall>u \<in> {v, w}. json_ok depth (memory_doc key u agent) \<and> json_value u"
      "cmvk_issue fresh now tk sk (agent, key, v) = Inr rc" "cmvk_verify tk pk rc w = Inr True"
  shows "(normal_action (sa_action sb) = normal_action a \<or>
      (\<exists>m m'. canonical_bytes tk (action_dump du a) = Inr m \<and> forgery tk pk (crypto_sign tk sk m) m m')) \<and>
    (normal_message (iatp_message.truncate env') = normal_message (iatp_message.truncate env) \<or>
      (\<exists>m m'. canonical_bytes tk (message_dump du (iatp_message.truncate env)) = Inr m \<and>
        forgery tk pk (crypto_sign tk sk m) m m')) \<and>
    (canon w = canon v \<or> (\<exists>m m'. canonical_bytes tk (memory_doc key v agent) = Inr m \<and>
        canonical_bytes tk (memory_doc key w agent) = Inr m' \<and> m \<noteq> m' \<and> tk_sha256 tk m = tk_sha256 tk m'))"
proof (intro conjI)
  obtain m where m: "canonical_bytes tk (action_dump du a) = Inr m" "sa_action sa = a"
    using action(3) by (auto simp: sign_action_def bindR_Inr_iff)
  show "normal_action (sa_action sb) = normal_action a \<or>
      (\<exists>m m'. canonical_bytes tk (action_dump du a) = Inr m \<and> forgery tk pk (crypto_sign tk sk m) m m')"
    using signed_actions.tamper[OF action(3,5)] action(4) m
      signed_bytes_inj[OF rd json action(2,1)] by (metis (no_types, lifting))
  have same: "canonical_body (message_dump du) sealed = message_dump du (iatp_message.truncate env)"
    using message(3) canonical_body_signature by (auto simp: iatp_seal_def bindR_Inr_iff canonical_body_def[symmetric])
  obtain m where m: "canonical_bytes tk (message_dump du (iatp_message.truncate env)) = Inr m"
    using message(3) by (auto simp: iatp_seal_def bindR_Inr_iff canonical_body_def)
  show "normal_message (iatp_message.truncate env') = normal_message (iatp_message.truncate env) \<or>
      (\<exists>m m'. canonical_bytes tk (message_dump du (iatp_message.truncate env)) = Inr m \<and>
        forgery tk pk (crypto_sign tk sk m) m m')"
    using iatp.tamper[OF message(3,5,4)] message_bytes_inj[OF rd json message(2,1)] m
    unfolding same canonical_body_def[of _ env'] by (metis (no_types, lifting))
  obtain m m' where r: "canonical_bytes tk (memory_doc key v agent) = Inr m" "canonical_bytes tk (memory_doc key w agent) = Inr m'"
      "tk_sha256 tk m = tk_sha256 tk m'"
    using receipt(3) issue_fields[OF receipt(2)] sha256_hex_eq[of tk "memory_doc key v agent" "memory_doc key w agent"]
    by (auto simp: cmvk_verify_True_iff)
  have "canon w = canon v" if "m = m'"
  proof -
    have "json_value (memory_doc key u agent)" if "u \<in> {v, w}" for u using receipt(1) that by (auto simp: memory_doc_def)
    then have "canon (memory_doc key v agent) = canon (memory_doc key w agent)"
      using canonical_bytes_inj[OF json, of "memory_doc key v agent" "memory_doc key w agent"] receipt(1) r that by simp
    then show ?thesis by (simp add: memory_doc_def)
  qed
  then show "canon w = canon v \<or> (\<exists>m m'. canonical_bytes tk (memory_doc key v agent) = Inr m \<and>
        canonical_bytes tk (memory_doc key w agent) = Inr m' \<and> m \<noteq> m' \<and> tk_sha256 tk m = tk_sha256 tk m')"
    using r by blast
qed

text \<open>
  C38: The digest is the action's own. The interceptor stamps an action without a digest with the hash
  of its canonical dictionary, which leaves out the digest and the time of creation and nothing else: two
  actions stamped with the same digest agree in all other fields, up to the order of keys, or SHA-256 collides;
  stamping changes nothing else, is not repeated, and gives the same digest whenever the action was made.
\<close>

theorem digest_binds_action:
  assumes "dumps_read rd du" "orjson_writes tk depth" "sendable depth du a" "sendable depth du b"
    and "payload_digest a = None" "payload_digest b = None"
    and "stamp_digest (action_digest du tk) a = Inr a'" "stamp_digest (action_digest du tk) b = Inr b'"
  shows "(payload_digest a' = payload_digest b' \<longrightarrow> normal_action (unstamped a) = normal_action (unstamped b) \<or>
      (\<exists>m m'. canonical_bytes tk (canonical_dict du a) = Inr m \<and> canonical_bytes tk (canonical_dict du b) = Inr m' \<and>
        m \<noteq> m' \<and> tk_sha256 tk m = tk_sha256 tk m')) \<and>
    (\<exists>h. a' = a\<lparr>payload_digest := Some h\<rparr>) \<and> stamp_digest (action_digest du tk) a' = Inr a' \<and>
    action_digest du tk (a'\<lparr>act_created_at := t\<rparr>) = action_digest du tk a"
proof -
  have free: "action_digest du tk (c\<lparr>payload_digest := x, act_created_at := u\<rparr>) = action_digest du tk c" for c x u
    by (simp add: action_digest_def canonical_dict_def exclude_def action_items_def)
  obtain h where h: "action_digest du tk a = Inr h" "a' = a\<lparr>payload_digest := Some h\<rparr>"
    using assms(5,7) by (auto simp: stamp_digest_def bindR_Inr_iff)
  obtain k where k: "action_digest du tk b = Inr k" "b' = b\<lparr>payload_digest := Some k\<rparr>"
    using assms(6,8) by (auto simp: stamp_digest_def bindR_Inr_iff)
  have "normal_action (unstamped a) = normal_action (unstamped b) \<or>
      (\<exists>m m'. canonical_bytes tk (canonical_dict du a) = Inr m \<and> canonical_bytes tk (canonical_dict du b) = Inr m' \<and>
        m \<noteq> m' \<and> tk_sha256 tk m = tk_sha256 tk m')" if "h = k"
  proof -
    have "\<exists>m m'. canonical_bytes tk (canonical_dict du a) = Inr m \<and> canonical_bytes tk (canonical_dict du b) = Inr m' \<and>
        tk_sha256 tk m = tk_sha256 tk m'"
      using h(1) k(1) that unfolding action_digest_def by (intro sha256_hex_eq[of tk _ _ h]) simp_all
    then show ?thesis using hashed_bytes_inj[OF assms(1-4)] by blast
  qed
  moreover have "action_digest du tk (a'\<lparr>act_created_at := t\<rparr>) = action_digest du tk a"
    unfolding h(2) using free[where c = a and x = "Some h" and u = t] by simp
  ultimately show ?thesis unfolding h(2) k(2) by (auto simp: stamp_digest_def)
qed

text \<open>
  C39: Documents read back. The JSON of an action with a valid DID and JSON arguments denotes that action, and
  the JSON of a decision whose severities and score are in the unit interval denotes that decision, under whatever
  defaults are drawn; and when the canonical text of the action's JSON is read by Python's reader, it
  denotes the action again, with the keys of its dictionaries sorted.
\<close>

theorem documents_roundtrip:
  assumes "dumps_read rd du" "8 \<le> length (agent_did a)" "json_value (VDict (arguments a))" "decision_ok d"
    and "json_ok depth (action_dump du a)"
  shows "action_of_doc rd dr (action_dump du a) = Inr a \<and> decision_of_doc rd fresh now (decision_dump du d) = Inr d \<and>
    (\<exists>v. json_loads depth (dumps_compact (action_dump du a)) = Inr v \<and> action_of_doc rd dr v = Inr (normal_action a))"
proof (intro conjI exI)
  show "action_of_doc rd dr (action_dump du a) = Inr a" by (rule action_reads[OF assms(1-3)])
  show "decision_of_doc rd fresh now (decision_dump du d) = Inr d" by (rule decision_reads[OF assms(1,4)])
  show "json_loads depth (dumps_compact (action_dump du a)) = Inr (canon (action_dump du a))" by (rule json_roundtrip[OF assms(5)])
  show "action_of_doc rd dr (canon (action_dump du a)) = Inr (normal_action a)" by (rule dump_canon_reads[OF assms(1-3)])
qed

section \<open>Documents of an example\<close>

definition plain_dumpers :: dumpers where
  "plain_dumpers = \<lparr>du_uuid = (\<lambda>u. str_int (int u)), du_datetime = str_int, du_any = (\<lambda>v. v)\<rparr>"

lemma text_int_str [simp]: "text_int (str_int i) = i"
proof -
  have digits: "sign_split (digits_of n) = (False, digits_of n)" if "0 \<le> n" for n
    using digits_of_digits[OF that] digits_of_not_Nil[of n] is_digit_facts
    by (cases "digits_of n") (auto simp: sign_split_def)
  have "sign_split (CHR ''-'' # ds) = (True, ds)" for ds by (simp add: sign_split_def)
  then show ?thesis using digits[of i] by (simp add: text_int_def str_int_def)
qed

lemma plain_dumps_read: "dumps_read plain_readers plain_dumpers"
  by (simp add: dumps_read_def plain_readers_def plain_dumpers_def)

lemma toy_writes: "orjson_writes toy_toolkit depth"
  using json_roundtrip dumps_no_return
  by (fastforce simp: orjson_writes_def writes_json_def toy_toolkit_def split: if_splits)

text \<open>Two spellings of the same arguments.\<close>

definition wire_action :: "(string, pyval) pydict \<Rightarrow> action" where
  "wire_action args = calm_action\<lparr>arguments := args\<rparr>"

definition spelling :: "bool \<Rightarrow> (string, pyval) pydict" where
  "spelling flip = (if flip then [(''b'', VInt 1), (''a'', VNone)] else [(''a'', VNone), (''b'', VInt 1)])"

lemma wire_sendable: "sendable 3 plain_dumpers (wire_action (spelling flip))"
  by (cases flip; simp only:; code_simp)

lemma wire_texts:
  "dumps_compact (action_dump plain_dumpers (wire_action (spelling True))) =
     dumps_compact (action_dump plain_dumpers (wire_action (spelling False)))"
  "dumps_compact (canonical_dict plain_dumpers (wire_action (spelling True))) =
     dumps_compact (canonical_dict plain_dumpers (wire_action (spelling False)))"
  by code_simp+

lemma toy_unforgeable: "\<not> forgery toy_toolkit pk (crypto_sign toy_toolkit sk m) m m'"
  by (simp add: forgery_def crypto_sign_def toy_toolkit_def)




text \<open>Arguments given in the other order still verify, and are the same arguments.\<close>

theorem signatures_bind_contents_witness:
  "\<exists>sa. sign_action (action_dump plain_dumpers) None toy_toolkit 5 (wire_action (spelling True)) = Inr sa \<and>
     verify_action (action_dump plain_dumpers) toy_toolkit 5 (set_args (spelling False) sa) = Inr True \<and>
     normal_action (wire_action (spelling False)) = normal_action (wire_action (spelling True))"
proof -
  let ?dump = "action_dump plain_dumpers" and ?msg = "message_dump plain_dumpers" and ?a = "wire_action (spelling True)"
  have pk: "tk_public toy_toolkit 5 = 5" by (simp add: toy_toolkit_def)
  obtain sa where sa: "sign_action ?dump None toy_toolkit 5 ?a = Inr sa" using toy_signs(1) by blast
  obtain env where env: "iatp_seal ?msg toy_toolkit 5 example_envelope = Inr env" using toy_signs(2) by blast
  obtain rc where rc: "cmvk_issue 1 0 toy_toolkit 5 (''did:test:a'', ''k'', VInt 1) = Inr rc" using toy_signs(3) by blast
  let ?sb = "set_args (spelling False) sa"
  have act: "sa_action sa = ?a" using sa by (auto simp: sign_action_def bindR_Inr_iff)
  then have b: "sa_action ?sb = wire_action (spelling False)" by (simp add: set_args_def wire_action_def)
  have "verify_action ?dump toy_toolkit 5 sa = Inr True" using signed_actions.roundtrip[OF toy_correct sa] by (simp add: pk)
  then have v: "verify_action ?dump toy_toolkit 5 ?sb = Inr True"
    unfolding verify_action_def set_args_fields act b toy_canonical wire_texts .
  have e: "iatp_verify ?msg toy_toolkit 5 env = Inr True" using iatp.roundtrip[OF toy_correct env] by (simp add: pk)
  have r: "cmvk_verify toy_toolkit 5 rc (VInt 1) = Inr True"
    using receipts.roundtrip[OF toy_correct rc] issue_fields[OF rc] by (simp add: cmvk_verify_True_iff pk)
  have "iatp_message.truncate env = iatp_message.truncate example_envelope"
    using env by (auto simp: iatp_seal_def bindR_Inr_iff example_envelope_def iatp_message.defs)
  moreover have m: "message_sendable 3 plain_dumpers (iatp_message.truncate example_envelope)"
    unfolding example_envelope_def iatp_message.defs by code_simp
  ultimately have m': "message_sendable 3 plain_dumpers (iatp_message.truncate env)" by simp
  have docs: "\<forall>u \<in> {VInt 1, VInt 1}. json_ok 3 (memory_doc ''k'' u ''did:test:a'') \<and> json_value u" by simp code_simp
  have "sendable 3 plain_dumpers (sa_action ?sb)" unfolding b by (rule wire_sendable)
  from signatures_bind_contents[OF plain_dumps_read toy_writes wire_sendable this sa _ v m m' env refl e docs rc r]
  show ?thesis using sa v by (simp add: set_args_fields b toy_unforgeable)
qed

theorem digest_binds_action_witness:
  "\<exists>a' b'. stamp_digest (action_digest plain_dumpers toy_toolkit) (wire_action (spelling True)) = Inr a' \<and>
     stamp_digest (action_digest plain_dumpers toy_toolkit) (wire_action (spelling False)) = Inr b' \<and>
     payload_digest a' = payload_digest b' \<and>
     normal_action (unstamped (wire_action (spelling True))) = normal_action (unstamped (wire_action (spelling False)))"
proof -
  let ?a = "wire_action (spelling True)" and ?b = "wire_action (spelling False)" and ?dg = "action_digest plain_dumpers toy_toolkit"
  have none: "payload_digest ?a = None" "payload_digest ?b = None"
    by (simp_all add: wire_action_def calm_action_def example_action_def)
  have same: "?dg ?a = ?dg ?b" unfolding action_digest_def sha256_hex_def toy_canonical wire_texts ..
  obtain h where h: "?dg ?b = Inr h" by (simp add: action_digest_def sha256_hex_def toy_canonical)
  have st: "stamp_digest ?dg ?a = Inr (?a\<lparr>payload_digest := Some h\<rparr>)" "stamp_digest ?dg ?b = Inr (?b\<lparr>payload_digest := Some h\<rparr>)"
    using h same by (simp_all add: stamp_digest_def none)
  have sha: "tk_sha256 toy_toolkit m = m" for m by (simp add: toy_toolkit_def)
  have "normal_action (unstamped ?a) = normal_action (unstamped ?b)"
    using digest_binds_action[OF plain_dumps_read toy_writes wire_sendable wire_sendable none st] unfolding sha by fastforce
  then show ?thesis using st by simp
qed

theorem documents_roundtrip_witness:
  "action_of_doc plain_readers example_draw (action_dump plain_dumpers (wire_action (spelling True))) = Inr (wire_action (spelling True)) \<and>
   (\<exists>v. json_loads 3 (dumps_compact (action_dump plain_dumpers (wire_action (spelling True)))) = Inr v \<and>
     action_of_doc plain_readers example_draw v = Inr (normal_action (wire_action (spelling True))))"
proof -
  note a = wire_sendable[of True, unfolded sendable_def]
  have "decision_ok (decision_deny 1 2 3 ''r'' None True)" by (simp add: decision_ok_def decision_deny_def)
  from documents_roundtrip[OF plain_dumps_read _ _ this, of "wire_action (spelling True)" 3] a show ?thesis by blast
qed

end
