(* ===== verification/Bootstrap.thy ===== *)
theory Bootstrap
  imports PolicyPac HttpApi RedTeam
begin

text \<open>
  src/src/sentinel/bootstrap.py: the process as it starts, an interceptor wired with defaults around
  the bundle that theory PolicyPac chooses, and the application over it. \<open>env\<close> is the process
  environment; \<open>schema\<close> and \<open>log10\<close> are the third-party parameters of the classifiers.
\<close>

definition getenv :: "(string, string) pydict \<Rightarrow> string \<Rightarrow> string \<Rightarrow> string" where
  "getenv env k dflt = (case map_of env k of None \<Rightarrow> dflt | Some v \<Rightarrow> v)"

definition default_deps :: "schema_check \<Rightarrow> (rat \<Rightarrow> rat) \<Rightarrow> policy_bundle \<Rightarrow> pipeline_deps" where
  "default_deps schema log10 b = \<lparr>pd_bundle = b, pd_scorer = default_scorer, pd_embedding = None,
     pd_intent = default_intent_config, pd_schema = schema, pd_tools = new_tool_registry [], pd_log10 = log10,
     pd_anomaly = default_anomaly_config, pd_model = None, pd_injection = default_injection_config,
     pd_dlp = default_scanner\<rparr>"

definition default_pipeline_state :: pipeline_state where
  "default_pipeline_state = \<lparr>ps_breaker = new_breaker ''identity'', ps_windows = new_baseline_store 300\<rparr>"

definition build_default_interceptor ::
  "codecs \<Rightarrow> ('sk, 'pk) toolkit \<Rightarrow> disk \<Rightarrow> files \<Rightarrow> schema_check \<Rightarrow> (rat \<Rightarrow> rat) \<Rightarrow>
   (string, string) pydict \<Rightarrow> cache \<Rightarrow> interceptor result \<times> cache" where
  "build_default_interceptor cd tk dk fs schema log10 env c =
     (let path = getenv env ''SENTINEL_POLICY_PATH'' ''config/policies/default.yaml'';
          (r, c') = bootstrap_bundle cd tk dk fs path c
      in (bindR r (\<lambda>b. Inr (new_interceptor (default_deps schema log10 b) default_pipeline_state
            (new_identity_db None) (Some new_approval_backend) (Some default_interceptor_config)
            (Some tenants_with_default))), c'))"

text \<open>The module's globals: the state of the application, installed and handed to \<open>create_app\<close>.\<close>

definition bootstrap_state :: "interceptor \<Rightarrow> app_state" where
  "bootstrap_state ic = \<lparr>as_interceptor = ic, as_tenants = ic_tenants ic\<rparr>"

definition asgi_app :: "int \<Rightarrow> int \<Rightarrow> interceptor \<Rightarrow> (limiter \<times> app_state) result \<times> app_state option" where
  "asgi_app r b ic = create_app r b (Some (bootstrap_state ic)) (Some (bootstrap_state ic))"

section \<open>A process without identities\<close>

lemma build_Inr:
  assumes "build_default_interceptor cd tk dk fs schema log10 env c = (Inr ic, c')"
  obtains b where
    "bootstrap_bundle cd tk dk fs (getenv env ''SENTINEL_POLICY_PATH'' ''config/policies/default.yaml'') c = (Inr b, c')"
    "ic_deps ic = default_deps schema log10 b" "ic_state ic = default_pipeline_state" "ic_identities ic = []"
    "ic_approvals ic = Some new_approval_backend" "ic_tenants ic = tenants_with_default"
  using assms
  by (auto simp: build_default_interceptor_def Let_def split_def bindR_Inr_iff prod_eq_iff new_interceptor_def new_identity_db_def)

text \<open>Nobody is allowed anything while the store is empty, and it stays empty under evaluations.\<close>

lemma empty_session_verdicts:
  assumes "all_verdicts (session_evaluate ticks digest) scs st = Inr vs" "ic_identities (snd st) = []"
  shows "length vs = length scs \<and> ALLOW \<notin> set vs"
  using assms
proof (induction scs arbitrary: st vs)
  case (Cons sc scs)
  obtain d ws where d: "fst (session_evaluate ticks digest (sc_action sc) st) = Inr d" "vs = verdict d # ws"
    and ws: "all_verdicts (session_evaluate ticks digest) scs (snd (session_evaluate ticks digest (sc_action sc) st)) = Inr ws"
    using Cons.prems(1) by (auto simp: bindR_Inr_iff)
  have "verdict d \<noteq> ALLOW"
    using session_verdict[of ticks digest "sc_action sc" "fst st" "snd st" d] d(1) Cons.prems(2)
    by (simp add: store_get_def)
  moreover have "length ws = length scs \<and> ALLOW \<notin> set ws"
    using Cons.IH[OF ws] Cons.prems(2) session_keeps[of ticks digest "sc_action sc" st] by simp
  ultimately show ?case using d(2) by simp
qed simp

lemma filter_zip_fst: "length vs = length xs \<Longrightarrow> map (h \<circ> fst) (filter (\<lambda>p. P (fst p)) (zip xs vs)) = map h (filter P xs)"
  by (induction xs vs rule: list_induct2') auto

text \<open>
  C40: The process as shipped. However its policy file, its cache and its classifiers' parameters are, the
  interceptor the bootstrap builds decides with the bundle the bootstrap chose, knows no identity
  and allows nothing: whatever actions it is given one after the other, those that should have been
  allowed are exactly the harness's false positives, and there is no false negative. The application
  installed over it has the one default tenant and a limiter without buckets.
\<close>

theorem shipped_process_allows_nothing:
  assumes "build_default_interceptor cd tk dk fs schema log10 env c = (Inr ic, c')"
    and "fst (harness_run (session_evaluate ticks digest) scs (n, ic)) = Inr rep"
  shows "bootstrap_bundle cd tk dk fs (getenv env ''SENTINEL_POLICY_PATH'' ''config/policies/default.yaml'') c =
      (Inr (current_policy ic), c') \<and>
    total rep = length scs \<and> false_negatives rep = [] \<and>
    false_positives rep = map sc_name (filter (\<lambda>sc. expected_verdict sc = ALLOW) scs) \<and>
    fst (asgi_app per_min top_up ic) = Inr (new_limiter per_min top_up, bootstrap_state ic) \<and>
    list_tenants (as_tenants (bootstrap_state ic)) = [default_tenant_config ''default'' ''Default tenant'']"
proof -
  obtain b where b: "bootstrap_bundle cd tk dk fs (getenv env ''SENTINEL_POLICY_PATH'' ''config/policies/default.yaml'') c = (Inr b, c')"
      "ic_deps ic = default_deps schema log10 b" "ic_identities ic = []" "ic_tenants ic = tenants_with_default"
    using assms(1) by (rule build_Inr)
  obtain vs where vs: "all_verdicts (session_evaluate ticks digest) scs (n, ic) = Inr vs" "rep = report_of (zip scs vs)"
    using assms(2) harness_loop_report[of "session_evaluate ticks digest" scs "[]" "(n, ic)"]
    by (auto simp: harness_run_def new_report_eq bindR_Inr_iff)
  have stop: "length vs = length scs" "ALLOW \<notin> set vs"
    using empty_session_verdicts[OF vs(1)] b(3) by simp_all
  have snds: "snd p \<noteq> ALLOW" if "p \<in> set (zip scs vs)" for p
    using that stop(2) set_zip_rightD[of "fst p" "snd p" scs vs] by auto
  have "filter missed (zip scs vs) = []" using snds by (auto simp: filter_empty_conv missed_def)
  moreover have "filter overblocked (zip scs vs) = filter (\<lambda>p. expected_verdict (fst p) = ALLOW) (zip scs vs)"
    by (rule filter_cong[OF refl]) (use snds in \<open>auto simp: overblocked_def\<close>)
  ultimately have "total rep = length scs \<and> false_negatives rep = [] \<and>
      false_positives rep = map sc_name (filter (\<lambda>sc. expected_verdict sc = ALLOW) scs)"
    using stop(1) filter_zip_fst[of vs scs sc_name "\<lambda>sc. expected_verdict sc = ALLOW"] by (simp add: vs(2) report_of_def)
  moreover have "current_policy ic = b" by (simp add: current_policy_def b(2) default_deps_def)
  moreover have "list_tenants (as_tenants (bootstrap_state ic)) = [default_tenant_config ''default'' ''Default tenant'']"
    by (simp add: bootstrap_state_def b(4) list_tenants_def tenants_with_default_def new_tenant_db_def tenant_register_def)
  ultimately show ?thesis using b(1) by (simp add: asgi_app_def create_app_def get_state_def)
qed

text \<open>A process whose policy file is read as a bundle without rules.\<close>

definition blank_codecs :: codecs where
  "blank_codecs = example_codecs\<lparr>cd_validate := (\<lambda>d. Inr (example_bundle []))\<rparr>"

lemma blank_process:
  "\<exists>ic c. build_default_interceptor blank_codecs toy_toolkit good_disk (\<lambda>_. Inr []) (\<lambda>_ _. Schema_ok) (\<lambda>x. x) [] None =
     (Inr ic, c) \<and> ic_deps ic = example_deps []"
proof -
  obtain n where n: "bundle_bytes blank_codecs toy_toolkit (example_bundle []) = Inr n"
    using toy_canonical unfolding bundle_bytes_def by blast
  have "is_yaml ''config/policies/default.yaml''" by (simp add: is_yaml_def endswith_def)
  then have "load_bundle_from_path blank_codecs toy_toolkit (\<lambda>_. Inr []) ''config/policies/default.yaml'' None = Inr (example_bundle [])"
    by (simp add: load_bundle_from_path_def blank_codecs_def example_codecs_def)
  then have "bootstrap_bundle blank_codecs toy_toolkit good_disk (\<lambda>_. Inr []) ''config/policies/default.yaml'' None =
      (Inr (example_bundle []), Some n)"
    using n by (simp add: bootstrap_bundle_def loader_reload_def new_loader_def cache_save_def good_disk_def)
  then show ?thesis
    by (simp add: build_default_interceptor_def getenv_def new_interceptor_def default_deps_def example_deps_def new_tool_registry_def)
qed

theorem shipped_process_allows_nothing_witness:
  "\<exists>ic c rep. build_default_interceptor blank_codecs toy_toolkit good_disk (\<lambda>_. Inr []) (\<lambda>_ _. Schema_ok) (\<lambda>x. x) [] None =
       (Inr ic, c) \<and>
     fst (harness_run (session_evaluate (\<lambda>n. (example_readings 1, 0)) (\<lambda>_. Inr ''00'')) [scenario ''calm'' ''-'' ALLOW calm_action] (0, ic)) = Inr rep \<and>
     false_positives rep = [''calm'']"
proof -
  let ?decide = "session_evaluate (\<lambda>n. (example_readings 1, 0)) (\<lambda>_. Inr ''00'')"
  let ?scs = "[scenario ''calm'' ''-'' ALLOW calm_action]"
  obtain ic c where ic: "build_default_interceptor blank_codecs toy_toolkit good_disk (\<lambda>_. Inr [])
      (\<lambda>_ _. Schema_ok) (\<lambda>x. x) [] None = (Inr ic, c)" "ic_deps ic = example_deps []"
    using blank_process by blast
  have "\<exists>vs. all_verdicts ?decide ?scs (0, ic) = Inr vs"
    by (rule example_session_returns[of _ "[]"]) (simp_all add: ic bundle_typed_def example_bundle_def)
  then obtain rep where rep: "fst (harness_run ?decide ?scs (0, ic)) = Inr rep"
    using harness_loop_report[of ?decide ?scs "[]" "(0, ic)"] by (auto simp: harness_run_def new_report_eq)
  from shipped_process_allows_nothing[OF ic(1) rep] ic(1) rep show ?thesis by (auto simp: scenario_def)
qed

end
