(* ===== verification/Ops.thy ===== *)
theory Ops
  imports Bootstrap
begin

text \<open>
  What a process sets up around the control plane: src/src/sentinel/utils/logging.py, utils/timing.py,
  observability/metrics.py and observability/telemetry.py, and \<^verbatim>\<open>build_default_interceptor\<close> of
  bootstrap.py with all its steps. The standard library's \<^verbatim>\<open>logging\<close> is modelled as far as it is used;
  structlog, prometheus_client and opentelemetry are the parameters \<open>filtering\<close>, \<open>mk\<close>, \<open>imports\<close>
  and \<open>install\<close>.
\<close>

section \<open>Logging (utils/logging.py)\<close>

text \<open>
  What \<^verbatim>\<open>getattr(logging, name)\<close> can find for a name in upper case: a level, a string, or the
  private table of format styles. \<^verbatim>\<open>str.upper\<close> is exact but for the sharp s, the micro sign and the
  y with diaeresis, whose upper case lies outside the strings of the model and is in no such name.
\<close>

definition upper_char :: "char \<Rightarrow> char" where
  "upper_char c = (let n = (of_char c :: nat) in
     if 97 \<le> n \<and> n \<le> 122 \<or> 224 \<le> n \<and> n \<le> 254 \<and> n \<noteq> 247 then char_of (n - 32) else c)"

datatype log_attr = Level int | Text string | Table

definition logging_attrs :: "(string \<times> log_attr) list" where
  "logging_attrs = [(''CRITICAL'', Level 50), (''FATAL'', Level 50), (''ERROR'', Level 40), (''WARNING'', Level 30),
     (''WARN'', Level 30), (''INFO'', Level 20), (''DEBUG'', Level 10), (''NOTSET'', Level 0),
     (''BASIC_FORMAT'', Text ''%(levelname)s:%(name)s:%(message)s''), (''_STYLES'', Table)]"

definition logging_attr :: "string \<Rightarrow> log_attr" where
  "logging_attr k = (case map_of logging_attrs k of None \<Rightarrow> Level 20 | Some x \<Rightarrow> x)"

text \<open>\<^verbatim>\<open>Logger.setLevel\<close>: the string is not the name of a level.\<close>

definition check_level :: "log_attr \<Rightarrow> int result" where
  "check_level x = (case x of
     Level n \<Rightarrow> Inr n
   | Text s \<Rightarrow> Inl (Exn ValueError (''Unknown level: '' @ repr_str s))
   | Table \<Rightarrow> Inl (Exn TypeError ''Level not an integer or a valid string''))"

text \<open>
  The root logger, with or without a handler, and what structlog was configured with: the minimal
  level and whether it renders JSON.
\<close>

record log_state =
  root_handled :: bool
  root_level :: int
  structlog :: "(log_attr \<times> bool) option"

definition fresh_log :: log_state where
  "fresh_log = \<lparr>root_handled = False, root_level = 30, structlog = None\<rparr>"

text \<open>\<^verbatim>\<open>logging.basicConfig\<close> does nothing when the root has a handler, and sets the level after adding one.\<close>

definition basic_config :: "log_attr \<Rightarrow> log_state \<Rightarrow> unit result \<times> log_state" where
  "basic_config x st =
     (if root_handled st then (Inr (), st)
      else (case check_level x of
          Inl e \<Rightarrow> (Inl e, st\<lparr>root_handled := True\<rparr>)
        | Inr n \<Rightarrow> (Inr (), st\<lparr>root_handled := True, root_level := n\<rparr>)))"

definition log_level_name :: "(string, string) pydict \<Rightarrow> string option \<Rightarrow> string" where
  "log_level_name env level = map upper_char (or_else level (or_else (map_of env ''SENTINEL_LOG_LEVEL'') ''INFO''))"

definition log_format_name :: "(string, string) pydict \<Rightarrow> string option \<Rightarrow> string" where
  "log_format_name env fmt = lower (or_else fmt (or_else (map_of env ''SENTINEL_LOG_FORMAT'') ''json''))"

definition configure_logging ::
  "(log_attr \<Rightarrow> unit result) \<Rightarrow> (string, string) pydict \<Rightarrow> string option \<Rightarrow> string option \<Rightarrow> log_state \<Rightarrow>
   unit result \<times> log_state" where
  "configure_logging filtering env level fmt st =
     (let x = logging_attr (log_level_name env level);
          (r, st') = basic_config x st
      in case r of
        Inl e \<Rightarrow> (Inl e, st')
      | Inr _ \<Rightarrow> (case filtering x of
          Inl e \<Rightarrow> (Inl e, st')
        | Inr _ \<Rightarrow> (Inr (), st'\<lparr>structlog := Some (x, log_format_name env fmt = ''json'')\<rparr>)))"

section \<open>Timing (utils/timing.py)\<close>

text \<open>
  \<^verbatim>\<open>with stopwatch() as t\<close>: the clock is read before the body and, whatever the body does, after it.
\<close>

definition stopwatch :: "rat \<Rightarrow> rat \<Rightarrow> 'a result \<Rightarrow> 'a result \<times> rat" where
  "stopwatch t0 t1 body = (body, fl (fl (t1 - t0) * 1000))"

lemma stopwatch_nonneg: "t0 \<le> t1 \<Longrightarrow> 0 \<le> snd (stopwatch t0 t1 body)"
  by (simp add: stopwatch_def fl_nonneg)

lemma stopwatch_mono: "t1 \<le> t2 \<Longrightarrow> snd (stopwatch t0 t1 body) \<le> snd (stopwatch t0 t2 body)"
  by (simp add: stopwatch_def fl_mono)

section \<open>Metrics (observability/metrics.py)\<close>

datatype instrument_kind = Counter | Histogram "int list"

record instrument =
  in_kind :: instrument_kind
  in_name :: string
  in_help :: string
  in_labels :: "string list"

record 'm metrics =
  actions_total :: 'm
  decisions_total :: 'm
  decision_latency_ms :: 'm
  risk_factors_total :: 'm
  policy_reloads_total :: 'm
  breaker_state_changes_total :: 'm

text \<open>The class attribute \<^verbatim>\<open>_singleton\<close>, and the registry the instruments are entered in.\<close>

record ('m, 'r) metrics_class =
  mc_singleton :: "'m metrics option"
  mc_registry :: 'r

text \<open>\<open>mk\<close> is the constructor of prometheus_client, or of the class without effects when it is missing.\<close>

definition noop_make :: "instrument \<Rightarrow> 'r \<Rightarrow> unit result \<times> 'r" where
  "noop_make i r = (Inr (), r)"

definition then_make ::
  "(instrument \<Rightarrow> 'r \<Rightarrow> 'm result \<times> 'r) \<Rightarrow> instrument \<Rightarrow> ('m \<Rightarrow> 'r \<Rightarrow> 'x result \<times> 'r) \<Rightarrow> 'r \<Rightarrow> 'x result \<times> 'r" where
  "then_make mk i k r = (case mk i r of (Inl e, r') \<Rightarrow> (Inl e, r') | (Inr m, r') \<Rightarrow> k m r')"

definition make_metrics :: "(instrument \<Rightarrow> 'r \<Rightarrow> 'm result \<times> 'r) \<Rightarrow> 'r \<Rightarrow> 'm metrics result \<times> 'r" where
  "make_metrics mk =
     then_make mk \<lparr>in_kind = Counter, in_name = ''sentinel_actions'', in_help = ''Total actions evaluated'',
       in_labels = [''tenant'', ''action_type'']\<rparr> (\<lambda>a.
     then_make mk \<lparr>in_kind = Counter, in_name = ''sentinel_decisions_total'', in_help = ''Total decisions emitted'',
       in_labels = [''tenant'', ''verdict'', ''degraded'']\<rparr> (\<lambda>d.
     then_make mk \<lparr>in_kind = Histogram [1, 5, 10, 25, 50, 100, 250, 500, 1000, 2500],
       in_name = ''sentinel_decision_latency_ms'', in_help = ''Decision pipeline latency in milliseconds'',
       in_labels = [''tenant'']\<rparr> (\<lambda>l.
     then_make mk \<lparr>in_kind = Counter, in_name = ''sentinel_risk_factors_total'', in_help = ''Number of risk factors raised'',
       in_labels = [''tenant'', ''detector'', ''code'']\<rparr> (\<lambda>f.
     then_make mk \<lparr>in_kind = Counter, in_name = ''sentinel_policy_reloads_total'', in_help = ''Successful policy bundle reloads'',
       in_labels = [''tenant'', ''status'']\<rparr> (\<lambda>p.
     then_make mk \<lparr>in_kind = Counter, in_name = ''sentinel_breaker_state_changes_total'', in_help = ''Circuit breaker state changes'',
       in_labels = [''dependency'', ''to_state'']\<rparr> (\<lambda>b r.
       (Inr \<lparr>actions_total = a, decisions_total = d, decision_latency_ms = l, risk_factors_total = f,
          policy_reloads_total = p, breaker_state_changes_total = b\<rparr>, r)))))))"

definition metrics_default ::
  "(instrument \<Rightarrow> 'r \<Rightarrow> 'm result \<times> 'r) \<Rightarrow> ('m, 'r) metrics_class \<Rightarrow> 'm metrics result \<times> ('m, 'r) metrics_class" where
  "metrics_default mk mc = (case mc_singleton mc of
     Some m \<Rightarrow> (Inr m, mc)
   | None \<Rightarrow> (case make_metrics mk (mc_registry mc) of
       (Inl e, r) \<Rightarrow> (Inl e, mc\<lparr>mc_registry := r\<rparr>)
     | (Inr m, r) \<Rightarrow> (Inr m, \<lparr>mc_singleton = Some m, mc_registry = r\<rparr>)))"

text \<open>The instruments are made once: a later call returns the same ones and leaves the registry alone.\<close>

lemma metrics_default_again:
  "metrics_default mk mc = (Inr m, mc') \<Longrightarrow> metrics_default mk' mc' = (Inr m, mc')"
  by (auto simp: metrics_default_def split: option.splits prod.splits sum.splits)

lemma metrics_default_noop: "\<exists>m. metrics_default noop_make mc = (Inr m, mc\<lparr>mc_singleton := Some m\<rparr>)"
  by (cases "mc_singleton mc")
    (auto simp: metrics_default_def make_metrics_def then_make_def noop_make_def)

section \<open>Telemetry (observability/telemetry.py)\<close>

text \<open>\<open>imports\<close>: whether opentelemetry can be imported; \<open>install\<close>: building the exporter and the provider.\<close>

definition configure_telemetry ::
  "unit result \<Rightarrow> (string \<Rightarrow> string \<Rightarrow> unit result) \<Rightarrow> (string, string) pydict \<Rightarrow> string \<Rightarrow> bool result" where
  "configure_telemetry imports install env service =
     (if \<not> truthy (map_of env ''OTEL_EXPORTER_OTLP_ENDPOINT'') then Inr False
      else case imports of
        Inl e \<Rightarrow> if catches Exception e then Inr False else Inl e
      | Inr _ \<Rightarrow> bindR (install service (or_empty (map_of env ''OTEL_EXPORTER_OTLP_ENDPOINT''))) (\<lambda>_. Inr True))"

end
