(* ===== verification/Process.thy ===== *)
theory Process
  imports Ops Numbers
begin

text \<open>
  A process from its start: every step of \<^verbatim>\<open>build_default_interceptor\<close> of src/src/sentinel/bootstrap.py
  in order, and the part of \<^verbatim>\<open>create_app\<close> of api/app.py that reads the environment. Theory Bootstrap has
  the interceptor that results; here logging, telemetry, the cache directory and the metrics come
  before and after it, each of which may raise.
\<close>

section \<open>The application's settings (api/app.py)\<close>

definition cors_origins :: "(string, string) pydict \<Rightarrow> string list" where
  "cors_origins env = (if truthy (map_of env ''SENTINEL_CORS_ORIGINS'')
     then split_on CHR '','' (getenv env ''SENTINEL_CORS_ORIGINS'' []) else [])"

definition rate_settings :: "(string, string) pydict \<Rightarrow> (int \<times> int) result" where
  "rate_settings env =
     bindR (py_int (getenv env ''SENTINEL_RATE_LIMIT_RPM'' ''1200'')) (\<lambda>r.
     bindR (py_int (getenv env ''SENTINEL_RATE_LIMIT_BURST'' ''240'')) (\<lambda>b. Inr (r, b)))"

text \<open>The state is looked for before the settings are read, and stays installed when they are refused.\<close>

definition create_app_env ::
  "(string, string) pydict \<Rightarrow> app_state option \<Rightarrow> app_state option \<Rightarrow> (limiter \<times> app_state) result \<times> app_state option" where
  "create_app_env env given installed = (let g = (case given of None \<Rightarrow> installed | Some st \<Rightarrow> Some st) in
     (bindR (get_state g) (\<lambda>st. bindR (rate_settings env) (\<lambda>(r, b). Inr (new_limiter r b, st))), g))"

lemma create_app_env_settings:
  "rate_settings env = Inr (r, b) \<Longrightarrow> create_app_env env given installed = create_app r b given installed"
  by (simp add: create_app_env_def create_app_def Let_def)

lemma rate_settings_decimal:
  assumes "map_of env ''SENTINEL_RATE_LIMIT_RPM'' = Some (str_int r)" "map_of env ''SENTINEL_RATE_LIMIT_BURST'' = Some (str_int b)"
    and "length (digits_of \<bar>r\<bar>) \<le> max_str_digits" "length (digits_of \<bar>b\<bar>) \<le> max_str_digits"
  shows "rate_settings env = Inr (r, b)"
  using assms by (simp add: rate_settings_def getenv_def py_int_str_int)

lemma cors_origins_join:
  "cors_origins env \<noteq> [] \<Longrightarrow> map_of env ''SENTINEL_CORS_ORIGINS'' = Some (join '','' (cors_origins env))"
  by (cases "map_of env ''SENTINEL_CORS_ORIGINS''") (auto simp: cors_origins_def getenv_def join_split_on split: if_splits)

section \<open>Starting (bootstrap.py)\<close>

text \<open>
  What outlives the start: the logging configuration, the class of metrics and the cached bundle
  file. The platform is everything the start asks of the operating system and of third parties.
\<close>

record ('m, 'r) process =
  pr_log :: log_state
  pr_metrics :: "('m, 'r) metrics_class"
  pr_cache :: cache

record ('m, 'r) platform =
  pf_env :: "(string, string) pydict"
  pf_filtering :: "log_attr \<Rightarrow> unit result"
  pf_otel :: "unit result"
  pf_install :: "string \<Rightarrow> string \<Rightarrow> unit result"
  pf_mkdir :: "string \<Rightarrow> unit result"
  pf_make :: "instrument \<Rightarrow> 'r \<Rightarrow> 'm result \<times> 'r"

text \<open>\<open>then_do\<close> runs the rest of a start unless the step raised.\<close>

definition then_do :: "'x result \<times> 's \<Rightarrow> ('x \<Rightarrow> 's \<Rightarrow> 'y result \<times> 's) \<Rightarrow> 'y result \<times> 's" where
  "then_do m k = (case m of (Inl e, s) \<Rightarrow> (Inl e, s) | (Inr x, s) \<Rightarrow> k x s)"

lemma then_do_simps [simp]: "then_do (Inl e, s) k = (Inl e, s)" "then_do (Inr x, s) k = k x s"
  by (simp_all add: then_do_def)

definition log_step ::
  "('m, 'r) platform \<Rightarrow> string option \<Rightarrow> ('m, 'r) process \<Rightarrow> unit result \<times> ('m, 'r) process" where
  "log_step pf level p = (let (r, lg) = configure_logging (pf_filtering pf) (pf_env pf) level None (pr_log p) in
     (r, p\<lparr>pr_log := lg\<rparr>))"

definition metrics_step ::
  "('m, 'r) platform \<Rightarrow> ('m, 'r) process \<Rightarrow> 'm metrics result \<times> ('m, 'r) process" where
  "metrics_step pf p = (let (r, mc) = metrics_default (pf_make pf) (pr_metrics p) in (r, p\<lparr>pr_metrics := mc\<rparr>))"

definition start_process ::
  "codecs \<Rightarrow> ('sk, 'pk) toolkit \<Rightarrow> disk \<Rightarrow> files \<Rightarrow> schema_check \<Rightarrow> (rat \<Rightarrow> rat) \<Rightarrow>
   ('m, 'r) platform \<Rightarrow> ('m, 'r) process \<Rightarrow> interceptor result \<times> ('m, 'r) process" where
  "start_process cd tk dk fs schema log10 pf p =
     then_do (log_step pf None p) (\<lambda>_ p.
     then_do (configure_telemetry (pf_otel pf) (pf_install pf) (pf_env pf) ''osl-agent-sentinel'', p) (\<lambda>_ p.
     then_do (pf_mkdir pf (getenv (pf_env pf) ''SENTINEL_CACHE_DIR'' ''.sentinel-cache''), p) (\<lambda>_ p.
     then_do (let (r, c) = build_default_interceptor cd tk dk fs schema log10 (pf_env pf) (pr_cache p) in
         (r, p\<lparr>pr_cache := c\<rparr>)) (\<lambda>ic p.
     then_do (metrics_step pf p) (\<lambda>_ p. (Inr ic, p))))))"

text \<open>Importing the module starts the process, installs its state and makes the application.\<close>

definition import_bootstrap ::
  "codecs \<Rightarrow> ('sk, 'pk) toolkit \<Rightarrow> disk \<Rightarrow> files \<Rightarrow> schema_check \<Rightarrow> (rat \<Rightarrow> rat) \<Rightarrow>
   ('m, 'r) platform \<Rightarrow> ('m, 'r) process \<Rightarrow> (limiter \<times> app_state) result \<times> ('m, 'r) process" where
  "import_bootstrap cd tk dk fs schema log10 pf p =
     then_do (start_process cd tk dk fs schema log10 pf p) (\<lambda>ic p.
       (fst (create_app_env (pf_env pf) (Some (bootstrap_state ic)) (Some (bootstrap_state ic))), p))"

section \<open>What can stop a start\<close>

text \<open>The two names of upper case in the module \<^verbatim>\<open>logging\<close> that are no levels.\<close>

definition no_level :: "string set" where
  "no_level = {''BASIC_FORMAT'', ''_STYLES''}"

lemma logging_attr_level: "k \<notin> no_level \<Longrightarrow> \<exists>n. logging_attr k = Level n"
  by (auto simp: logging_attr_def logging_attrs_def no_level_def split: option.splits if_splits)


lemma basic_config_level:
  "basic_config (Level n) st =
     (Inr (), if root_handled st then st else st\<lparr>root_handled := True, root_level := n\<rparr>)"
  by (simp add: basic_config_def check_level_def)

lemma log_step_level:
  assumes "log_level_name (pf_env pf) level \<notin> no_level" "\<And>n. pf_filtering pf (Level n) = Inr ()"
  obtains n where "logging_attr (log_level_name (pf_env pf) level) = Level n"
    "log_step pf level p = (Inr (), p\<lparr>pr_log := \<lparr>root_handled = True,
       root_level = (if root_handled (pr_log p) then root_level (pr_log p) else n),
       structlog = Some (Level n, log_format_name (pf_env pf) None = ''json'')\<rparr>\<rparr>)"
proof -
  obtain n where n: "logging_attr (log_level_name (pf_env pf) level) = Level n" using logging_attr_level[OF assms(1)] by blast
  show ?thesis
    by (rule that[OF n]) (cases "pr_log p", simp add: log_step_def configure_logging_def n basic_config_level assms(2))
qed


text \<open>The later steps of a start leave the logging alone, and after the build only the metrics can fail.\<close>

lemma start_log:
  "log_step pf None p = (Inr (), q) \<Longrightarrow>
     pr_log (snd (start_process cd tk dk fs schema log10 pf p)) = pr_log q"
  by (auto simp: start_process_def then_do_def metrics_step_def split_def Let_def split: sum.split)

lemma telemetry_harmless:
  assumes "\<not> truthy (map_of env ''OTEL_EXPORTER_OTLP_ENDPOINT'') \<or> (\<exists>e. imports = Inl e \<and> catches Exception e)"
  shows "configure_telemetry imports install env service = Inr False"
  using assms by (auto simp: configure_telemetry_def)

text \<open>With a platform that plays along the start ends as reading the bundle ends.\<close>

lemma start_result:
  assumes "\<And>n. pf_filtering pf (Level n) = Inr ()"
    and "\<not> truthy (map_of (pf_env pf) ''OTEL_EXPORTER_OTLP_ENDPOINT'') \<or> (\<exists>e. pf_otel pf = Inl e \<and> catches Exception e)"
    and "pf_mkdir pf (getenv (pf_env pf) ''SENTINEL_CACHE_DIR'' ''.sentinel-cache'') = Inr ()"
    and "fst (metrics_default (pf_make pf) (pr_metrics p)) = Inr m" "log_level_name (pf_env pf) None \<notin> no_level"
  shows "fst (start_process cd tk dk fs schema log10 pf p) =
      fst (build_default_interceptor cd tk dk fs schema log10 (pf_env pf) (pr_cache p))"
    and "pr_cache (snd (start_process cd tk dk fs schema log10 pf p)) =
      snd (build_default_interceptor cd tk dk fs schema log10 (pf_env pf) (pr_cache p))"
proof -
  obtain n where n: "log_step pf None p = (Inr (), p\<lparr>pr_log := \<lparr>root_handled = True,
       root_level = (if root_handled (pr_log p) then root_level (pr_log p) else n),
       structlog = Some (Level n, log_format_name (pf_env pf) None = ''json'')\<rparr>\<rparr>)"
    using log_step_level[OF assms(5,1)] by metis
  obtain mc where mc: "metrics_default (pf_make pf) (pr_metrics p) = (Inr m, mc)"
    using assms(4) by (metis prod.collapse)
  have tel: "configure_telemetry (pf_otel pf) (pf_install pf) (pf_env pf) ''osl-agent-sentinel'' = Inr False"
    by (rule telemetry_harmless[OF assms(2)])
  obtain r c where b: "build_default_interceptor cd tk dk fs schema log10 (pf_env pf) (pr_cache p) = (r, c)"
    by (cases "build_default_interceptor cd tk dk fs schema log10 (pf_env pf) (pr_cache p)")
  show "fst (start_process cd tk dk fs schema log10 pf p) =
      fst (build_default_interceptor cd tk dk fs schema log10 (pf_env pf) (pr_cache p))"
    "pr_cache (snd (start_process cd tk dk fs schema log10 pf p)) =
      snd (build_default_interceptor cd tk dk fs schema log10 (pf_env pf) (pr_cache p))"
    by (cases r; simp add: start_process_def n tel assms(3) b metrics_step_def mc)+
qed

text \<open>A process that has started holds the interceptor its bundle makes and a limiter of its settings.\<close>

lemma import_started:
  assumes "import_bootstrap cd tk dk fs schema log10 pf p = (Inr S, p')"
  obtains ic c r b where "build_default_interceptor cd tk dk fs schema log10 (pf_env pf) (pr_cache p) = (Inr ic, c)"
    "rate_settings (pf_env pf) = Inr (r, b)" "S = (new_limiter r b, bootstrap_state ic)"
proof -
  let ?build = "build_default_interceptor cd tk dk fs schema log10 (pf_env pf) (pr_cache p)"
  obtain ic r b where built: "fst ?build = Inr ic" "rate_settings (pf_env pf) = Inr (r, b)"
      "S = (new_limiter r b, bootstrap_state ic)"
    using assms by (auto simp: import_bootstrap_def start_process_def log_step_def metrics_step_def then_do_def create_app_env_def
      get_state_def bindR_Inr_iff split_def Let_def split: prod.splits sum.splits)
  then show ?thesis by (intro that[of ic "snd ?build"]) (simp_all add: prod_eq_iff)
qed

section \<open>Properties\<close>



text \<open>A platform without telemetry and metrics on which every level is accepted, and a process not yet started.\<close>

definition quiet_platform :: "(string, string) pydict \<Rightarrow> (unit, unit) platform" where
  "quiet_platform env = \<lparr>pf_env = env, pf_filtering = (\<lambda>_. Inr ()), pf_otel = Inl (Exn ImportError ''No module named opentelemetry''),
     pf_install = (\<lambda>_ _. Inr ()), pf_mkdir = (\<lambda>_. Inr ()), pf_make = noop_make\<rparr>"

definition new_process :: "(unit, unit) process" where
  "new_process = \<lparr>pr_log = fresh_log, pr_metrics = \<lparr>mc_singleton = None, mc_registry = ()\<rparr>, pr_cache = None\<rparr>"

lemma quiet_facts:
  "pf_filtering (quiet_platform env) x = Inr ()"
  "\<not> truthy (map_of (pf_env (quiet_platform env)) ''OTEL_EXPORTER_OTLP_ENDPOINT'') \<or>
     (\<exists>e. pf_otel (quiet_platform env) = Inl e \<and> catches Exception e)"
  "pf_mkdir (quiet_platform env) d = Inr ()"
  "\<exists>m. fst (metrics_default (pf_make (quiet_platform env)) (pr_metrics new_process)) = Inr m"
  "\<not> root_handled (pr_log new_process)"
proof -
  obtain m where "metrics_default noop_make (pr_metrics new_process) = (Inr m, (pr_metrics new_process)\<lparr>mc_singleton := Some m\<rparr>)"
    using metrics_default_noop by blast
  then show "\<exists>m. fst (metrics_default (pf_make (quiet_platform env)) (pr_metrics new_process)) = Inr m"
    by (simp add: quiet_platform_def)
qed (simp_all add: quiet_platform_def new_process_def fresh_log_def catches_Exception_iff)

text \<open>The blank process of theory Bootstrap starts on it.\<close>

lemma blank_start:
  obtains ic p' where "import_bootstrap blank_codecs toy_toolkit good_disk (\<lambda>_. Inr []) (\<lambda>_ _. Schema_ok) (\<lambda>x. x)
      (quiet_platform []) new_process = (Inr (default_limiter, bootstrap_state ic), p')"
    "ic_deps ic = example_deps []" "ic_identities ic = []" "ic_tenants ic = tenants_with_default" "ic_state ic = default_pipeline_state"
proof -
  let ?import = "import_bootstrap blank_codecs toy_toolkit good_disk (\<lambda>_. Inr []) (\<lambda>_ _. Schema_ok) (\<lambda>x. x)
      (quiet_platform []) new_process"
  let ?start = "start_process blank_codecs toy_toolkit good_disk (\<lambda>_. Inr []) (\<lambda>_ _. Schema_ok) (\<lambda>x. x)
      (quiet_platform []) new_process"
  obtain ic c where ic: "build_default_interceptor blank_codecs toy_toolkit good_disk (\<lambda>_. Inr [])
      (\<lambda>_ _. Schema_ok) (\<lambda>x. x) [] None = (Inr ic, c)" "ic_deps ic = example_deps []" using blank_process by blast
  have env: "pf_env (quiet_platform []) = []" "pr_cache new_process = None" by (simp_all add: quiet_platform_def new_process_def)
  obtain m where m: "fst (metrics_default (pf_make (quiet_platform [])) (pr_metrics new_process)) = Inr m"
    using quiet_facts(4) by blast
  have "log_level_name (pf_env (quiet_platform [])) None \<notin> no_level" unfolding env(1) no_level_def by code_simp
  from start_result(1)[OF quiet_facts(1,2,3) m this, of blank_codecs toy_toolkit good_disk "\<lambda>_. Inr []" "\<lambda>_ _. Schema_ok" "\<lambda>x. x"]
  have "fst ?start = Inr ic" by (simp only: env ic(1) fst_conv)
  then obtain q where q: "?start = (Inr ic, q)" by (cases ?start) simp
  have "rate_settings [] = Inr (1200, 240)" by code_simp
  then have "?import = (Inr (default_limiter, bootstrap_state ic), q)"
    by (simp add: import_bootstrap_def q create_app_env_def get_state_def env(1) default_limiter_def)
  moreover obtain b where "ic_identities ic = []" "ic_tenants ic = tenants_with_default" "ic_state ic = default_pipeline_state"
    using ic(1) by (rule build_Inr)
  ultimately show ?thesis using that ic(2) by blast
qed


end
