(* ===== verification/Cli.thy ===== *)
theory Cli
  imports Process
begin

text \<open>
  Keys and commands: the key functions of src/src/sentinel/utils/crypto.py, the script
  src/scripts/gen_keys.py, and the commands of cli.py with the callback that runs before each of them.
  Parsing PEM and HKDF belong to the \<^verbatim>\<open>cryptography\<close> package, running the server to uvicorn; typer
  has parsed the arguments and checked that the paths exist.
\<close>

section \<open>Keys (utils/crypto.py)\<close>

text \<open>A key that was loaded, of the type the program can use or of another one.\<close>

datatype 'k loaded_key = Ed25519_key 'k | Other_key

record ('sk, 'pk) key_files =
  kf_read :: "string \<Rightarrow> bytes result"
  kf_private :: "bytes \<Rightarrow> 'sk loaded_key result"
  kf_public :: "bytes \<Rightarrow> 'pk loaded_key result"

definition load_ed25519_private :: "('sk, 'pk) key_files \<Rightarrow> string \<Rightarrow> 'sk result" where
  "load_ed25519_private kf path = bindR (kf_read kf path) (\<lambda>data. bindR (kf_private kf data) (\<lambda>key. case key of
     Ed25519_key k \<Rightarrow> Inr k
   | Other_key \<Rightarrow> Inl (Exn TypeError (path @ '' is not an Ed25519 private key''))))"

definition load_ed25519_public :: "('sk, 'pk) key_files \<Rightarrow> string \<Rightarrow> 'pk result" where
  "load_ed25519_public kf path = bindR (kf_read kf path) (\<lambda>data. bindR (kf_public kf data) (\<lambda>key. case key of
     Ed25519_key k \<Rightarrow> Inr k
   | Other_key \<Rightarrow> Inl (Exn TypeError (path @ '' is not an Ed25519 public key''))))"

text \<open>\<open>sk\<close> is the private key the package draws.\<close>

definition generate_ed25519_keypair :: "('sk, 'pk) toolkit \<Rightarrow> 'sk \<Rightarrow> 'sk \<times> 'pk" where
  "generate_ed25519_keypair tk sk = (sk, tk_public tk sk)"

text \<open>\<open>hkdf\<close>: HKDF with SHA-256 of a length, a salt and an info, applied to a secret.\<close>

definition derive_key ::
  "(nat \<Rightarrow> bytes option \<Rightarrow> bytes \<Rightarrow> bytes \<Rightarrow> bytes result) \<Rightarrow> bytes \<Rightarrow> bytes \<Rightarrow> nat option \<Rightarrow> bytes option \<Rightarrow> bytes result" where
  "derive_key hkdf secret info len salt = hkdf (case len of None \<Rightarrow> 32 | Some n \<Rightarrow> n) salt info secret"

text \<open>A generated pair signs for itself, under the documented behaviour of Ed25519.\<close>

lemma generated_pair_verifies:
  "ed25519_correct tk \<Longrightarrow> generate_ed25519_keypair tk k = (sk, pk) \<Longrightarrow> crypto_verify tk pk (crypto_sign tk sk m) m = Inr True"
  by (auto simp: generate_ed25519_keypair_def verify_signed)

section \<open>scripts/gen_keys.py\<close>

text \<open>
  The names utils/crypto.py binds, and the statement \<^verbatim>\<open>from module import names\<close>. (The message of
  Python goes on with the path of the module.)
\<close>

definition crypto_names :: "string list" where
  "crypto_names = [''annotations'', ''hmac'', ''Path'', ''hashes'', ''serialization'', ''Ed25519PrivateKey'', ''Ed25519PublicKey'',
     ''HKDF'', ''load_ed25519_private'', ''load_ed25519_public'', ''sign'', ''verify'', ''derive_key'',
     ''constant_time_equals'', ''generate_ed25519_keypair'']"

fun import_from :: "string \<Rightarrow> string list \<Rightarrow> string list \<Rightarrow> unit result" where
  "import_from m bound [] = Inr ()"
| "import_from m bound (k # ks) =
     (if k \<in> set bound then import_from m bound ks
      else Inl (Exn ImportError (''cannot import name '' @ quoted k @ '' from '' @ quoted m)))"

text \<open>
  The run of the script: its exit code and the files it wrote. \<open>raw\<close> gives the raw private bytes,
  \<open>pub_bytes\<close> stands for the function it imports, which no module of the repository defines.
\<close>

definition gen_keys ::
  "('sk, 'pk) toolkit \<Rightarrow> ('sk \<Rightarrow> bytes) \<Rightarrow> ('pk \<Rightarrow> bytes) \<Rightarrow> 'sk \<Rightarrow> string \<Rightarrow> int result \<times> (string \<times> bytes) list" where
  "gen_keys tk raw pub_bytes sk out_dir =
     (case import_from ''sentinel.utils.crypto'' crypto_names [''generate_ed25519_keypair'', ''public_key_to_bytes''] of
        Inl e \<Rightarrow> (Inl e, [])
      | Inr _ \<Rightarrow> (let (priv, pub) = generate_ed25519_keypair tk sk in
          (Inr 0, [(out_dir @ ''/policy.key'', raw priv), (out_dir @ ''/policy.pub'', pub_bytes pub)])))"

lemma gen_keys_never_runs:
  "\<exists>e. gen_keys tk raw pub_bytes sk out_dir = (Inl e, []) \<and> exn_class e = ImportError"
  by (simp add: gen_keys_def crypto_names_def)

section \<open>cli.py\<close>

text \<open>A command prints a line, or ends with an exit code, or raises.\<close>

datatype cli_outcome = Prints string | Exits int

definition verify_command ::
  "codecs \<Rightarrow> ('sk, 'pk) toolkit \<Rightarrow> ('sk, 'pk) key_files \<Rightarrow> files \<Rightarrow> string \<Rightarrow> string \<Rightarrow> cli_outcome result" where
  "verify_command cd tk kf fs path public_key =
     bindR (kf_read kf public_key) (\<lambda>data. bindR (kf_public kf data) (\<lambda>key. case key of
       Other_key \<Rightarrow> Inr (Exits 2)
     | Ed25519_key pk \<Rightarrow> bindR (policy_verify cd tk fs path pk) (\<lambda>line. Inr (Prints line))))"

text \<open>\<open>write path text\<close> is what opening and writing a text file does to the files.\<close>

type_synonym writer = "string \<Rightarrow> string \<Rightarrow> files \<Rightarrow> unit result \<times> files"

definition good_writer :: writer where
  "good_writer path text fs = (Inr (), fs(path := Inr text))"

definition sign_command ::
  "codecs \<Rightarrow> ('sk, 'pk) toolkit \<Rightarrow> ('sk, 'pk) key_files \<Rightarrow> writer \<Rightarrow> string \<Rightarrow> string \<Rightarrow> string \<Rightarrow> files \<Rightarrow>
   cli_outcome result \<times> files" where
  "sign_command cd tk kf write path private_key out fs =
     (case bindR (fs path) (sign_source cd path) of
        Inl e \<Rightarrow> (Inl e, fs)
      | Inr b \<Rightarrow> (case bindR (kf_read kf private_key) (kf_private kf) of
          Inl e \<Rightarrow> (Inl e, fs)
        | Inr Other_key \<Rightarrow> (Inr (Exits 2), fs)
        | Inr (Ed25519_key sk) \<Rightarrow> (case signed_text cd tk sk b of
            Inl e \<Rightarrow> (Inl e, fs)
          | Inr text \<Rightarrow> (case write out text fs of
              (Inl e, fs') \<Rightarrow> (Inl e, fs')
            | (Inr _, fs') \<Rightarrow> (Inr (Prints (''signed: '' @ out)), fs')))))"

record server_args =
  sv_app :: string
  sv_host :: string
  sv_port :: int
  sv_workers :: int
  sv_reload :: bool
  sv_log_level :: string

definition serve_args :: "string option \<Rightarrow> int option \<Rightarrow> int option \<Rightarrow> bool \<Rightarrow> server_args" where
  "serve_args host port workers rel = \<lparr>sv_app = ''sentinel.bootstrap:asgi_app'',
     sv_host = (case host of None \<Rightarrow> ''0.0.0.0'' | Some h \<Rightarrow> h), sv_port = (case port of None \<Rightarrow> 8080 | Some p \<Rightarrow> p),
     sv_workers = (case workers of None \<Rightarrow> 1 | Some w \<Rightarrow> w), sv_reload = rel, sv_log_level = ''info''\<rparr>"

definition sentinel_version :: string where
  "sentinel_version = ''0.1.0''"

datatype cli_command =
    Version
  | Serve "string option" "int option" "int option" bool
  | Policy_verify string string
  | Policy_sign string string string
  | Redteam_run

text \<open>What the commands use besides the platform.\<close>

record ('sk, 'pk) cli_tools =
  ct_codecs :: codecs
  ct_toolkit :: "('sk, 'pk) toolkit"
  ct_keys :: "('sk, 'pk) key_files"
  ct_write :: writer
  ct_disk :: disk
  ct_uvicorn :: "server_args \<Rightarrow> unit result"
  ct_schema :: schema_check
  ct_log10 :: "rat \<Rightarrow> rat"
  ct_ticks :: "nat \<Rightarrow> readings \<times> rat"
  ct_digest :: digest
  ct_draws :: "nat \<Rightarrow> draw"

text \<open>
  The red-team run imports the bootstrap module, which starts a process of its own, builds another
  interceptor, and exits with the harness's code.
\<close>

definition redteam_command ::
  "('sk, 'pk) cli_tools \<Rightarrow> ('m, 'r) platform \<Rightarrow> files \<Rightarrow> ('m, 'r) process \<Rightarrow> cli_outcome result \<times> ('m, 'r) process" where
  "redteam_command ct pf fs p =
     then_do (import_bootstrap (ct_codecs ct) (ct_toolkit ct) (ct_disk ct) fs (ct_schema ct) (ct_log10 ct) pf p) (\<lambda>_ p.
     then_do (start_process (ct_codecs ct) (ct_toolkit ct) (ct_disk ct) fs (ct_schema ct) (ct_log10 ct) pf p) (\<lambda>ic p.
       (bindR (redteam_run (session_evaluate (ct_ticks ct) (ct_digest ct)) (ct_draws ct) ''default'' (0, ic)) (\<lambda>n. Inr (Exits n)), p)))"

fun cli_command_run ::
  "('sk, 'pk) cli_tools \<Rightarrow> ('m, 'r) platform \<Rightarrow> cli_command \<Rightarrow> files \<Rightarrow> ('m, 'r) process \<Rightarrow>
   cli_outcome result \<times> files \<times> ('m, 'r) process" where
  "cli_command_run ct pf Version fs p = (Inr (Prints sentinel_version), fs, p)"
| "cli_command_run ct pf (Serve host port workers rel) fs p =
     (bindR (ct_uvicorn ct (serve_args host port workers rel)) (\<lambda>_. Inr (Prints [])), fs, p)"
| "cli_command_run ct pf (Policy_verify path pk) fs p =
     (verify_command (ct_codecs ct) (ct_toolkit ct) (ct_keys ct) fs path pk, fs, p)"
| "cli_command_run ct pf (Policy_sign path sk out) fs p =
     (let (r, fs') = sign_command (ct_codecs ct) (ct_toolkit ct) (ct_keys ct) (ct_write ct) path sk out fs in (r, fs', p))"
| "cli_command_run ct pf Redteam_run fs p = (let (r, p') = redteam_command ct pf fs p in (r, fs, p'))"

text \<open>The callback configures logging before the command runs.\<close>

definition cli_main ::
  "('sk, 'pk) cli_tools \<Rightarrow> ('m, 'r) platform \<Rightarrow> bool \<Rightarrow> cli_command \<Rightarrow> files \<Rightarrow> ('m, 'r) process \<Rightarrow>
   cli_outcome result \<times> files \<times> ('m, 'r) process" where
  "cli_main ct pf verbose cmd fs p =
     (case log_step pf (if verbose then Some ''DEBUG'' else None) p of
        (Inl e, p') \<Rightarrow> (Inl e, fs, p')
      | (Inr _, p') \<Rightarrow> cli_command_run ct pf cmd fs p')"

section \<open>Logging under the commands\<close>

text \<open>What one call of \<open>configure_logging\<close> leaves when the level is one: a later call overrides structlog, not the root logger.\<close>

definition logs_at :: "('m, 'r) platform \<Rightarrow> string option \<Rightarrow> log_state \<Rightarrow> log_state \<Rightarrow> bool" where
  "logs_at pf level before after \<longleftrightarrow> root_handled after \<and>
     structlog after = Some (logging_attr (log_level_name (pf_env pf) level), log_format_name (pf_env pf) None = ''json'') \<and>
     (if root_handled before then root_level after = root_level before
      else Level (root_level after) = logging_attr (log_level_name (pf_env pf) level))"

lemma log_step_logs:
  assumes "log_level_name (pf_env pf) level \<notin> no_level" "\<And>n. pf_filtering pf (Level n) = Inr ()"
  obtains q where "log_step pf level p = (Inr (), q)" "logs_at pf level (pr_log p) (pr_log q)"
proof -
  obtain n where n: "logging_attr (log_level_name (pf_env pf) level) = Level n"
    "log_step pf level p = (Inr (), p\<lparr>pr_log := \<lparr>root_handled = True,
       root_level = (if root_handled (pr_log p) then root_level (pr_log p) else n),
       structlog = Some (Level n, log_format_name (pf_env pf) None = ''json'')\<rparr>\<rparr>)"
    using log_step_level[OF assms] by blast
  show ?thesis by (rule that[OF n(2)]) (simp add: logs_at_def n(1))
qed

lemma start_logs:
  assumes "log_level_name (pf_env pf) None \<notin> no_level" "\<And>n. pf_filtering pf (Level n) = Inr ()"
  shows "logs_at pf None (pr_log p) (pr_log (snd (start_process cd tk dk fs schema lg pf p)))"
proof -
  obtain q where "log_step pf None p = (Inr (), q)" "logs_at pf None (pr_log p) (pr_log q)"
    using log_step_logs[OF assms] by blast
  then show ?thesis using start_log by metis
qed

lemma redteam_logs:
  assumes "log_level_name (pf_env pf) None \<notin> no_level" "\<And>n. pf_filtering pf (Level n) = Inr ()"
  shows "logs_at pf None (pr_log p) (pr_log (snd (redteam_command ct pf fs p)))"
proof -
  let ?start = "start_process (ct_codecs ct) (ct_toolkit ct) (ct_disk ct) fs (ct_schema ct) (ct_log10 ct) pf"
  have first: "logs_at pf None (pr_log p) (pr_log (snd (?start p)))" by (rule start_logs[OF assms])
  moreover have "logs_at pf None (pr_log p) (pr_log (snd (?start (snd (?start p)))))"
    using first start_logs[OF assms, of "snd (?start p)" "ct_codecs ct" "ct_toolkit ct" "ct_disk ct" fs "ct_schema ct" "ct_log10 ct"]
    by (auto simp: logs_at_def)
  ultimately show ?thesis
    by (auto simp: redteam_command_def import_bootstrap_def then_do_def split: prod.split sum.split)
qed

text \<open>The logging configuration a command ends with.\<close>

definition final_log ::
  "('sk, 'pk) cli_tools \<Rightarrow> ('m, 'r) platform \<Rightarrow> files \<Rightarrow> ('m, 'r) process \<Rightarrow> bool \<Rightarrow> cli_command \<Rightarrow> log_state" where
  "final_log ct pf fs p verbose cmd = pr_log (snd (snd (cli_main ct pf verbose cmd fs p)))"

text \<open>What \<^verbatim>\<open>policy verify\<close> makes of the file \<^verbatim>\<open>policy sign\<close> wrote.\<close>

lemma verify_signed_file:
  assumes "policy_sign cd tk sk path raw = Inr content" "(if yaml_suffix path then cd_yaml cd raw else read_json cd raw) = Inr (VDict d)"
    and "cd_validate cd d = Inr b" "bundle_bytes cd tk b = Inr m" "codec_at cd tk b" "ed25519_correct tk" "is_yaml out"
    and "bindR (kf_read kf public_key) (kf_public kf) = Inr k"
  shows "verify_command cd tk kf (fs(out := Inr content)) out public_key =
    (case k of
       Other_key \<Rightarrow> Inr (Exits 2)
     | Ed25519_key pk \<Rightarrow>
         bindR (bundle_bytes cd tk (b\<lparr>signature := None\<rparr>)) (\<lambda>m'. bindR (crypto_verify tk pk (crypto_sign tk sk m) m') (\<lambda>ok. if ok
           then Inr (Prints (''ok: version='' @ version b @ '' rules='' @ str_int (int (length (rules b)))))
           else Inl (Exn PolicyError ''Bundle signature verification failed''))))"
proof -
  let ?fs = "fs(out := Inr content)"
  have written: "?fs out = Inr content" by simp
  have load: "load_bundle_from_path cd tk ?fs out (Some pk) =
      bindR (bundle_bytes cd tk (b\<lparr>signature := None\<rparr>)) (\<lambda>m'. bindR (crypto_verify tk pk (crypto_sign tk sk m) m') (\<lambda>ok.
        if ok then Inr (normal_bundle (b\<lparr>signature := None\<rparr>)) else Inl (Exn PolicyError ''Bundle signature verification failed'')))" for pk
    using load_signed[where fs = ?fs and pk = pk, OF assms(1) written assms(7,2,3,5,6)] assms(4) by (metis sum.inject(2))
  obtain data where "kf_read kf public_key = Inr data" "kf_public kf data = Inr k"
    using assms(8) by (auto simp: bindR_Inr_iff)
  then show ?thesis
    by (cases k) (simp_all add: verify_command_def policy_verify_def load bindR_def normal_bundle_def split: sum.split)
qed

section \<open>Properties\<close>

text \<open>
  The verbose flag. For a command that does not import the bootstrap module \<^verbatim>\<open>--verbose\<close> makes structlog
  log from DEBUG on. For the red-team run it has no effect on structlog, through which every log line of
  the program goes: starting the process configures logging again from the environment alone, so
  the run with the flag and the run without end in the same configuration. Only the root logger,
  which the program does not use, keeps the level of the flag.
\<close>

theorem verbose_is_undone:
  assumes "log_level_name (pf_env pf) None \<notin> no_level" "\<And>n. pf_filtering pf (Level n) = Inr ()" "\<not> root_handled (pr_log p)"
  shows "structlog (final_log ct pf fs p True Version) = Some (Level 10, log_format_name (pf_env pf) None = ''json'') \<and>
    structlog (final_log ct pf fs p True Redteam_run) = structlog (final_log ct pf fs p False Redteam_run) \<and>
    structlog (final_log ct pf fs p True Redteam_run) = structlog (final_log ct pf fs p False Version) \<and>
    root_level (final_log ct pf fs p True Redteam_run) = 10"
proof -
  have dbg: "log_level_name (pf_env pf) (Some ''DEBUG'') = ''DEBUG''" "logging_attr ''DEBUG'' = Level 10"
    by (simp_all add: log_level_name_def or_else_def upper_char_def logging_attr_def logging_attrs_def)
  then have d: "log_level_name (pf_env pf) (Some ''DEBUG'') \<notin> no_level" by (simp add: no_level_def)
  obtain q where q: "log_step pf (Some ''DEBUG'') p = (Inr (), q)" "logs_at pf (Some ''DEBUG'') (pr_log p) (pr_log q)"
    using log_step_logs[OF d assms(2)] by blast
  obtain r where r: "log_step pf None p = (Inr (), r)" "logs_at pf None (pr_log p) (pr_log r)"
    using log_step_logs[OF assms(1,2)] by blast
  have run: "final_log ct pf fs p True Redteam_run = pr_log (snd (redteam_command ct pf fs q))"
    "final_log ct pf fs p False Redteam_run = pr_log (snd (redteam_command ct pf fs r))"
    "final_log ct pf fs p True Version = pr_log q" "final_log ct pf fs p False Version = pr_log r"
    by (simp_all add: final_log_def cli_main_def q r split_def Let_def)
  show ?thesis
    unfolding run using redteam_logs[OF assms(1,2), of q ct fs] redteam_logs[OF assms(1,2), of r ct fs] q(2) r(2) assms(3) dbg
    by (simp add: logs_at_def)
qed

text \<open>\<^verbatim>\<open>policy sign\<close> and \<^verbatim>\<open>policy verify\<close> one after the other, where the codecs read back what they wrote.\<close>

lemma sign_then_verify:
  assumes "bindR (kf_read kf private_key) (kf_private kf) = Inr k" "bindR (kf_read kf public_key) (kf_public kf) = Inr k'"
    and "fs path = Inr raw" "(if yaml_suffix path then cd_yaml cd raw else read_json cd raw) = Inr (VDict d)"
    and "cd_validate cd d = Inr b" "bundle_bytes cd tk b = Inr m"
    and "codec_at cd tk b" "ed25519_correct tk" "is_yaml out"
  shows "case k of
      Other_key \<Rightarrow> sign_command cd tk kf good_writer path private_key out fs = (Inr (Exits 2), fs)
    | Ed25519_key sk \<Rightarrow> (\<exists>content. sign_command cd tk kf good_writer path private_key out fs =
          (Inr (Prints (''signed: '' @ out)), fs(out := Inr content)) \<and>
        verify_command cd tk kf (fs(out := Inr content)) out public_key =
          (case k' of
             Other_key \<Rightarrow> Inr (Exits 2)
           | Ed25519_key pk \<Rightarrow>
               bindR (bundle_bytes cd tk (b\<lparr>signature := None\<rparr>)) (\<lambda>m'. bindR (crypto_verify tk pk (crypto_sign tk sk m) m') (\<lambda>ok. if ok
                 then Inr (Prints (''ok: version='' @ version b @ '' rules='' @ str_int (int (length (rules b)))))
                 else Inl (Exn PolicyError ''Bundle signature verification failed'')))) \<and>
        (signature b = None \<longrightarrow> bundle_bytes cd tk (b\<lparr>signature := None\<rparr>) = Inr m) \<and>
        crypto_verify tk (tk_public tk sk) (crypto_sign tk sk m) m = Inr True)"
proof -
  have src: "bindR (fs path) (sign_source cd path) = Inr b"
    by (simp add: assms(3,5) sign_source_def assms(4))
  show ?thesis
  proof (cases k)
    case Other_key
    then show ?thesis by (simp add: sign_command_def src assms(1))
  next
    case (Ed25519_key sk)
    obtain content where content: "signed_text cd tk sk b = Inr content" by (simp add: signed_text_def assms(6))
    then have signed: "policy_sign cd tk sk path raw = Inr content"
      by (simp add: policy_sign_def sign_source_def assms(4,5))
    note ver = verify_signed_file[OF signed assms(4,5,6,7,8,9,2)]
    have sgn: "sign_command cd tk kf good_writer path private_key out fs = (Inr (Prints (''signed: '' @ out)), fs(out := Inr content))"
      by (simp add: sign_command_def src assms(1) Ed25519_key content good_writer_def)
    have same: "signature b = None \<longrightarrow> bundle_bytes cd tk (b\<lparr>signature := None\<rparr>) = Inr m"
      using assms(6) by (cases b) auto
    show ?thesis
      unfolding Ed25519_key loaded_key.case
      by (intro exI[of _ content] conjI sgn ver same verify_signed[OF assms(8)])
  qed
qed

theorem verbose_is_undone_witness:
  "\<forall>(ct :: (nat, nat) cli_tools) fs.
     structlog (final_log ct (quiet_platform []) fs new_process True Version) = Some (Level 10, True) \<and>
     structlog (final_log ct (quiet_platform []) fs new_process True Redteam_run) =
       structlog (final_log ct (quiet_platform []) fs new_process False Redteam_run)"
proof (intro allI)
  fix ct :: "(nat, nat) cli_tools" and fs :: files
  have name: "log_level_name (pf_env (quiet_platform [])) None = ''INFO''" by code_simp
  have lev: "log_level_name (pf_env (quiet_platform [])) None \<notin> no_level" unfolding name by (simp add: no_level_def)
  have fmt: "log_format_name (pf_env (quiet_platform [])) None = ''json''" by code_simp
  from verbose_is_undone[OF lev quiet_facts(1) quiet_facts(5), of ct fs]
  show "structlog (final_log ct (quiet_platform []) fs new_process True Version) = Some (Level 10, True) \<and>
     structlog (final_log ct (quiet_platform []) fs new_process True Redteam_run) =
       structlog (final_log ct (quiet_platform []) fs new_process False Redteam_run)"
    unfolding fmt by simp
qed

text \<open>Key files that all hold the key 5.\<close>

definition example_keys :: "(nat, nat) key_files" where
  "example_keys = \<lparr>kf_read = (\<lambda>_. Inr []), kf_private = (\<lambda>_. Inr (Ed25519_key 5)), kf_public = (\<lambda>_. Inr (Ed25519_key 5))\<rparr>"

end
