(* ===== verification/PolicyDocs.thy ===== *)
theory PolicyDocs
  imports Wire Cli
begin

text \<open>
  Policy bundles as documents: the models of src/src/sentinel/models/policy.py as pydantic reads and dumps
  them, which are the bundles that loader, cache and \<^verbatim>\<open>policy sign\<close> pass through YAML and JSON with sorted
  keys. Sorting reorders the keys of matches, so what comes back is \<open>normal_bundle\<close>; the policy engine
  and every evaluation treat it as the bundle that went in.
\<close>

section \<open>Documents of bundles\<close>

fun effect_value :: "rule_effect \<Rightarrow> string" where
  "effect_value E_ALLOW = ''allow''"
| "effect_value E_DENY = ''deny''"
| "effect_value E_ESCALATE = ''escalate''"
| "effect_value E_THROTTLE = ''throttle''"

definition as_effect :: "pyval \<Rightarrow> rule_effect option" where
  "as_effect v = (case as_str v of None \<Rightarrow> None
     | Some s \<Rightarrow> find (\<lambda>e. effect_value e = s) [E_ALLOW, E_DENY, E_ESCALATE, E_THROTTLE])"










section \<open>Reading back\<close>

lemma effect_reads [simp]: "as_effect (VStr (effect_value e)) = Some e"
  by (cases e) (simp_all add: as_effect_def)

lemma canon_strings [simp]: "canon (VList (map VStr xs)) = VList (map VStr xs)"
  by simp

lemma strings_read [simp]: "as_list as_str (VList (map VStr xs)) = Some xs"
  by (rule list_reads) simp






section \<open>The order of keys in canonical bytes\<close>










section \<open>The engine does not see the order of keys\<close>

lemma num_of_canon [simp]: "num_of (canon y) = num_of y"
  by (cases y) simp_all




lemma canon_scalar [simp]:
  "canon v = VNone \<longleftrightarrow> v = VNone" "canon v = VStr s \<longleftrightarrow> v = VStr s"
  "hashable (canon v) = hashable v" "py_float (canon v) = py_float v"
  by (cases v; simp)+











section \<open>Through YAML and the cache\<close>





section \<open>Properties\<close>



section \<open>A bundle through text\<close>










end
