(* ===== verification/Service.thy ===== *)
theory Service
  imports Process
begin

text \<open>
  The application over a whole run: requests served one after the other by \<open>app\<close> of theory HttpApi, from
  the state the bootstrap leaves. A run is a list of exchanges, each a request with what the application
  draws for it: clocks, fresh ids, and FastAPI's routing. What the application remembers of identities
  is a map, and the map is a function of the answers it gave: \<open>record_ack\<close> is the abstract service, and
  \<open>registry\<close> the abstraction. On it rest the provenance of an ALLOW, from the first request to the last,
  and the rate limit as its callers see it.
\<close>

section \<open>Runs\<close>

type_synonym 'b exchange = "'b app_env \<times> 'b request"

type_synonym service_state = "limiter \<times> app_state"

fun run_app :: "'b exchange list \<Rightarrow> service_state \<Rightarrow> response result list \<times> service_state" where
  "run_app [] S = ([], S)"
| "run_app (x # xs) S = (let (r, S1) = app (fst x) (snd x) S; (rs, S2) = run_app xs S1 in (r # rs, S2))"

abbreviation answers :: "'b exchange list \<Rightarrow> service_state \<Rightarrow> response result list" where
  "answers xs S \<equiv> fst (run_app xs S)"

abbreviation after :: "'b exchange list \<Rightarrow> service_state \<Rightarrow> service_state" where
  "after xs S \<equiv> snd (run_app xs S)"

lemma run_Cons [simp]: "answers (x # xs) S = fst (app (fst x) (snd x) S) # answers xs (snd (app (fst x) (snd x) S))"
    "after (x # xs) S = after xs (snd (app (fst x) (snd x) S))"
  by (simp_all add: split_def Let_def)

declare run_app.simps(2) [simp del]

lemma run_length [simp]: "length (answers xs S) = length xs"
  by (induction xs arbitrary: S) simp_all

lemma run_nth: "k < length xs \<Longrightarrow> answers xs S ! k = fst (app (fst (xs ! k)) (snd (xs ! k)) (after (take k xs) S))"
proof (induction xs arbitrary: S k)
  case (Cons x xs)
  then show ?case by (cases k) simp_all
qed simp

text \<open>
  What the code and its framework make of an application: one token, no CORS middleware, no policy
  loader (no code wires one), and, documented of FastAPI, that its own answers (not found, method not
  allowed, validation, the pages of the documentation) carry neither a decision nor an identity. The
  paths that need no token belong to the routes of health.py and to metrics.
\<close>

definition deployed :: "string \<Rightarrow> 'b exchange \<Rightarrow> bool" where
  "deployed tok x \<longleftrightarrow> ae_token (fst x) = tok \<and> ae_cors (fst x) = (\<lambda>h. h) \<and> re_loader (ae_route (fst x)) = None \<and>
     (\<forall>call. ae_dispatch (fst x) (snd x) = Inl call \<and> is_public (rq_path (snd x)) \<longrightarrow>
        call \<in> {Healthz, Livez, Readyz, Get_metrics}) \<and>
     (\<forall>resp. ae_dispatch (fst x) (snd x) = Inr resp \<longrightarrow>
        rs_body resp \<notin> range Decision_body \<union> range Identity_body)"

section \<open>One exchange\<close>

text \<open>The request is let through to the routes.\<close>

definition charged :: "'b exchange \<Rightarrow> bool" where
  "charged x \<longleftrightarrow> is_public (rq_path (snd x)) \<or> authenticated (ae_token (fst x)) (snd x)"

definition admits :: "'b exchange \<Rightarrow> limiter \<Rightarrow> bool \<times> limiter" where
  "admits x l = admit (ae_made (fst x)) (ae_now (fst x)) (tenant_header (snd x)) l"

abbreviation routed :: "'b exchange \<Rightarrow> app_state \<Rightarrow> response result \<times> app_state" where
  "routed x st \<equiv> router (ae_dispatch (fst x)) (ae_route (fst x)) (snd x) st"

text \<open>The answer of the rate limiter\<close>

definition limited :: "'b exchange \<Rightarrow> response result" where
  "limited x = Inr \<lparr>rs_status = 429,
     rs_body = Error_body [(''error'', ''rate_limited''), (''tenant'', tenant_header (snd x))],
     rs_headers = [(''retry-after'', ''1'')]\<rparr>"

lemma app_refused:
  assumes "\<not> charged x"
  shows "snd (app (fst x) (snd x) (l, st)) = (l, st)"
    and "fst (app (fst x) (snd x) (l, st)) = Inr resp \<Longrightarrow> \<exists>e. rs_body resp = Error_body e"
  using assms bearer_auth_rejects[of "snd x" "ae_token (fst x)"
      "rate_limited (ae_made (fst x)) (ae_now (fst x)) (request_id (ae_fresh (fst x)) (ae_cors (fst x)
         (router (ae_dispatch (fst x)) (ae_route (fst x)))))" "(l, st)"]
  unfolding charged_def app_def by (auto split: sum.splits)

lemma app_charged:
  assumes "charged x" "ae_cors (fst x) = (\<lambda>h. h)"
  shows "app (fst x) (snd x) (l, st) = (if fst (admits x l)
    then (fst (request_id (ae_fresh (fst x)) (router (ae_dispatch (fst x)) (ae_route (fst x))) (snd x) st),
       snd (admits x l), snd (routed x st))
    else (limited x, snd (admits x l), st))"
proof -
  have "is_public (rq_path (snd x)) \<or> authenticated (ae_token (fst x)) (snd x)" using assms(1) by (simp add: charged_def)
  note passes = bearer_auth_passes[OF this]
  have "snd (request_id (ae_fresh (fst x)) (router (ae_dispatch (fst x)) (ae_route (fst x))) (snd x) st) = snd (routed x st)"
    by (simp add: request_id_def split_def Let_def)
  then show ?thesis
    unfolding app_def passes assms(2) rate_limited_eq admits_def limited_def by (simp add: split_def Let_def)
qed

lemma request_id_Inr:
  "fst (request_id fresh h r s) = Inr resp \<Longrightarrow> \<exists>x. fst (h r s) = Inr x \<and> rs_body x = rs_body resp \<and> rs_status x = rs_status resp"
  by (auto simp: request_id_def split_def Let_def bindR_Inr_iff)

text \<open>An answer whose body no middleware writes comes from the routes, and from a request let through.\<close>

lemma app_answer:
  assumes "fst (app (fst x) (snd x) (l, st)) = Inr resp" "\<forall>e. rs_body resp \<noteq> Error_body e" "ae_cors (fst x) = (\<lambda>h. h)"
  obtains y where "charged x" "fst (admits x l)" "fst (routed x st) = Inr y" "rs_body y = rs_body resp" "rs_status y = rs_status resp"
proof -
  have c: "charged x" using app_refused(2)[of x l st resp] assms(1,2) by blast
  have a: "fst (admits x l)"
    using assms(1,2) unfolding app_charged[OF c assms(3)] limited_def by (auto split: if_splits)
  then have "fst (request_id (ae_fresh (fst x)) (router (ae_dispatch (fst x)) (ae_route (fst x))) (snd x) st) = Inr resp"
    using assms(1) unfolding app_charged[OF c assms(3)] by simp
  then show ?thesis using that c a by (auto dest!: request_id_Inr)
qed

section \<open>The identities\<close>

text \<open>The tenant the request names is registered.\<close>

definition known_tenant :: "'b request \<Rightarrow> app_state \<Rightarrow> bool" where
  "known_tenant r st \<longleftrightarrow> map_of (as_tenants st) (or_else (header r ''x-tenant-id'') ''default'') \<noteq> None"

definition registry :: "service_state \<Rightarrow> string \<Rightarrow> identity option" where
  "registry S = store_get (ic_identities (as_interceptor (snd S)))"

text \<open>The identity an answer acknowledges, and the abstract service.\<close>

definition ack :: "response result \<Rightarrow> identity option" where
  "ack x = (case x of
     Inr resp \<Rightarrow> if rs_status resp = 201 then (case rs_body resp of Identity_body i \<Rightarrow> Some i | _ \<Rightarrow> None) else None
   | Inl _ \<Rightarrow> None)"

definition record_ack :: "response result \<Rightarrow> (string \<Rightarrow> identity option) \<Rightarrow> string \<Rightarrow> identity option" where
  "record_ack x m = (case ack x of None \<Rightarrow> m | Some i \<Rightarrow> m(did i \<mapsto> i))"

lemma record_ack_apply: "record_ack x m d = (case ack x of None \<Rightarrow> m d | Some i \<Rightarrow> if d = did i then Some i else m d)"
  by (simp add: record_ack_def split: option.split)

lemma ack_Some_iff: "ack x = Some i \<longleftrightarrow> (\<exists>resp. x = Inr resp \<and> rs_status resp = 201 \<and> rs_body resp = Identity_body i)"
  by (auto simp: ack_def split: sum.splits response_body.splits if_splits)

lemma store_get_put: "store_get (store_put i db) = (store_get db)(did i \<mapsto> i)"
  by (simp add: fun_eq_iff store_get_def store_put_def)

text \<open>What a route leaves alone, and what it does to the identities.\<close>

lemma evaluate_keeps:
  "ic_deps (snd (interceptor_evaluate dg el rd a ic)) = ic_deps ic"
  "ic_identities (snd (interceptor_evaluate dg el rd a ic)) = ic_identities ic"
  "ic_approvals (snd (interceptor_evaluate dg el rd a ic)) = ic_approvals ic"
  by (simp_all add: interceptor_evaluate_eq split_def Let_def split: sum.split)

lemma route_keeps:
  assumes "re_loader env = None"
  shows "as_tenants (snd (route env hdr call st)) = as_tenants st \<and>
    ic_deps (as_interceptor (snd (route env hdr call st))) = ic_deps (as_interceptor st) \<and>
    ic_approvals (as_interceptor (snd (route env hdr call st))) = ic_approvals (as_interceptor st)"
  using assms
  by (cases call)
    (auto simp: with_tenant_eq evaluate_route_def reload_policy_route_def reload_policy_def upsert_identity_route_def
      upsert_identity_def with_ic_def evaluate_keeps split_def Let_def split: option.split)

lemma route_identities:
  assumes "re_loader env = None"
  shows "store_get (ic_identities (as_interceptor (snd (route env hdr call st)))) =
    (case call of
       Upsert_identity i \<Rightarrow> if map_of (as_tenants st) (or_else hdr ''default'') = None
         then store_get (ic_identities (as_interceptor st))
         else (store_get (ic_identities (as_interceptor st)))(did i \<mapsto> i)
     | _ \<Rightarrow> store_get (ic_identities (as_interceptor st)))"
  using assms
  by (cases call)
    (auto simp: with_tenant_eq evaluate_route_def reload_policy_route_def reload_policy_def upsert_identity_route_def
      upsert_identity_def with_ic_def evaluate_keeps store_get_put split_def Let_def split: option.split)

text \<open>The answers about identities.\<close>

lemma route_upsert:
  "fst (route env hdr (Upsert_identity i) st) =
     (if map_of (as_tenants st) (or_else hdr ''default'') = None
      then Inr (mk_response 404 (Detail_body (''unknown tenant: '' @ or_else hdr ''default'')))
      else Inr (mk_response 201 (Identity_body i)))"
  by (auto simp: with_tenant_eq upsert_identity_route_def upsert_identity_def split_def Let_def split: option.split)

lemma route_lookup:
  "fst (route env hdr (Get_identity d) st) =
     (if map_of (as_tenants st) (or_else hdr ''default'') = None
      then Inr (mk_response 404 (Detail_body (''unknown tenant: '' @ or_else hdr ''default'')))
      else (case store_get (ic_identities (as_interceptor st)) d of
          Some i \<Rightarrow> if revoked i then Inr (mk_response 404 (Detail_body ''identity not found''))
            else Inr (mk_response 200 (Identity_body i))
        | None \<Rightarrow> Inr (mk_response 404 (Detail_body ''identity not found''))))"
  by (auto simp: with_tenant_eq get_identity_route_def lookup_identity_def resolve_def catches_Exception_iff Let_def split: option.split)

lemma to_response_ack:
  "to_response body code x = Inr resp \<Longrightarrow> \<forall>v i. body v \<noteq> Identity_body i \<Longrightarrow> rs_body resp \<noteq> Identity_body j"
  by (cases x) (auto simp: mk_response_def)

lemma route_ack:
  assumes "ack (fst (route env hdr call st)) = Some i"
  shows "call = Upsert_identity i \<and> map_of (as_tenants st) (or_else hdr ''default'') \<noteq> None"
proof (cases call)
  case (Upsert_identity j)
  show ?thesis using assms unfolding Upsert_identity route_upsert by (auto simp: ack_def mk_response_def split: if_splits)
next
  case (Get_identity d)
  show ?thesis using assms unfolding Get_identity route_lookup by (auto simp: ack_def mk_response_def split: if_splits option.splits)
qed (use assms in \<open>auto simp: ack_Some_iff with_tenant_eq split_def Let_def mk_response_def dest: to_response_ack split: option.splits\<close>)

section \<open>An exchange on the abstract service\<close>

text \<open>Which requests are acknowledged: those let through to the route, with the token, under a known tenant.\<close>

lemma exchange_ack:
  assumes "deployed tok x" "ack (fst (app (fst x) (snd x) S)) = Some i"
  shows "authenticated tok (snd x) \<and> fst (admits x (fst S)) \<and> ae_dispatch (fst x) (snd x) = Inl (Upsert_identity i) \<and>
    known_tenant (snd x) (snd S)"
proof -
  obtain l st where S: "S = (l, st)" by (cases S)
  obtain resp where resp: "fst (app (fst x) (snd x) (l, st)) = Inr resp" "rs_status resp = 201" "rs_body resp = Identity_body i"
    using assms(2) unfolding S ack_Some_iff by blast
  have cors: "ae_cors (fst x) = (\<lambda>h. h)" using assms(1) by (simp add: deployed_def)
  obtain y where y: "charged x" "fst (admits x l)" "fst (routed x st) = Inr y" "rs_body y = rs_body resp" "rs_status y = rs_status resp"
    using app_answer[OF resp(1) _ cors] resp(3) by auto
  obtain call where call: "ae_dispatch (fst x) (snd x) = Inl call"
    using y(3,4) resp(3) assms(1) by (cases "ae_dispatch (fst x) (snd x)") (auto simp: router_def deployed_def)
  have "ack (fst (route (ae_route (fst x)) (header (snd x) ''x-tenant-id'') call st)) = Some i"
    using y resp call by (simp add: router_def ack_Some_iff)
  note route_ack[OF this]
  then show ?thesis
    using call y(1,2) assms(1) by (auto simp: S charged_def deployed_def known_tenant_def)
qed

lemma exchange_acked:
  assumes "deployed tok x" "charged x" "fst (admits x l)" "ae_dispatch (fst x) (snd x) = Inl call"
  shows "ack (fst (app (fst x) (snd x) (l, st))) = (case call of
      Upsert_identity i \<Rightarrow> if known_tenant (snd x) st then Some i else None | _ \<Rightarrow> None)"
proof (cases "\<exists>i. call = Upsert_identity i \<and> known_tenant (snd x) st")
  case True
  then obtain i where i: "call = Upsert_identity i" "known_tenant (snd x) st" by blast
  then have "fst (routed x st) = Inr (mk_response 201 (Identity_body i))"
    unfolding router_def assms(4) sum.case i(1) route_upsert by (auto simp: known_tenant_def)
  moreover have "fst (app (fst x) (snd x) (l, st)) =
      fst (request_id (ae_fresh (fst x)) (router (ae_dispatch (fst x)) (ae_route (fst x))) (snd x) st)"
    using assms(1,3) app_charged[OF assms(2), of l st] by (simp add: deployed_def)
  ultimately show ?thesis using i by (simp add: request_id_def split_def Let_def mk_response_def ack_def)
next
  case False
  then have "ack (fst (app (fst x) (snd x) (l, st))) = None"
    using exchange_ack[OF assms(1), of "(l, st)"] assms(4) by (cases "ack (fst (app (fst x) (snd x) (l, st)))") auto
  then show ?thesis using False by (auto split: route_call.split)
qed

text \<open>Every exchange does to the registry what its answer says, and nothing to tenants, policy and approvals.\<close>

lemma exchange_simulates:
  assumes "deployed tok x"
  shows "registry (snd (app (fst x) (snd x) S)) = record_ack (fst (app (fst x) (snd x) S)) (registry S) \<and>
    as_tenants (snd (snd (app (fst x) (snd x) S))) = as_tenants (snd S) \<and>
    ic_deps (as_interceptor (snd (snd (app (fst x) (snd x) S)))) = ic_deps (as_interceptor (snd S)) \<and>
    ic_approvals (as_interceptor (snd (snd (app (fst x) (snd x) S)))) = ic_approvals (as_interceptor (snd S))"
proof -
  obtain l st where S: "S = (l, st)" by (cases S)
  have dep: "ae_cors (fst x) = (\<lambda>h. h)" "re_loader (ae_route (fst x)) = None" using assms by (simp_all add: deployed_def)
  let ?y = "app (fst x) (snd x) (l, st)"
  consider "\<not> charged x" | "charged x" "\<not> fst (admits x l)" | "charged x" "fst (admits x l)" by blast
  then show ?thesis
  proof cases
    case 1
    have "ack (fst ?y) = None"
      using app_refused(2)[OF 1, of l st] by (cases "fst ?y") (auto simp: ack_def)
    then show ?thesis using app_refused(1)[OF 1, of l st] by (simp add: S record_ack_def)
  next
    case 2
    then show ?thesis unfolding S app_charged[OF 2(1) dep(1)] by (simp add: record_ack_def ack_def limited_def registry_def)
  next
    case 3
    have state: "snd (snd ?y) = snd (routed x st)" unfolding app_charged[OF 3(1) dep(1)] using 3(2) by simp
    show ?thesis
    proof (cases "ae_dispatch (fst x) (snd x)")
      case (Inr resp)
      have "ack (fst ?y) = None"
        using exchange_ack[OF assms, of "(l, st)"] Inr by (cases "ack (fst ?y)") auto
      then show ?thesis using state Inr by (simp add: S record_ack_def registry_def router_def)
    next
      case (Inl call)
      have reg: "registry (snd ?y) = store_get (ic_identities (as_interceptor (snd (route (ae_route (fst x)) (header (snd x) ''x-tenant-id'') call st))))"
        using state Inl by (simp add: registry_def router_def)
      have "registry (snd ?y) = record_ack (fst ?y) (registry (l, st))"
        unfolding reg route_identities[OF dep(2)] record_ack_def exchange_acked[OF assms 3 Inl]
        by (auto simp: known_tenant_def registry_def split: route_call.split)
      then show ?thesis
        using state Inl route_keeps[OF dep(2), of "header (snd x) ''x-tenant-id''" call st]
        by (simp add: S router_def)
    qed
  qed
qed

text \<open>The answer to a lookup that is let through\<close>

lemma exchange_lookup:
  assumes "deployed tok x" "authenticated tok (snd x)" "fst (admits x (fst S))" "known_tenant (snd x) (snd S)"
    and "ae_dispatch (fst x) (snd x) = Inl (Get_identity d)"
  shows "\<exists>resp. fst (app (fst x) (snd x) S) = Inr resp \<and>
    (case registry S d of
       Some i \<Rightarrow> if revoked i then rs_status resp = 404 else rs_status resp = 200 \<and> rs_body resp = Identity_body i
     | None \<Rightarrow> rs_status resp = 404)"
proof -
  obtain l st where S: "S = (l, st)" by (cases S)
  have dep: "ae_cors (fst x) = (\<lambda>h. h)" "charged x" using assms(1,2) by (simp_all add: deployed_def charged_def)
  have "fst (routed x st) = fst (route (ae_route (fst x)) (header (snd x) ''x-tenant-id'') (Get_identity d) st)"
    by (simp add: router_def assms(5))
  moreover have "\<exists>resp. fst (route (ae_route (fst x)) (header (snd x) ''x-tenant-id'') (Get_identity d) st) = Inr resp \<and>
    (case registry S d of
       Some i \<Rightarrow> if revoked i then rs_status resp = 404 else rs_status resp = 200 \<and> rs_body resp = Identity_body i
     | None \<Rightarrow> rs_status resp = 404)"
    using assms(4) unfolding route_lookup
    by (auto simp: S registry_def known_tenant_def mk_response_def split: option.split)
  ultimately obtain resp where resp: "fst (routed x st) = Inr resp" "case registry S d of
       Some i \<Rightarrow> if revoked i then rs_status resp = 404 else rs_status resp = 200 \<and> rs_body resp = Identity_body i
     | None \<Rightarrow> rs_status resp = 404" by auto
  have "fst (app (fst x) (snd x) S) = Inr (resp\<lparr>rs_headers := dict_set ''x-request-id''
      (or_else (header (snd x) ''x-request-id'') (uuid_hex (ae_fresh (fst x)))) (rs_headers resp)\<rparr>)"
    using assms(3) resp(1) unfolding S app_charged[OF dep(2,1)] by (simp add: request_id_def split_def Let_def)
  then show ?thesis using resp(2) by (intro exI conjI) (assumption, simp split: option.splits)
qed

section \<open>Whole runs\<close>

lemma run_simulates:
  assumes "\<forall>x \<in> set xs. deployed tok x"
  shows "registry (after xs S) = fold record_ack (answers xs S) (registry S) \<and>
    as_tenants (snd (after xs S)) = as_tenants (snd S) \<and>
    ic_deps (as_interceptor (snd (after xs S))) = ic_deps (as_interceptor (snd S)) \<and>
    ic_approvals (as_interceptor (snd (after xs S))) = ic_approvals (as_interceptor (snd S))"
  using assms
proof (induction xs arbitrary: S)
  case (Cons x xs)
  then show ?case using exchange_simulates[of tok x S] Cons.IH[of "snd (app (fst x) (snd x) S)"] by simp
qed simp

text \<open>What the abstract service knows of a DID it was told in the last acknowledged answer about it.\<close>

lemma fold_ack_origin:
  assumes "fold record_ack rs (\<lambda>_. None) d = Some i"
  shows "\<exists>k < length rs. ack (rs ! k) = Some i \<and> did i = d \<and>
    (\<forall>j i'. k < j \<and> j < length rs \<and> ack (rs ! j) = Some i' \<longrightarrow> did i' \<noteq> d)"
  using assms
proof (induction rs rule: rev_induct)
  case (snoc r rs)
  define m where "m = fold record_ack rs (\<lambda>_. None)"
  have last: "record_ack r m d = Some i" using snoc.prems by (simp add: m_def)
  show ?case
  proof (cases "\<exists>i'. ack r = Some i' \<and> did i' = d")
    case True
    then have "ack r = Some i" "did i = d" using last by (auto simp: record_ack_apply)
    then show ?thesis by (intro exI[of _ "length rs"]) (auto simp: nth_append)
  next
    case False
    then have "m d = Some i" using last by (auto simp: record_ack_apply split: option.splits)
    then have "fold record_ack rs (\<lambda>_. None) d = Some i" by (simp add: m_def)
    from snoc.IH[OF this] obtain k where k: "k < length rs" "ack (rs ! k) = Some i" "did i = d"
        "\<forall>j i'. k < j \<and> j < length rs \<and> ack (rs ! j) = Some i' \<longrightarrow> did i' \<noteq> d" by blast
    then have "\<forall>j i'. k < j \<and> j < length (rs @ [r]) \<and> ack ((rs @ [r]) ! j) = Some i' \<longrightarrow> did i' \<noteq> d"
      using False by (auto simp: nth_append less_Suc_eq)
    then show ?thesis using k by (intro exI[of _ k]) (simp add: nth_append)
  qed
qed simp

text \<open>What an ALLOW in an answer rests on.\<close>

lemma app_allowed:
  assumes "fst (app (fst x) (snd x) (l, st)) = Inr resp" "rs_body resp = Decision_body d" "verdict d = ALLOW"
    and "ae_cors (fst x) = (\<lambda>h. h)" "\<forall>y. ae_dispatch (fst x) (snd x) = Inr y \<longrightarrow> rs_body y \<noteq> rs_body resp"
  obtains a c i ms where "charged x" "fst (admits x l)" "ae_dispatch (fst x) (snd x) = Inl (Evaluate a)"
    "map_of (as_tenants st) (or_else (header (snd x) ''x-tenant-id'') ''default'') = Some c"
    "act_tenant_id a = [] \<or> act_tenant_id a = tc_tenant_id c"
    "store_get (ic_identities (as_interceptor st)) (agent_did a) = Some i" "\<not> revoked i"
    "policy_evaluate (current_policy (as_interceptor st))
       (if act_tenant_id a = [] then a\<lparr>act_tenant_id := tc_tenant_id c\<rparr> else a) (Some i) (risk_factors (explanation d)) = Inr ms"
    "\<forall>m \<in> set ms. pm_effect m = E_ALLOW" "risk_score (explanation d) < THROTTLE_THRESHOLD"
proof -
  obtain y where y: "charged x" "fst (admits x l)" "fst (routed x st) = Inr y" "rs_body y = rs_body resp"
    using app_answer[OF assms(1) _ assms(4)] assms(2) by auto
  obtain call where call: "ae_dispatch (fst x) (snd x) = Inl call"
    using y(3,4) assms(5) by (cases "ae_dispatch (fst x) (snd x)") (auto simp: router_def)
  have "fst (route (ae_route (fst x)) (header (snd x) ''x-tenant-id'') call st) = Inr y" "rs_body y = Decision_body d"
    using y assms(2) call by (simp_all add: router_def)
  then obtain a c where ac: "call = Evaluate a" "map_of (as_tenants st) (or_else (header (snd x) ''x-tenant-id'') ''default'') = Some c"
      "act_tenant_id a = [] \<or> act_tenant_id a = tc_tenant_id c"
    and ev: "fst (interceptor_evaluate (ev_digest (re_eval (ae_route (fst x)))) (ev_elapsed (re_eval (ae_route (fst x))))
        (ev_readings (re_eval (ae_route (fst x))))
        (if act_tenant_id a = [] then a\<lparr>act_tenant_id := tc_tenant_id c\<rparr> else a) (as_interceptor st)) = Inr d"
    by (rule route_decision)
  have did: "agent_did (if act_tenant_id a = [] then a\<lparr>act_tenant_id := tc_tenant_id c\<rparr> else a) = agent_did a" by simp
  from ev assms(3) show ?thesis
    by (rule interceptor_allowed) (rule that, use y(1,2) ac call in \<open>simp_all add: did current_policy_def\<close>)
qed

section \<open>The rate limit\<close>

text \<open>What the limiter is charged in a run, and the requests of a tenant it let through.\<close>

definition charges :: "'b exchange list \<Rightarrow> (string \<times> rat \<times> rat) list" where
  "charges xs = map (\<lambda>x. (tenant_header (snd x), ae_made (fst x), ae_now (fst x))) (filter charged xs)"

definition let_through :: "string \<Rightarrow> 'b exchange list \<Rightarrow> service_state \<Rightarrow> nat" where
  "let_through tenant xs S = length (filter (\<lambda>(x, r). charged x \<and> tenant_header (snd x) = tenant \<and> r \<noteq> limited x)
     (zip xs (answers xs S)))"

lemma let_through_Cons:
  "let_through tenant (x # xs) S = (if charged x \<and> tenant_header (snd x) = tenant \<and> fst (app (fst x) (snd x) S) \<noteq> limited x then 1 else 0) +
     let_through tenant xs (snd (app (fst x) (snd x) S))"
  by (simp add: let_through_def)

lemma let_through_admitted:
  "\<forall>x \<in> set xs. ae_cors (fst x) = (\<lambda>h. h) \<Longrightarrow> let_through tenant xs (l, st) \<le> admitted tenant (charges xs) l"
proof (induction xs arbitrary: l st)
  case (Cons x xs)
  show ?case
  proof (cases "charged x")
    case False
    then show ?thesis
      using Cons.IH[of l st] Cons.prems app_refused(1)[OF False, of l st] by (simp add: let_through_Cons charges_def)
  next
    case True
    have cors: "ae_cors (fst x) = (\<lambda>h. h)" using Cons.prems by simp
    define st' where "st' = snd (snd (app (fst x) (snd x) (l, st)))"
    have state: "snd (app (fst x) (snd x) (l, st)) = (snd (admits x l), st')"
      unfolding st'_def app_charged[OF True cors] by simp
    have "fst (app (fst x) (snd x) (l, st)) = limited x" if "\<not> fst (admits x l)"
      unfolding app_charged[OF True cors] using that by simp
    moreover have "admitted tenant (charges (x # xs)) l =
        (if tenant_header (snd x) = tenant \<and> fst (admits x l) then 1 else 0) + admitted tenant (charges xs) (snd (admits x l))"
      using True by (simp add: charges_def admitted_step admits_def admit_fields(4))
    ultimately show ?thesis
      using Cons.IH[of "snd (admits x l)" st'] Cons.prems by (auto simp: let_through_Cons state)
  qed
qed (simp add: let_through_def)

section \<open>Properties\<close>

text \<open>
  C11: The service refines a registry. Whatever requests an application serves, what it remembers of
  identities is the map its acknowledged answers describe, each writing one identity under its DID; an
  answer acknowledges only a request with the token, let through by the rate limiter, under a known
  tenant, and acknowledges the identity it was sent. A lookup let through answers with what the registry
  holds, unless that is revoked. Tenants, policy bundle and approvals never change.
\<close>

theorem service_refines_registry:
  assumes "\<forall>x \<in> set (xs @ [z]). deployed tok x"
  shows "registry (after xs S) = fold record_ack (answers xs S) (registry S) \<and>
    as_tenants (snd (after xs S)) = as_tenants (snd S) \<and>
    current_policy (as_interceptor (snd (after xs S))) = current_policy (as_interceptor (snd S)) \<and>
    ic_approvals (as_interceptor (snd (after xs S))) = ic_approvals (as_interceptor (snd S)) \<and>
    (\<forall>k i. k < length xs \<and> ack (answers xs S ! k) = Some i \<longrightarrow>
       authenticated tok (snd (xs ! k)) \<and> fst (admits (xs ! k) (fst (after (take k xs) S))) \<and>
       known_tenant (snd (xs ! k)) (snd S) \<and> ae_dispatch (fst (xs ! k)) (snd (xs ! k)) = Inl (Upsert_identity i)) \<and>
    (\<forall>d. authenticated tok (snd z) \<and> fst (admits z (fst (after xs S))) \<and> known_tenant (snd z) (snd S) \<and>
       ae_dispatch (fst z) (snd z) = Inl (Get_identity d) \<longrightarrow>
       (\<exists>resp. fst (app (fst z) (snd z) (after xs S)) = Inr resp \<and>
          (case fold record_ack (answers xs S) (registry S) d of
             Some i \<Rightarrow> if revoked i then rs_status resp = 404 else rs_status resp = 200 \<and> rs_body resp = Identity_body i
           | None \<Rightarrow> rs_status resp = 404)))"
proof -
  have dep: "\<forall>x \<in> set xs. deployed tok x" "deployed tok z" using assms by simp_all
  note sim = run_simulates[OF dep(1), of S]
  have "authenticated tok (snd (xs ! k)) \<and> fst (admits (xs ! k) (fst (after (take k xs) S))) \<and>
      known_tenant (snd (xs ! k)) (snd S) \<and> ae_dispatch (fst (xs ! k)) (snd (xs ! k)) = Inl (Upsert_identity i)"
    if k: "k < length xs" and a: "ack (answers xs S ! k) = Some i" for k i
  proof -
    have "as_tenants (snd (after (take k xs) S)) = as_tenants (snd S)"
      using run_simulates[of "take k xs" tok S] dep(1) by (auto dest: in_set_takeD)
    moreover have "deployed tok (xs ! k)" using dep(1) k by simp
    ultimately show ?thesis
      using exchange_ack[of tok "xs ! k" "after (take k xs) S" i] a unfolding run_nth[OF k] by (simp add: known_tenant_def)
  qed
  moreover have "\<exists>resp. fst (app (fst z) (snd z) (after xs S)) = Inr resp \<and>
      (case fold record_ack (answers xs S) (registry S) d of
         Some i \<Rightarrow> if revoked i then rs_status resp = 404 else rs_status resp = 200 \<and> rs_body resp = Identity_body i
       | None \<Rightarrow> rs_status resp = 404)"
    if "authenticated tok (snd z)" "fst (admits z (fst (after xs S)))" "known_tenant (snd z) (snd S)"
      "ae_dispatch (fst z) (snd z) = Inl (Get_identity d)" for d
    using exchange_lookup[OF dep(2) that(1,2) _ that(4)] that(3) sim by (simp add: known_tenant_def)
  ultimately show ?thesis using sim by (simp add: current_policy_def)
qed

text \<open>
  C2: The provenance of an ALLOW. From the state the bootstrap leaves, whatever requests the application
  has served, it answers ALLOW only to a request with the token, for an action of the default tenant
  whose agent an earlier request with the token has registered: the last acknowledged answer
  about that DID is for an identity that is not revoked, and every rule of the bundle the bootstrap chose
  that matches has effect ALLOW, at a score below the throttle threshold.
\<close>

theorem allow_provenance:
  assumes "import_bootstrap cd tk dk fs schema lg pf p = (Inr S, p')" "\<forall>x \<in> set (xs @ [z]). deployed tok x"
    and "fst (app (fst z) (snd z) (after xs S)) = Inr resp" "rs_body resp = Decision_body d" "verdict d = ALLOW"
  shows "\<exists>a b i k ms. authenticated tok (snd z) \<and> ae_dispatch (fst z) (snd z) = Inl (Evaluate a) \<and>
    act_tenant_id a \<in> {[], ''default''} \<and>
    k < length xs \<and> authenticated tok (snd (xs ! k)) \<and> ae_dispatch (fst (xs ! k)) (snd (xs ! k)) = Inl (Upsert_identity i) \<and>
    ack (answers xs S ! k) = Some i \<and> did i = agent_did a \<and> \<not> revoked i \<and>
    (\<forall>j i'. k < j \<and> j < length xs \<and> ack (answers xs S ! j) = Some i' \<longrightarrow> did i' \<noteq> agent_did a) \<and>
    fst (bootstrap_bundle cd tk dk fs (getenv (pf_env pf) ''SENTINEL_POLICY_PATH'' ''config/policies/default.yaml'') (pr_cache p)) = Inr b \<and>
    policy_evaluate b (a\<lparr>act_tenant_id := ''default''\<rparr>) (Some i) (risk_factors (explanation d)) = Inr ms \<and>
    (\<forall>m \<in> set ms. pm_effect m = E_ALLOW) \<and> risk_score (explanation d) < THROTTLE_THRESHOLD"
proof -
  obtain ic c r w where built: "build_default_interceptor cd tk dk fs schema lg (pf_env pf) (pr_cache p) = (Inr ic, c)"
      and S: "S = (new_limiter r w, bootstrap_state ic)"
    using assms(1) by (rule import_started)
  obtain b where b: "bootstrap_bundle cd tk dk fs (getenv (pf_env pf) ''SENTINEL_POLICY_PATH'' ''config/policies/default.yaml'')
        (pr_cache p) = (Inr b, c)"
      "ic_deps ic = default_deps schema lg b" "ic_identities ic = []" "ic_tenants ic = tenants_with_default"
    using built by (rule build_Inr)
  have reg: "registry S = (\<lambda>_. None)" by (simp add: fun_eq_iff registry_def S bootstrap_state_def b(3) store_get_def)
  have dep: "\<forall>x \<in> set xs. deployed tok x" "deployed tok z" using assms(2) by simp_all
  note sim = run_simulates[OF dep(1), of S]
  obtain l st where after: "after xs S = (l, st)" by (cases "after xs S")
  have "ae_cors (fst z) = (\<lambda>h. h)" "\<forall>y. ae_dispatch (fst z) (snd z) = Inr y \<longrightarrow> rs_body y \<noteq> rs_body resp"
    using dep(2) assms(4) by (auto simp: deployed_def)
  from app_allowed[OF assms(3)[unfolded after] assms(4,5) this] obtain a t i ms where
    a: "charged z" "ae_dispatch (fst z) (snd z) = Inl (Evaluate a)" "act_tenant_id a = [] \<or> act_tenant_id a = tc_tenant_id t"
      "map_of (as_tenants st) (or_else (header (snd z) ''x-tenant-id'') ''default'') = Some t"
    and i: "store_get (ic_identities (as_interceptor st)) (agent_did a) = Some i" "\<not> revoked i"
    and ms: "policy_evaluate (current_policy (as_interceptor st))
        (if act_tenant_id a = [] then a\<lparr>act_tenant_id := tc_tenant_id t\<rparr> else a) (Some i) (risk_factors (explanation d)) = Inr ms"
      "\<forall>m \<in> set ms. pm_effect m = E_ALLOW" "risk_score (explanation d) < THROTTLE_THRESHOLD" by metis
  have auth: "authenticated tok (snd z)" using a(1,2) dep(2) by (auto simp: charged_def deployed_def)
  have "as_tenants st = tenants_with_default" using sim unfolding after by (simp add: S bootstrap_state_def b(4))
  then have t: "tc_tenant_id t = ''default''"
    using a(4) by (auto simp: default_tenants default_tenant_config_def split: if_splits)
  have pol: "current_policy (as_interceptor st) = b"
    using sim unfolding after by (simp add: S bootstrap_state_def b(2) current_policy_def default_deps_def)
  have act: "(if act_tenant_id a = [] then a\<lparr>act_tenant_id := tc_tenant_id t\<rparr> else a) = a\<lparr>act_tenant_id := ''default''\<rparr>"
    using a(3) t by auto
  have "fold record_ack (answers xs S) (\<lambda>_. None) (agent_did a) = Some i"
    using sim i(1) unfolding reg by (simp add: registry_def after)
  from fold_ack_origin[OF this] obtain k where k: "k < length xs" "ack (answers xs S ! k) = Some i" "did i = agent_did a"
      "\<forall>j i'. k < j \<and> j < length xs \<and> ack (answers xs S ! j) = Some i' \<longrightarrow> did i' \<noteq> agent_did a"
    by auto
  have up: "authenticated tok (snd (xs ! k)) \<and> ae_dispatch (fst (xs ! k)) (snd (xs ! k)) = Inl (Upsert_identity i)"
    using exchange_ack[of tok "xs ! k" "after (take k xs) S" i] dep(1) k(1,2) unfolding run_nth[OF k(1)] by simp
  show ?thesis
    by (rule exI[of _ a], rule exI[of _ b], rule exI[of _ i], rule exI[of _ k], rule exI[of _ ms])
      (use auth a(2,3) t k up i(2) b(1) ms pol act in auto)
qed

text \<open>
  C21: The rate limit, as its callers see it. Of the requests a fresh application serves, with clocks
  that only advance, those of one tenant that are not answered 429 are at most the burst plus the
  rate times the time that passed, up to the rounding of binary64: a factor \<open>gain\<close> on the refill and
  \<open>slack\<close>, below one millionth of a request, for every request charged. Requests of other tenants and
  requests without the token do not enter.
\<close>

theorem service_rate_bound:
  assumes "0 \<le> b" "b \<le> 10 ^ 6" "0 \<le> r" "r \<le> 10 ^ 6" "advancing s (charges xs)"
    and "\<forall>x \<in> set xs. ae_cors (fst x) = (\<lambda>h. h)"
  shows "of_nat (let_through tenant xs (new_limiter r b, st)) \<le>
      of_int b + gain * (fl (of_int r / 60) * (last_clock s (charges xs) - s)) +
      of_nat (length (filter charged xs)) * slack (of_int b) (fl (of_int r / 60)) \<and>
    slack (of_int b) (fl (of_int r / 60)) \<le> 1 / 10 ^ 6 \<and> gain \<le> 1 + 1 / 10 ^ 15"
proof -
  have "(of_nat (let_through tenant xs (new_limiter r b, st)) :: rat) \<le> of_nat (admitted tenant (charges xs) (new_limiter r b))"
    using let_through_admitted[OF assms(6)] by (simp only: of_nat_le_iff)
  then show ?thesis using admission_bound[OF assms(1-5), of tenant] by (auto simp: charges_def)
qed

section \<open>A run\<close>

text \<open>Requests with the token that FastAPI routes to \<open>call\<close>, an identity, and an action of its agent.\<close>

definition example_exchange :: "route_call \<Rightarrow> unit exchange" where
  "example_exchange call =
     (\<lparr>ae_token = ''t'', ae_made = 0, ae_now = 0, ae_fresh = 1, ae_dispatch = (\<lambda>_. Inl call), ae_cors = (\<lambda>h. h),
        ae_route = \<lparr>re_eval = \<lparr>ev_readings = example_readings 1, ev_elapsed = 0, ev_digest = (\<lambda>_. Inr ''00'')\<rparr>,
          re_loader = None, re_audit = None, re_metrics = []\<rparr>\<rparr>,
      \<lparr>rq_path = ''/v1/evaluate'', rq_headers = [(''authorization'', ''Bearer t'')], rq_body = ()\<rparr>)"

abbreviation calm_agent :: identity where
  "calm_agent \<equiv> agent_identity ''did:test:t'' ELEVATED (3/4) False"

lemma example_request:
  "\<not> is_public (rq_path (snd (example_exchange call)))" "authenticated ''t'' (snd (example_exchange call))"
  "charged (example_exchange call)" "tenant_header (snd (example_exchange call)) = ''default''"
  "header (snd (example_exchange call)) ''x-tenant-id'' = None" "deployed ''t'' (example_exchange call)"
proof -
  show pub: "\<not> is_public (rq_path (snd (example_exchange call)))"
    by (simp add: example_exchange_def is_public_def public_paths_def)
  show auth: "authenticated ''t'' (snd (example_exchange call))"
    by (simp add: authenticated_def example_exchange_def header_def is_ascii_def strip_def is_space_def)
  show "charged (example_exchange call)" using auth by (simp add: charged_def) (simp add: example_exchange_def)
  show "tenant_header (snd (example_exchange call)) = ''default''" "header (snd (example_exchange call)) ''x-tenant-id'' = None"
    by (simp_all add: tenant_header_def example_exchange_def header_def)
  show "deployed ''t'' (example_exchange call)" using pub by (simp add: deployed_def) (simp add: example_exchange_def)
qed

lemma example_admits: "admits (example_exchange call) l = admit 0 0 ''default'' l"
  by (simp add: admits_def example_request(4)) (simp add: example_exchange_def)

lemma example_admitted: "fst (admit 0 0 ''default'' default_limiter)"
    "fst (admit 0 0 ''default'' (snd (admit 0 0 ''default'' default_limiter)))"
  by code_simp+

lemma example_routed: "fst (admit 0 0 ''default'' l) \<Longrightarrow> fst (route (ae_route (fst (example_exchange call))) None call st) = Inr y \<Longrightarrow>
    \<exists>resp. fst (app (fst (example_exchange call)) (snd (example_exchange call)) (l, st)) = Inr resp \<and> rs_body resp = rs_body y \<and>
      rs_status resp = rs_status y"
proof -
  assume l: "fst (admit 0 0 ''default'' l)" and y: "fst (route (ae_route (fst (example_exchange call))) None call st) = Inr y"
  have c: "ae_cors (fst (example_exchange call)) = (\<lambda>h. h)" "ae_dispatch (fst (example_exchange call)) (snd (example_exchange call)) = Inl call"
    by (simp_all add: example_exchange_def)
  show ?thesis
    unfolding app_charged[OF example_request(3) c(1)] example_admits
    using l y by (simp add: request_id_def router_def c(2) example_request(5) split_def Let_def)
qed

text \<open>The action is allowed where its agent is the one that is stored.\<close>

lemma example_allowed:
  assumes "fst (admit 0 0 ''default'' l)" "map_of (as_tenants st) ''default'' = Some (default_tenant_config ''default'' name)"
    and "ic_deps (as_interceptor st) = example_deps []" "ic_state (as_interceptor st) = fresh_state"
    and "ic_identities (as_interceptor st) = example_db"
  shows "\<exists>resp d. fst (app (fst (example_exchange (Evaluate calm_action))) (snd (example_exchange (Evaluate calm_action))) (l, st)) = Inr resp \<and>
     rs_body resp = Decision_body d \<and> verdict d = ALLOW"
proof -
  obtain d where d: "fst (evaluate (example_deps []) (mem_lookup example_db) (example_readings 1) calm_action fresh_state) = Inr d"
      "verdict d = ALLOW" using calm_evaluation by blast
  have p: "payload_digest calm_action = None" by (simp add: calm_action_def example_action_def)
  have ic: "fst (interceptor_evaluate (\<lambda>_. Inr ''00'') 0 (example_readings 1) calm_action (as_interceptor st)) = Inr d"
    using d(1) p assms(3-5) by (simp add: interceptor_evaluate_eq stamp_digest_def split_def Let_def)
  have act: "act_tenant_id calm_action = tc_tenant_id (default_tenant_config ''default'' name)" "act_tenant_id calm_action \<noteq> []"
    by (simp_all add: calm_action_def example_action_def default_tenant_config_def)
  have "fst (route (ae_route (fst (example_exchange (Evaluate calm_action)))) None (Evaluate calm_action) st) =
      Inr (mk_response 200 (Decision_body d))"
    using ic act assms(2) by (simp add: example_exchange_def with_tenant_eq or_else_def evaluate_route_def split_def Let_def)
  from example_routed[OF assms(1) this] d(2) show ?thesis by (auto simp: mk_response_def)
qed

lemma example_upsert:
  fixes i :: identity
  assumes "fst (admit 0 0 ''default'' l)" "map_of (as_tenants st) ''default'' = Some t"
  defines "x \<equiv> example_exchange (Upsert_identity i)"
  shows "ack (fst (app (fst x) (snd x) (l, st))) = Some i" "fst (snd (app (fst x) (snd x) (l, st))) = snd (admit 0 0 ''default'' l)"
    and "snd (snd (app (fst x) (snd x) (l, st))) = with_ic (snd (upsert_identity i (as_interceptor st))) st"
proof -
  have c: "ae_cors (fst x) = (\<lambda>h. h)" "ae_dispatch (fst x) (snd x) = Inl (Upsert_identity i)"
    by (simp_all add: x_def example_exchange_def)
  note app_x = app_charged[OF example_request(3) c(1)[unfolded x_def], folded x_def]
  have r: "routed x st = route (ae_route (fst x)) None (Upsert_identity i) st"
    by (simp add: router_def c(2)) (simp add: x_def example_request(5))
  have adm: "admits x l = admit 0 0 ''default'' l" unfolding x_def by (rule example_admits)
  have "fst (route (ae_route (fst x)) None (Upsert_identity i) st) = Inr (mk_response 201 (Identity_body i))"
    unfolding route_upsert using assms(2) by (simp add: or_else_def)
  then show "ack (fst (app (fst x) (snd x) (l, st))) = Some i"
    using example_routed[OF assms(1), of "Upsert_identity i" st, folded x_def] by (auto simp: ack_Some_iff mk_response_def)
  show "fst (snd (app (fst x) (snd x) (l, st))) = snd (admit 0 0 ''default'' l)" unfolding app_x adm using assms(1) by simp
  show "snd (snd (app (fst x) (snd x) (l, st))) = with_ic (snd (upsert_identity i (as_interceptor st))) st"
    unfolding app_x adm r using assms(1,2)
    by (simp add: with_tenant_eq or_else_def upsert_identity_route_def upsert_identity_def split_def Let_def)
qed

text \<open>The blank process of theory Bootstrap, an upsert, and an action of the agent.\<close>

theorem allow_provenance_witness:
  "\<exists>S resp d. fst (app (fst (example_exchange (Evaluate calm_action))) (snd (example_exchange (Evaluate calm_action)))
       (after [example_exchange (Upsert_identity calm_agent)] S)) = Inr resp \<and>
     rs_body resp = Decision_body d \<and> verdict d = ALLOW \<and>
     ack (answers [example_exchange (Upsert_identity calm_agent)] S ! 0) = Some calm_agent \<and>
     did calm_agent = agent_did calm_action"
proof -
  let ?x = "example_exchange (Upsert_identity calm_agent)"
  let ?z = "example_exchange (Evaluate calm_action)"
  obtain ic p' where started: "import_bootstrap blank_codecs toy_toolkit good_disk (\<lambda>_. Inr []) (\<lambda>_ _. Schema_ok) (\<lambda>x. x)
      (quiet_platform []) new_process = (Inr (default_limiter, bootstrap_state ic), p')"
    and ic: "ic_deps ic = example_deps []" "ic_identities ic = []" "ic_tenants ic = tenants_with_default"
      "ic_state ic = default_pipeline_state"
    by (rule blank_start)
  have dflt: "map_of (as_tenants (bootstrap_state ic)) ''default'' = Some (default_tenant_config ''default'' ''Default tenant'')"
    by (simp add: bootstrap_state_def ic(3) default_tenants)
  note up = example_upsert[OF example_admitted(1) dflt, where i = calm_agent]
  define st where "st = with_ic (snd (upsert_identity calm_agent ic)) (bootstrap_state ic)"
  have after: "after [?x] (default_limiter, bootstrap_state ic) = (snd (admit 0 0 ''default'' default_limiter), st)"
    using up(2,3) by (simp add: prod_eq_iff st_def) (simp add: bootstrap_state_def)
  have st: "ic_deps (as_interceptor st) = example_deps []" "ic_state (as_interceptor st) = fresh_state"
      "ic_identities (as_interceptor st) = example_db"
      "map_of (as_tenants st) ''default'' = Some (default_tenant_config ''default'' ''Default tenant'')"
    using ic dflt by (simp_all add: st_def with_ic_def upsert_identity_def default_pipeline_state_def fresh_state_def
      example_db_def new_identity_db_def store_put_def)
  obtain resp d where z: "fst (app (fst ?z) (snd ?z) (after [?x] (default_limiter, bootstrap_state ic))) = Inr resp"
      "rs_body resp = Decision_body d" "verdict d = ALLOW"
    using example_allowed[OF example_admitted(2) st(4,1,2,3)] unfolding after by blast
  have "\<forall>x \<in> set ([?x] @ [?z]). deployed ''t'' x" using example_request(6) by simp
  from allow_provenance[OF started this z] z show ?thesis
    by (intro exI conjI) (assumption | auto simp: example_exchange_def)+
qed

theorem service_refines_registry_witness:
  "registry (after [example_exchange (Upsert_identity calm_agent)] (default_limiter, bootstrap_state (example_interceptor [] []))) ''did:test:t''
     = Some calm_agent"
proof -
  let ?x = "example_exchange (Upsert_identity calm_agent)"
  let ?S = "(default_limiter, bootstrap_state (example_interceptor [] []))"
  have dflt: "map_of (as_tenants (bootstrap_state (example_interceptor [] []))) ''default'' =
      Some (default_tenant_config ''default'' ''Default tenant'')"
    by (simp add: bootstrap_state_def default_tenants)
  have "\<forall>x \<in> set ([?x] @ [?x]). deployed ''t'' x" using example_request(6) by simp
  from service_refines_registry[OF this, of ?S] example_upsert(1)[OF example_admitted(1) dflt, where i = calm_agent]
  show ?thesis by (simp add: record_ack_def agent_identity_def)
qed

theorem service_rate_bound_witness:
  "of_nat (let_through ''default'' (replicate 400 (example_exchange Livez)) (new_limiter 1200 240, example_app_state [])) \<le> (241 :: rat)"
proof -
  have c: "charges (replicate n (example_exchange Livez)) = replicate n (''default'', 0, 0)" for n
    using example_request(3,4)[of Livez] by (induction n) (simp_all add: charges_def, simp_all add: example_exchange_def)
  have a: "advancing 0 (replicate n (''default'', 0, 0)) \<and> last_clock 0 (replicate n (''default'', 0, 0)) = 0" for n
    by (induction n) simp_all
  have "\<forall>x \<in> set (replicate 400 (example_exchange Livez)). ae_cors (fst x) = (\<lambda>h. h)" by (simp add: example_exchange_def)
  from service_rate_bound[of 240 1200 0, OF _ _ _ _ _ this, of "''default''" "example_app_state []"] a[of 400]
  show ?thesis using example_request(3)[of Livez] by (simp add: c)
qed

end
