(* ===== verification/Examples.thy ===== *)
theory Examples
  imports Process
begin

text \<open>
  The examples shipped with the repository, src/examples, as programs over the process they start:
  mcp_gateway.py guards a tool with the gateway of theory Enforcement, embedded_sdk.py uses the SDK. Both
  import the bootstrap module, which starts a process, and then build another interceptor.
\<close>

section \<open>mcp_gateway.py\<close>

definition execute_tool :: "('w, pyval) tool_handler" where
  "execute_tool tool args w =
     (Inr (VDict [(''tool'', VStr tool), (''args'', VDict args), (''result'', VStr ''ok'')]), w)"

definition example_call :: gateway_call where
  "example_call = \<lparr>gc_tool = ''http.get'', gc_args = Some [(''url'', VStr ''https://example.com'')],
     gc_principal_did = Some ''did:demo:agent-1'', gc_agent_did = None, gc_tenant_id = ''default'', gc_intent = None\<rparr>"

text \<open>What the program prints, or the exception it ends with.\<close>

definition mcp_gateway_main ::
  "codecs \<Rightarrow> ('sk, 'pk) toolkit \<Rightarrow> disk \<Rightarrow> files \<Rightarrow> schema_check \<Rightarrow> (rat \<Rightarrow> rat) \<Rightarrow>
   digest \<Rightarrow> rat \<Rightarrow> readings \<Rightarrow> draw \<Rightarrow> ('m, 'r) platform \<Rightarrow> ('m, 'r) process \<Rightarrow> string result \<times> ('m, 'r) process" where
  "mcp_gateway_main cd tk dk fs schema lg digest elapsed rd dr pf p =
     then_do (import_bootstrap cd tk dk fs schema lg pf p) (\<lambda>_ p.
     then_do (start_process cd tk dk fs schema lg pf p) (\<lambda>ic p.
       (let (r, ic', w) = gateway_invoke (interceptor_evaluate digest elapsed rd) dr example_call (Some execute_tool) None ic ()
        in case r of
          Inr out \<Rightarrow> Inr (''tool ran: '' @ (case out of None \<Rightarrow> ''None'' | Some v \<Rightarrow> py_str v))
        | Inl e \<Rightarrow> if catches ToolDeniedError e then Inr (''denied: '' @ exn_msg e) else Inl e, p)))"

section \<open>embedded_sdk.py\<close>

text \<open>The class of client.py has no method \<^verbatim>\<open>embedded\<close>: the program ends where it asks for it.\<close>

definition embedded_sdk_main ::
  "codecs \<Rightarrow> ('sk, 'pk) toolkit \<Rightarrow> disk \<Rightarrow> files \<Rightarrow> schema_check \<Rightarrow> (rat \<Rightarrow> rat) \<Rightarrow>
   ('m, 'r) platform \<Rightarrow> ('m, 'r) process \<Rightarrow> string result \<times> ('m, 'r) process" where
  "embedded_sdk_main cd tk dk fs schema lg pf p =
     then_do (import_bootstrap cd tk dk fs schema lg pf p) (\<lambda>_ p.
     then_do (start_process cd tk dk fs schema lg pf p) (\<lambda>ic p.
       (Inl (Exn AttributeError (''type object '' @ quoted ''Sentinel'' @ '' has no attribute '' @ quoted ''embedded'')), p)))"

section \<open>What they do\<close>

lemma started_knows_nobody:
  assumes "fst (start_process cd tk dk fs schema lg pf p) = Inr ic"
  shows "ic_identities ic = []"
proof -
  have "\<exists>c. build_default_interceptor cd tk dk fs schema lg (pf_env pf) c = (Inr ic, snd (build_default_interceptor cd tk dk fs schema lg (pf_env pf) c))"
    using assms by (auto simp: start_process_def then_do_def metrics_step_def prod_eq_iff split_def Let_def split: prod.splits sum.splits)
  then show ?thesis by (auto elim: build_Inr)
qed

text \<open>
  The gateway example never runs its tool: it ends with an exception or prints a denial, since the process
  it starts knows no identity. The SDK example ends with an exception whatever happens.
\<close>

lemma mcp_example_denied:
  assumes "fst (mcp_gateway_main cd tk dk fs schema lg digest elapsed rd dr pf p) = Inr line"
  shows "\<exists>e. catches ToolDeniedError e \<and> line = ''denied: '' @ exn_msg e"
proof -
  let ?invoke = "\<lambda>ic. fst (gateway_invoke (interceptor_evaluate digest elapsed rd) dr example_call (Some execute_tool) None ic ())"
  obtain ic p1 where ic: "fst (start_process cd tk dk fs schema lg pf p1) = Inr ic"
    and out: "(case ?invoke ic of
          Inr out \<Rightarrow> Inr (''tool ran: '' @ (case out of None \<Rightarrow> ''None'' | Some v \<Rightarrow> py_str v))
        | Inl e \<Rightarrow> if catches ToolDeniedError e then Inr (''denied: '' @ exn_msg e) else Inl e) = Inr line"
    using assms by (auto simp: mcp_gateway_main_def then_do_def split_def Let_def split: prod.splits sum.splits)
  have nobody: "verdict d \<noteq> ALLOW" if "fst (interceptor_evaluate digest elapsed rd a ic) = Inr d" for a d
    using interceptor_allowed[OF that] started_knows_nobody[OF ic] by (auto simp: store_get_def)
  have "?invoke ic \<noteq> Inr x" for x
    using nobody
    by (auto simp: gateway_invoke_def gateway_evaluate_eq bindR_Inr_iff split_def Let_def split: sum.splits if_splits)
  then show ?thesis using out by (cases "?invoke ic") (auto split: if_splits)
qed

lemma embedded_example_fails: "\<exists>e. fst (embedded_sdk_main cd tk dk fs schema lg pf p) = Inl e"
  by (auto simp: embedded_sdk_main_def then_do_def split: prod.split sum.split)

end
