(* ===== verification/Spec2Isabelle.thy ===== *)
theory Spec2Isabelle
  imports Concurrent SafeMode Sandbox McpValidators SiemExporter GuardChecker PolicyDocs Service Examples
begin

text \<open>
  A verification library for osl-agent-sentinel, the runtime security control plane for AI agents in
  src/src/sentinel. An agent proposes an action; the interceptor hands it to the decision pipeline, which
  resolves the agent's identity, runs five classifiers, evaluates the policy bundle and answers with a
  decision (ALLOW, THROTTLE, ESCALATE or DENY); enforcement points act on the decision.

  \<^bold>\<open>Foundations.\<close>
  Prelude: exceptions (utils/errors.py and the builtins) with their inheritance, results \<open>exn +
  'a\<close>, dictionaries as association lists in insertion order, string methods. Binary64: Python floats
  as rationals with a rounding after every operation, and \<open>round\<close>. PyValue: the JSON-like
  values of arguments and policies, with \<open>==\<close>, \<open>str\<close>, \<open>float()\<close> and
  \<open>json.dumps\<close>. Regex: the backtracking matcher of the patterns the detectors use, equal to a
  declarative semantics. Encoding: base 64, UTF-8, hex. Numbers and FloatText:
  \<^verbatim>\<open>int()\<close>, and the text of a float, which reads back as that float because
  seventeen digits tell doubles apart. Json: \<^verbatim>\<open>json.loads\<close>, with the round trip
  against the writer of theory Canonical. Models: the records of models/. Documents: how pydantic makes
  actions and risk factors of JSON, with their aliases, and the audit record. Registry: the locale
  \<open>keyed_store\<close> of the in-memory stores.

  \<^bold>\<open>Decision core.\<close>
  CircuitBreaker (core/circuit_breaker.py) as functions of the locked blocks and as the step relation
  \<open>cb_step\<close> of interleaved calls; IdentityResolver (identity/resolver.py, locale
  \<open>identity_store\<close>); TrustScorer; PolicyEngine (core/policy_engine.py, with
  \<open>sat_key\<close> as the specification of a match); the five classifiers ToolValidator,
  IntentClassifier, AnomalyDetector, InjectionDetector and DlpScanner, which interpret the locale
  \<open>risk_classifier\<close> of Classifier; RiskScore and Pipeline (core/pipeline.py); FailClosed, the
  properties of the pipeline; Concurrent, evaluations in flight together as the step relation
  \<open>con_step\<close>, with \<open>evaluate\<close> as one of its paths. The state between evaluations
  is the identity breaker and the anomaly windows; clocks and fresh ids are the record
  \<open>readings\<close>.

  \<^bold>\<open>Around the core.\<close>
  Tenancy, Approval, Interceptor (core/interceptor.py, with \<open>interceptor_step\<close> over all its
  operations), SafeMode (resilience/), RedTeam (redteam/harness.py, __main__.py and the command of cli.py).
  Enforcement: the MCP gateway and the adapters for Kong, Envoy and AWS, which interpret the locale
  \<open>enforcement_point\<close>; Client: the SDK, another enforcement point; Sandbox; McpValidators.
  RateLimit and HttpApi: api/, every middleware and route, composed by \<open>app\<close> as
  \<open>create_app\<close> composes them. SiemExporter: outbox, flush, loop and stop, and the interleaving
  of arrivals with sends. Canonical and Signing: canonical bytes, Ed25519, and the three signed documents
  (identity/signing.py, comms/iatp.py, verification/cmvk.py), which interpret the locale
  \<open>signed_document\<close>. PolicyPac: policy_pac/loader.py, core/cache.py, the policy commands of
  cli.py, and the choice of the bundle at start; PolicyDocs: models/policy.py as documents, with which the
  signed files and the cache round trip. Bootstrap: bootstrap.py, the interceptor as it is wired. Ops:
  utils/logging.py, utils/timing.py, observability/metrics.py and telemetry.py. Process: the start of a
  process step by step, with what can stop it, and the settings of api/app.py. Cli: the commands of cli.py,
  the key functions of utils/crypto.py and scripts/gen_keys.py. Remote: client and application together, the
  SDK posting to the HTTP interface. Wire: the JSON of actions, decisions and messages that is hashed,
  signed and sent, and its reading. Service: the started process serving request after request. Examples:
  the programs of src/examples. GuardChecker: static_analysis/guard_checker.py.

  \<^bold>\<open>What is shown.\<close>
  Soundness of ALLOW, from the pipeline out to the gateway and, below, to the HTTP interface; its provenance
  over whole runs of a started process, with the identities the service knows as a map that its acknowledged
  answers describe; the exact verdict; totality of an evaluation under stated conditions; that failures
  (crashing classifiers, unknown agents, an unreachable control plane, a failing SIEM, a bundle that does
  not load) end in the answers the theorems name; invariants of the breaker, the exporter and the
  interceptor; exactness of the policy engine, the DLP scan, the tool validator, the MCP validators and the
  guard checker against declarative specifications; bounds of the risk score, the trust score and the rate
  limit, as the callers of a service see it, in binary64; round trips of signatures, assuming that a
  signature verifies under its own key, and that what is signed or hashed is the whole document: another
  action, message or value under the same signature or digest is a forgery or a collision; round trips of
  actions and decisions through JSON, of the cache, whose bundle decides as the one it was given, and of the
  commands \<^verbatim>\<open>policy sign\<close> and \<^verbatim>\<open>policy verify\<close>; that the
  remote client and the embedded interceptor decide alike. Where the code departs from what it says, the
  theorem states what it does: a cancelled probe holds its slot for ever, unknown agents open the breaker
  for everybody, a throttling rule masks a risk that calls for DENY, escalations are never queued (theory
  Interceptor), the bundled scenarios cannot fail, a signed bundle signed again does not verify, a failing
  cache save starts the process with a stale bundle, a resource's query is not searched for traversal, a
  checkout below a skipped directory is not scanned (theory GuardChecker), the verbose flag is undone by the
  start of a process, a log level can keep a process from starting.

  \<^bold>\<open>Bounds.\<close>
  Every recursion is structural or has a measure, but for the JSON reader, whose fuel of twice the length of
  the text \<open>json_loads_fuel\<close> proves enough; its nesting is bounded by a parameter, Python's
  recursion limit. Strings are over U+0000 to U+00FF, except tool names in McpValidators, which are code
  points. Floats do not overflow; the rate-limit bound is stated for rates and bursts up to a million.
  Exception classes have at most five ancestors, which \<open>subclass_upto_stable\<close> proves.

  \<^bold>\<open>Parameters.\<close>
  Third-party code is an argument: \<^verbatim>\<open>jsonschema.validate\<close>, the embedding provider,
  the injection model, \<^verbatim>\<open>math.log10\<close>, orjson, SHA-256, Ed25519, HKDF and PEM, YAML,
  pydantic's conversion of single values in both directions, FastAPI's routing and CORS middleware, httpx,
  uvicorn, structlog, prometheus_client, opentelemetry, the file system and the encoding of the locale,
  \<^verbatim>\<open>ast.parse\<close>.

  \<^bold>\<open>Not modelled.\<close>
  The text of log lines and of the messages of JSON and validation errors, printing and argument parsing;
  closing the HTTP client; requests interleaved at the middleware (theory Service serves them one after the
  other, theory Concurrent interleaves evaluations); the hash chain that models/audit.py documents and no
  code implements; interleavings inside the classifiers (with the in-memory window store each runs alone)
  and reloads of the bundle during an evaluation; the Rust crate sentinel-engine, benchmarks and tests.
\<close>

section \<open>From a request to a decision\<close>

text \<open>
  C3: ALLOW over HTTP. A response to a request for a path that is not public, on an application without
  a CORS middleware, carries a decision ALLOW only if the request presented the configured token, its
  rate-limit bucket admitted it, its tenant is registered, it was routed as an evaluation of an action
  of that tenant, or of no tenant, and the action's agent is a stored identity that is not revoked,
  every rule of the active bundle that matches has effect ALLOW, and the score is below the throttle
  threshold.
\<close>

theorem http_allow_sound:
  assumes "fst (app env r (l, st)) = Inr resp" "rs_body resp = Decision_body d" "verdict d = ALLOW"
    and "\<not> is_public (rq_path r)" "ae_cors env = (\<lambda>h. h)"
    and "\<forall>x. ae_dispatch env r = Inr x \<longrightarrow> rs_body x \<noteq> rs_body resp"
  shows "authenticated (ae_token env) r \<and>
    fst (admit (ae_made env) (ae_now env) (tenant_header r) l) \<and>
    (\<exists>a c i ms. map_of (as_tenants st) (or_else (header r ''x-tenant-id'') ''default'') = Some c \<and>
       ae_dispatch env r = Inl (Evaluate a) \<and> (act_tenant_id a = [] \<or> act_tenant_id a = tc_tenant_id c) \<and>
       store_get (ic_identities (as_interceptor st)) (agent_did a) = Some i \<and> \<not> revoked i \<and>
       policy_evaluate (current_policy (as_interceptor st))
         (if act_tenant_id a = [] then a\<lparr>act_tenant_id := tc_tenant_id c\<rparr> else a) (Some i)
         (risk_factors (explanation d)) = Inr ms \<and>
       (\<forall>m \<in> set ms. pm_effect m = E_ALLOW) \<and> risk_score (explanation d) < THROTTLE_THRESHOLD)"
proof -
  have cors: "ae_cors (fst (env, r)) = (\<lambda>h. h)" using assms(5) by simp
  have ans: "fst (app (fst (env, r)) (snd (env, r)) (l, st)) = Inr resp"
    "\<forall>x. ae_dispatch (fst (env, r)) (snd (env, r)) = Inr x \<longrightarrow> rs_body x \<noteq> rs_body resp" using assms(1,6) by simp_all
  obtain a c i ms where
    "charged (env, r)" "fst (admits (env, r) l)" "ae_dispatch env r = Inl (Evaluate a)"
    "map_of (as_tenants st) (or_else (header r ''x-tenant-id'') ''default'') = Some c"
    "act_tenant_id a = [] \<or> act_tenant_id a = tc_tenant_id c"
    "store_get (ic_identities (as_interceptor st)) (agent_did a) = Some i" "\<not> revoked i"
    "policy_evaluate (current_policy (as_interceptor st))
       (if act_tenant_id a = [] then a\<lparr>act_tenant_id := tc_tenant_id c\<rparr> else a) (Some i) (risk_factors (explanation d)) = Inr ms"
    "\<forall>m \<in> set ms. pm_effect m = E_ALLOW" "risk_score (explanation d) < THROTTLE_THRESHOLD"
    using app_allowed[OF ans(1) assms(2,3) cors ans(2)] unfolding fst_conv snd_conv by metis
  then show ?thesis using assms(4) by (auto simp: charged_def admits_def)
qed

text \<open>A request with the token, from the default tenant, for an action that reads nothing of note.\<close>

abbreviation example_app :: app_state where
  "example_app \<equiv> example_app_state [default_tenant_config ''default'' ''D'']"

theorem http_allow_sound_witness:
  "\<exists>resp d. fst (app (fst (example_exchange (Evaluate calm_action))) (snd (example_exchange (Evaluate calm_action)))
       (default_limiter, example_app)) = Inr resp \<and>
     rs_body resp = Decision_body d \<and> verdict d = ALLOW \<and> risk_score (explanation d) < THROTTLE_THRESHOLD"
proof -
  let ?z = "example_exchange (Evaluate calm_action)"
  have "map_of (as_tenants example_app) ''default'' = Some (default_tenant_config ''default'' ''D'')"
    by (simp add: example_app_state_def new_tenant_db_def tenant_register_def default_tenant_config_def)
  from example_allowed[OF example_admitted(1) this] obtain resp d where
    z: "fst (app (fst ?z) (snd ?z) (default_limiter, example_app)) = Inr resp" "rs_body resp = Decision_body d" "verdict d = ALLOW"
    by (auto simp: example_app_state_def)
  from http_allow_sound[OF z example_request(1)] z show ?thesis by (auto simp: example_exchange_def)
qed

end
